theory Spec2Isabelle
  imports Complex_Main "HOL-Library.Char_ord" "HOL-Library.List_Lexorder"
begin

section \<open>JavaScript values\<close>

text \<open>
  The chart transform of \<^verbatim>\<open>client/app/visualizations/chart/plotly/updateData.js\<close>
  computes with JavaScript numbers. A number is modelled as a real, one of the two
  infinities or \<^verbatim>\<open>NaN\<close>: the special values follow IEEE 754. In the
  functions of the transform finite arithmetic is exact; the last section gives the
  transform with every operation rounded. The sign of zero is not modelled.
\<close>

datatype jsnum = NaN | PInf | NInf | Fin real

text \<open>
  The primitive values the transform meets: \<^verbatim>\<open>undefined\<close>, \<^verbatim>\<open>null\<close>,
  numbers and strings.
\<close>

datatype jsval = Undefined | Null | Num jsnum | Str string

fun isFinite :: "jsnum \<Rightarrow> bool" where
  "isFinite (Fin r) = True"
| "isFinite _ = False"

text \<open>\<^verbatim>\<open>a + b\<close> on numbers.\<close>

fun js_add :: "jsnum \<Rightarrow> jsnum \<Rightarrow> jsnum" where
  "js_add (Fin a) (Fin b) = Fin (a + b)"
| "js_add NaN _ = NaN"
| "js_add _ NaN = NaN"
| "js_add PInf NInf = NaN"
| "js_add NInf PInf = NaN"
| "js_add PInf _ = PInf"
| "js_add _ PInf = PInf"
| "js_add NInf _ = NInf"
| "js_add _ NInf = NInf"

text \<open>
  \<^verbatim>\<open>a / b\<close> on numbers. A zero divisor is read as \<^verbatim>\<open>+0\<close>: the only divisor
  of the transform is a sum of absolute values, which is never \<^verbatim>\<open>-0\<close>.
\<close>

fun js_div :: "jsnum \<Rightarrow> jsnum \<Rightarrow> jsnum" where
  "js_div (Fin a) (Fin b) =
     (if b = 0 then (if a = 0 then NaN else if 0 < a then PInf else NInf) else Fin (a / b))"
| "js_div NaN _ = NaN"
| "js_div _ NaN = NaN"
| "js_div (Fin a) _ = Fin 0"
| "js_div PInf (Fin b) = (if b < 0 then NInf else PInf)"
| "js_div NInf (Fin b) = (if b < 0 then PInf else NInf)"
| "js_div _ _ = NaN"

text \<open>\<^verbatim>\<open>a * b\<close> on numbers.\<close>

fun js_mul :: "jsnum \<Rightarrow> jsnum \<Rightarrow> jsnum" where
  "js_mul (Fin a) (Fin b) = Fin (a * b)"
| "js_mul NaN _ = NaN"
| "js_mul _ NaN = NaN"
| "js_mul PInf (Fin b) = (if b = 0 then NaN else if 0 < b then PInf else NInf)"
| "js_mul NInf (Fin b) = (if b = 0 then NaN else if 0 < b then NInf else PInf)"
| "js_mul (Fin a) PInf = (if a = 0 then NaN else if 0 < a then PInf else NInf)"
| "js_mul (Fin a) NInf = (if a = 0 then NaN else if 0 < a then NInf else PInf)"
| "js_mul PInf PInf = PInf"
| "js_mul NInf NInf = PInf"
| "js_mul PInf NInf = NInf"
| "js_mul NInf PInf = NInf"

text \<open>\<^verbatim>\<open>Math.abs\<close> and unary minus on numbers.\<close>

fun js_abs :: "jsnum \<Rightarrow> jsnum" where
  "js_abs (Fin a) = Fin \<bar>a\<bar>"
| "js_abs NaN = NaN"
| "js_abs PInf = PInf"
| "js_abs NInf = PInf"

fun js_neg :: "jsnum \<Rightarrow> jsnum" where
  "js_neg (Fin a) = Fin (- a)"
| "js_neg NaN = NaN"
| "js_neg PInf = NInf"
| "js_neg NInf = PInf"

section \<open>External collaborators\<close>

text \<open>
  The transform imports \<^verbatim>\<open>createNumberFormatter\<close> and \<^verbatim>\<open>formatSimpleTemplate\<close>
  from \<^verbatim>\<open>@/lib/value-format\<close> and \<^verbatim>\<open>normalizeValue\<close> from \<^verbatim>\<open>./utils\<close>; neither
  module is part of the sources at hand, so the three functions are parameters of the
  model. The conversions of the language between strings and numbers
  (\<^verbatim>\<open>ToNumber\<close> of a string, \<^verbatim>\<open>ToString\<close> of a number) are parameters as well.
\<close>

record lib =
  stringToNumber :: "string \<Rightarrow> jsnum"
  numberToString :: "jsnum \<Rightarrow> string"
  createNumberFormatter :: "string \<Rightarrow> jsval \<Rightarrow> string"
  formatSimpleTemplate :: "string \<Rightarrow> (string \<Rightarrow> jsval option) \<Rightarrow> string"
  normalizeValue :: "jsval \<Rightarrow> string option \<Rightarrow> string \<Rightarrow> jsval"

text \<open>\<^verbatim>\<open>ToNumber\<close> and \<^verbatim>\<open>ToString\<close> of a primitive value.\<close>

fun toNumber :: "lib \<Rightarrow> jsval \<Rightarrow> jsnum" where
  "toNumber L Undefined = NaN"
| "toNumber L Null = Fin 0"
| "toNumber L (Num n) = n"
| "toNumber L (Str s) = stringToNumber L s"

fun toString :: "lib \<Rightarrow> jsval \<Rightarrow> string" where
  "toString L Undefined = ''undefined''"
| "toString L Null = ''null''"
| "toString L (Num n) = numberToString L n"
| "toString L (Str s) = s"

text \<open>\<^verbatim>\<open>Math.abs(v)\<close> converts its argument to a number first.\<close>

definition math_abs :: "lib \<Rightarrow> jsval \<Rightarrow> jsnum" where
  "math_abs L v = js_abs (toNumber L v)"

text \<open>
  The binary \<^verbatim>\<open>+\<close> of the language: string concatenation as soon as one operand is
  a string, numeric addition otherwise.
\<close>

fun js_plus :: "lib \<Rightarrow> jsval \<Rightarrow> jsval \<Rightarrow> jsval" where
  "js_plus L (Str a) b = Str (a @ toString L b)"
| "js_plus L a (Str b) = Str (toString L a @ b)"
| "js_plus L a b = Num (js_add (toNumber L a) (toNumber L b))"

text \<open>\<^verbatim>\<open>xs[i]\<close>: reading an array past its end gives \<^verbatim>\<open>undefined\<close>.\<close>

definition js_nth :: "jsval list \<Rightarrow> nat \<Rightarrow> jsval" where
  "js_nth xs i = (if i < length xs then xs ! i else Undefined)"

section \<open>Data model\<close>

text \<open>
  \<^verbatim>\<open>item.row\<close>: the raw record of a point, with its \<^verbatim>\<open>x\<close>, \<^verbatim>\<open>y\<close> cells and the
  \<^verbatim>\<open>$raw\<close> fields (an object: a list of named values, empty when absent).
\<close>

record row =
  row_x :: jsval
  row_y :: jsval
  row_raw :: "(string \<times> jsval) list"

text \<open>
  A point of \<^verbatim>\<open>series.sourceData\<close>. The x-values of a chart are values of one
  ordered type \<^typ>\<open>'x\<close> (strings of a category axis, numbers of a linear one); an
  absent optional field is \<^const>\<open>Undefined\<close>.
\<close>

record 'x point =
  item_x :: 'x
  item_y :: jsval
  item_yError :: jsval
  item_size :: jsval
  item_yPercent :: jsval
  item_row :: row

text \<open>
  A series. \<^verbatim>\<open>sourceData\<close> is a \<^verbatim>\<open>Map\<close>, kept as the list of its entries in
  insertion order; \<^verbatim>\<open>sourceData.get(x)\<close> is \<^const>\<open>map_of\<close> and
  \<^verbatim>\<open>sourceData.forEach\<close> walks the values of the list (the keys of a \<^verbatim>\<open>Map\<close>
  are distinct). \<^verbatim>\<open>error_y_array\<close> is \<^verbatim>\<open>series.error_y.array\<close>.
\<close>

record 'x series =
  series_name :: string
  series_visible :: bool
  series_yaxis :: string
  sourceData :: "('x \<times> 'x point) list"
  series_labels :: "'x list"
  series_x :: "'x list"
  series_y :: "jsval list"
  error_y_array :: "jsval list"
  series_text :: "jsval list"
  series_hover :: "jsval list"

text \<open>An entry of \<^verbatim>\<open>options.seriesOptions\<close>: only its \<^verbatim>\<open>type\<close> is read.\<close>

record seriesOption =
  so_type :: "string option"

text \<open>
  The options. \<^verbatim>\<open>percentValues\<close> and \<^verbatim>\<open>stacking\<close> are the fields of
  \<^verbatim>\<open>options.series\<close>; the three axis types are what
  \<^verbatim>\<open>get(options, 'xAxis.type', null)\<close>, \<^verbatim>\<open>get(options, 'yAxis[0].type', null)\<close> and
  \<^verbatim>\<open>get(options, 'yAxis[1].type', null)\<close> return (\<^const>\<open>None\<close> for \<^verbatim>\<open>null\<close>).
\<close>

record options =
  globalSeriesType :: string
  seriesOptions :: "string \<Rightarrow> seriesOption option"
  percentValues :: bool
  stacking :: bool
  sortX :: bool
  xAxis_type :: "string option"
  yAxis0_type :: "string option"
  yAxis1_type :: "string option"
  numberFormat :: string
  percentFormat :: string
  dateTimeFormat :: string
  textFormat :: string

text \<open>The token bag handed to the text formatter: an object from token names to values.\<close>

type_synonym tokens = "string \<Rightarrow> jsval option"

text \<open>\<^verbatim>\<open>item[key]\<close>: a missing property reads as \<^verbatim>\<open>undefined\<close>.\<close>

definition getProp :: "tokens \<Rightarrow> string \<Rightarrow> jsval" where
  "getProp item k = (case item k of None \<Rightarrow> Undefined | Some v \<Rightarrow> v)"

section \<open>Text labels\<close>

text \<open>The separator of the default formatter: a space, the plus-minus sign (code unit
  \<^verbatim>\<open>0xB1\<close>) and a space.\<close>

definition plusMinus :: string where
  "plusMinus = '' '' @ [CHR 0xB1] @ '' ''"

definition defaultFormatSeriesText :: "lib \<Rightarrow> tokens \<Rightarrow> jsval" where
  "defaultFormatSeriesText L item =
     (let result = getProp item ''@@y'';
          result = (if getProp item ''@@yError'' \<noteq> Undefined
                    then Str (toString L result @ plusMinus @ toString L (getProp item ''@@yError''))
                    else result);
          result = (if getProp item ''@@yPercent'' \<noteq> Undefined
                    then Str (toString L (getProp item ''@@yPercent'') @ '' ('' @ toString L result @ '')'')
                    else result);
          result = (if getProp item ''@@size'' \<noteq> Undefined
                    then Str (toString L result @ '': '' @ toString L (getProp item ''@@size''))
                    else result)
      in result)"

definition defaultFormatSeriesTextForPie :: "lib \<Rightarrow> tokens \<Rightarrow> jsval" where
  "defaultFormatSeriesTextForPie L item =
     js_plus L (js_plus L (js_plus L (getProp item ''@@yPercent'') (Str '' ('')) (getProp item ''@@y''))
       (Str '')'')"

definition createTextFormatter :: "lib \<Rightarrow> options \<Rightarrow> tokens \<Rightarrow> jsval" where
  "createTextFormatter L opts =
     (if textFormat opts = ''''
      then (if globalSeriesType opts = ''pie''
            then defaultFormatSeriesTextForPie L else defaultFormatSeriesText L)
      else (\<lambda>item. Str (formatSimpleTemplate L (textFormat opts) item)))"

definition formatValue :: "lib \<Rightarrow> jsval \<Rightarrow> string \<Rightarrow> options \<Rightarrow> jsval" where
  "formatValue L v axis opts =
     (let axisType =
        (if axis = ''x'' then xAxis_type opts
         else if axis = ''y'' then yAxis0_type opts
         else if axis = ''y2'' then yAxis1_type opts
         else None)
      in normalizeValue L v axisType (dateTimeFormat opts))"

text \<open>
  The body of the inner loop of \<^verbatim>\<open>updateSeriesText\<close> up to the merge of the raw
  fields: the tokens of the point found at \<^verbatim>\<open>x\<close>, or the series name alone when the
  series has no point there.
\<close>

definition pointTokens ::
  "lib \<Rightarrow> options \<Rightarrow> 'x series \<Rightarrow> seriesOption \<Rightarrow> 'x point option \<Rightarrow> tokens" where
  "pointTokens L opts series so found =
     (let formatNumber = createNumberFormatter L (numberFormat opts);
          formatPercent = createNumberFormatter L (percentFormat opts);
          text = [''@@name'' \<mapsto> Str (series_name series)]
      in case found of
           None \<Rightarrow> text
         | Some item \<Rightarrow>
            (let yValueIsAny = (so_type so \<in> {Some ''bubble'', Some ''scatter''});
                 text = text(''@@x'' \<mapsto> formatValue L (row_x (item_row item)) ''x'' opts);
                 text = text(''@@y'' \<mapsto>
                          (if yValueIsAny
                           then formatValue L (row_y (item_row item)) (series_yaxis series) opts
                           else Str (formatNumber (item_y item))));
                 text = (if item_yError item \<noteq> Undefined
                         then text(''@@yError'' \<mapsto> Str (formatNumber (item_yError item)))
                         else text);
                 text = (if item_size item \<noteq> Undefined
                         then text(''@@size'' \<mapsto> Str (formatNumber (item_size item)))
                         else text);
                 text = (if percentValues opts \<or> globalSeriesType opts = ''pie''
                         then text(''@@yPercent'' \<mapsto>
                                Str (formatPercent (Num (math_abs L (item_yPercent item)))))
                         else text)
             in text))"

text \<open>
  The token bag of one x-value: \<^verbatim>\<open>extend(text, item.row.$raw)\<close> copies the raw
  fields over the tokens.
\<close>

definition seriesTokens ::
  "lib \<Rightarrow> options \<Rightarrow> 'x series \<Rightarrow> seriesOption \<Rightarrow> 'x \<Rightarrow> tokens" where
  "seriesTokens L opts series so xv =
     (case map_of (sourceData series) xv of
        None \<Rightarrow> pointTokens L opts series so None
      | Some item \<Rightarrow> pointTokens L opts series so (Some item) ++ map_of (row_raw (item_row item)))"

definition updateSeriesText :: "lib \<Rightarrow> 'x series list \<Rightarrow> options \<Rightarrow> 'x series list" where
  "updateSeriesText L seriesList opts =
     (let formatText = createTextFormatter L opts
      in map (\<lambda>series.
           let so = (case seriesOptions opts (series_name series) of
                       Some so \<Rightarrow> so
                     | None \<Rightarrow> \<lparr>so_type = Some (globalSeriesType opts)\<rparr>);
               xValues = (if globalSeriesType opts = ''pie''
                          then series_labels series else series_x series)
           in series\<lparr>series_text := map (\<lambda>xv. formatText (seriesTokens L opts series so xv)) xValues,
                     series_hover := []\<rparr>) seriesList)"

section \<open>Percent values\<close>

text \<open>\<^verbatim>\<open>sumOfCorrespondingPoints.get(item.x) || 0\<close>: a missing, zero or
  \<^verbatim>\<open>NaN\<close> entry is falsy and gives \<^verbatim>\<open>0\<close>.\<close>

definition orZero :: "jsnum option \<Rightarrow> jsnum" where
  "orZero e = (case e of None \<Rightarrow> Fin 0
               | Some v \<Rightarrow> if v = NaN \<or> v = Fin 0 then Fin 0 else v)"

definition addPoint :: "lib \<Rightarrow> ('x \<Rightarrow> jsnum option) \<Rightarrow> 'x point \<Rightarrow> ('x \<Rightarrow> jsnum option)" where
  "addPoint L sm item =
     (let sum' = orZero (sm (item_x item))
      in sm(item_x item \<mapsto> js_add sum' (math_abs L (item_y item))))"

definition sumOfCorrespondingPoints :: "lib \<Rightarrow> 'x series list \<Rightarrow> ('x \<Rightarrow> jsnum option)" where
  "sumOfCorrespondingPoints L seriesList =
     foldl (\<lambda>sm series. foldl (addPoint L) sm (map snd (sourceData series)))
       Map.empty seriesList"

text \<open>The second loop of \<^verbatim>\<open>updatePercentValues\<close>, for one point:
  \<^verbatim>\<open>item.yPercent = item.y / sum * 100\<close> with \<^verbatim>\<open>sum\<close> read from the map.\<close>

definition setPercent :: "lib \<Rightarrow> ('x \<Rightarrow> jsnum option) \<Rightarrow> 'x point \<Rightarrow> 'x point" where
  "setPercent L sm item =
     (let sum' = (case sm (item_x item) of None \<Rightarrow> Undefined | Some v \<Rightarrow> Num v)
      in item\<lparr>item_yPercent :=
           Num (js_mul (js_div (toNumber L (item_y item)) (toNumber L sum')) (Fin 100))\<rparr>)"

definition updatePercentValues :: "lib \<Rightarrow> 'x series list \<Rightarrow> options \<Rightarrow> 'x series list" where
  "updatePercentValues L seriesList opts =
     (if percentValues opts then
        (let sm = sumOfCorrespondingPoints L seriesList
         in map (\<lambda>series.
              let sd = map (\<lambda>(k, item). (k, setPercent L sm item)) (sourceData series)
              in series\<lparr>sourceData := sd, series_y := map (\<lambda>(k, item). item_yPercent item) sd\<rparr>)
            seriesList)
      else seriesList)"

section \<open>Unified x axis\<close>

text \<open>\<^verbatim>\<open>set.add(x)\<close> on a \<^verbatim>\<open>Set\<close> kept as the list of its elements in insertion
  order.\<close>

definition setAdd :: "'a list \<Rightarrow> 'a \<Rightarrow> 'a list" where
  "setAdd s v = (if v \<in> set s then s else s @ [v])"

text \<open>\<^verbatim>\<open>sortBy(result, identity)\<close> of lodash sorts ascending and stably; on a linear
  order that is \<^const>\<open>sort\<close>.\<close>

definition getUnifiedXAxisValues :: "('x::linorder) series list \<Rightarrow> bool \<Rightarrow> 'x list" where
  "getUnifiedXAxisValues seriesList sorted_flag =
     (let s = foldl (\<lambda>s series. foldl (\<lambda>s item. setAdd s (item_x item)) s (map snd (sourceData series)))
                [] seriesList;
          result = s
      in if sorted_flag then sort result else result)"

text \<open>The third argument is \<^const>\<open>Undefined\<close> when the caller leaves it out.\<close>

definition updateUnifiedXAxisValues ::
  "('x::linorder) series list \<Rightarrow> options \<Rightarrow> jsval \<Rightarrow> 'x series list" where
  "updateUnifiedXAxisValues seriesList opts defaultY0 =
     (let unifiedX = getUnifiedXAxisValues seriesList (sortX opts);
          defaultY = (if defaultY0 = Undefined then Null else defaultY0)
      in map (\<lambda>series.
           series\<lparr>series_x := unifiedX,
                  series_y := map (\<lambda>xv. case map_of (sourceData series) xv of
                                      Some item \<Rightarrow> (if percentValues opts then item_yPercent item
                                                     else item_y item)
                                    | None \<Rightarrow> defaultY) unifiedX,
                  error_y_array := map (\<lambda>xv. case map_of (sourceData series) xv of
                                      Some item \<Rightarrow> item_yError item
                                    | None \<Rightarrow> Null) unifiedX\<rparr>) seriesList)"

section \<open>The pipelines\<close>

definition updatePieData :: "lib \<Rightarrow> 'x series list \<Rightarrow> options \<Rightarrow> 'x series list" where
  "updatePieData L seriesList opts = updateSeriesText L seriesList opts"

text \<open>
  The stacking loop of \<^verbatim>\<open>updateLineAreaData\<close>: \<^verbatim>\<open>prevSeries\<close> is the series
  before, already accumulated (\<^const>\<open>None\<close> for \<^verbatim>\<open>null\<close>).
\<close>

fun stackSeries :: "lib \<Rightarrow> 'x series option \<Rightarrow> 'x series list \<Rightarrow> 'x series list" where
  "stackSeries L prevSeries [] = []"
| "stackSeries L prevSeries (series # rest) =
     (let series' = (case prevSeries of
                       None \<Rightarrow> series
                     | Some prev \<Rightarrow>
                         series\<lparr>series_y :=
                           map (\<lambda>(y, i). js_plus L (js_nth (series_y prev) i) y)
                             (zip (series_y series) [0..<length (series_y series)])\<rparr>)
      in series' # stackSeries L (Some series') rest)"

definition useUnifiedXAxis :: "options \<Rightarrow> bool" where
  "useUnifiedXAxis opts =
     (sortX opts \<and> xAxis_type opts = Some ''category'' \<and> globalSeriesType opts \<noteq> ''box'')"

definition updateLineAreaData ::
  "lib \<Rightarrow> ('x::linorder) series list \<Rightarrow> options \<Rightarrow> 'x series list" where
  "updateLineAreaData L seriesList0 opts =
     (let seriesList = updatePercentValues L seriesList0 opts;
          seriesList =
            (if stacking opts
             then stackSeries L None (updateUnifiedXAxisValues seriesList opts (Num (Fin 0)))
             else if useUnifiedXAxis opts
                  then updateUnifiedXAxisValues seriesList opts Undefined
                  else seriesList)
      in updateSeriesText L seriesList opts)"

definition updateDefaultData ::
  "lib \<Rightarrow> ('x::linorder) series list \<Rightarrow> options \<Rightarrow> 'x series list" where
  "updateDefaultData L seriesList0 opts =
     (let seriesList = updatePercentValues L seriesList0 opts;
          seriesList =
            (if \<not> stacking opts
             then (if useUnifiedXAxis opts
                   then updateUnifiedXAxisValues seriesList opts Undefined
                   else seriesList)
             else seriesList)
      in updateSeriesText L seriesList opts)"

text \<open>
  The passes update the visible series in place, and \<^verbatim>\<open>updateData\<close> returns the
  list it was given: every visible series of that list is then the updated object, in
  the same place, and the others are untouched. (The series of a list are taken to be
  different objects.)
\<close>

fun writeBack :: "'x series list \<Rightarrow> 'x series list \<Rightarrow> 'x series list" where
  "writeBack [] vs = []"
| "writeBack (s # ss) vs =
     (if series_visible s
      then (case vs of [] \<Rightarrow> s # writeBack ss [] | v # vs' \<Rightarrow> v # writeBack ss vs')
      else s # writeBack ss vs)"

definition updateData :: "lib \<Rightarrow> ('x::linorder) series list \<Rightarrow> options \<Rightarrow> 'x series list" where
  "updateData L seriesList opts =
     (let visibleSeriesList = filter series_visible seriesList
      in if length visibleSeriesList > 0
         then writeBack seriesList
                (if globalSeriesType opts = ''pie''
                 then updatePieData L visibleSeriesList opts
                 else if globalSeriesType opts = ''line'' \<or> globalSeriesType opts = ''area''
                 then updateLineAreaData L visibleSeriesList opts
                 else if globalSeriesType opts = ''heatmap''
                 then visibleSeriesList
                 else updateDefaultData L visibleSeriesList opts)
         else seriesList)"

section \<open>Rounded arithmetic\<close>

text \<open>
  The numbers of JavaScript are IEEE 754 doubles: \<^verbatim>\<open>+\<close>, \<^verbatim>\<open>/\<close> and \<^verbatim>\<open>*\<close> give the
  double nearest to the exact result, and an infinity beyond the largest double. In the
  functions of this section the rounding is a parameter \<^verbatim>\<open>rnd\<close>, which gives the
  number that stands for an exact result: each function is the one of the sections above
  with its arithmetic rounded. With \<^const>\<open>Fin\<close> for \<^verbatim>\<open>rnd\<close> they are
  the functions above.
\<close>

fun fl_add :: "(real \<Rightarrow> jsnum) \<Rightarrow> jsnum \<Rightarrow> jsnum \<Rightarrow> jsnum" where
  "fl_add rnd (Fin a) (Fin b) = rnd (a + b)"
| "fl_add rnd a b = js_add a b"

fun fl_div :: "(real \<Rightarrow> jsnum) \<Rightarrow> jsnum \<Rightarrow> jsnum \<Rightarrow> jsnum" where
  "fl_div rnd (Fin a) (Fin b) = (if b = 0 then js_div (Fin a) (Fin b) else rnd (a / b))"
| "fl_div rnd a b = js_div a b"

fun fl_mul :: "(real \<Rightarrow> jsnum) \<Rightarrow> jsnum \<Rightarrow> jsnum \<Rightarrow> jsnum" where
  "fl_mul rnd (Fin a) (Fin b) = rnd (a * b)"
| "fl_mul rnd a b = js_mul a b"

fun fl_plus :: "(real \<Rightarrow> jsnum) \<Rightarrow> lib \<Rightarrow> jsval \<Rightarrow> jsval \<Rightarrow> jsval" where
  "fl_plus rnd L (Str a) b = Str (a @ toString L b)"
| "fl_plus rnd L a (Str b) = Str (toString L a @ b)"
| "fl_plus rnd L a b = Num (fl_add rnd (toNumber L a) (toNumber L b))"

text \<open>\<^verbatim>\<open>updatePercentValues\<close>: the sums \<^verbatim>\<open>sum + Math.abs(item.y)\<close> and the shares
  \<^verbatim>\<open>item.y / sum * 100\<close>, each operation rounded.\<close>

definition addPointFl ::
  "(real \<Rightarrow> jsnum) \<Rightarrow> lib \<Rightarrow> ('x \<Rightarrow> jsnum option) \<Rightarrow> 'x point \<Rightarrow> ('x \<Rightarrow> jsnum option)" where
  "addPointFl rnd L sm item =
     (let sum' = orZero (sm (item_x item))
      in sm(item_x item \<mapsto> fl_add rnd sum' (math_abs L (item_y item))))"

definition sumOfCorrespondingPointsFl ::
  "(real \<Rightarrow> jsnum) \<Rightarrow> lib \<Rightarrow> 'x series list \<Rightarrow> ('x \<Rightarrow> jsnum option)" where
  "sumOfCorrespondingPointsFl rnd L seriesList =
     foldl (\<lambda>sm series. foldl (addPointFl rnd L) sm (map snd (sourceData series)))
       Map.empty seriesList"

definition setPercentFl ::
  "(real \<Rightarrow> jsnum) \<Rightarrow> lib \<Rightarrow> ('x \<Rightarrow> jsnum option) \<Rightarrow> 'x point \<Rightarrow> 'x point" where
  "setPercentFl rnd L sm item =
     (let sum' = (case sm (item_x item) of None \<Rightarrow> Undefined | Some v \<Rightarrow> Num v)
      in item\<lparr>item_yPercent :=
           Num (fl_mul rnd (fl_div rnd (toNumber L (item_y item)) (toNumber L sum')) (Fin 100))\<rparr>)"

definition updatePercentValuesFl ::
  "(real \<Rightarrow> jsnum) \<Rightarrow> lib \<Rightarrow> 'x series list \<Rightarrow> options \<Rightarrow> 'x series list" where
  "updatePercentValuesFl rnd L seriesList opts =
     (if percentValues opts then
        (let sm = sumOfCorrespondingPointsFl rnd L seriesList
         in map (\<lambda>series.
              let sd = map (\<lambda>(k, item). (k, setPercentFl rnd L sm item)) (sourceData series)
              in series\<lparr>sourceData := sd, series_y := map (\<lambda>(k, item). item_yPercent item) sd\<rparr>)
            seriesList)
      else seriesList)"

text \<open>The stacking loop, \<^verbatim>\<open>prevSeries.y[i] + series.y[i]\<close> rounded.\<close>

fun stackSeriesFl ::
  "(real \<Rightarrow> jsnum) \<Rightarrow> lib \<Rightarrow> 'x series option \<Rightarrow> 'x series list \<Rightarrow> 'x series list" where
  "stackSeriesFl rnd L prevSeries [] = []"
| "stackSeriesFl rnd L prevSeries (series # rest) =
     (let series' = (case prevSeries of
                       None \<Rightarrow> series
                     | Some prev \<Rightarrow>
                         series\<lparr>series_y :=
                           map (\<lambda>(y, i). fl_plus rnd L (js_nth (series_y prev) i) y)
                             (zip (series_y series) [0..<length (series_y series)])\<rparr>)
      in series' # stackSeriesFl rnd L (Some series') rest)"

definition updateLineAreaDataFl ::
  "(real \<Rightarrow> jsnum) \<Rightarrow> lib \<Rightarrow> ('x::linorder) series list \<Rightarrow> options \<Rightarrow> 'x series list" where
  "updateLineAreaDataFl rnd L seriesList0 opts =
     (let seriesList = updatePercentValuesFl rnd L seriesList0 opts;
          seriesList =
            (if stacking opts
             then stackSeriesFl rnd L None (updateUnifiedXAxisValues seriesList opts (Num (Fin 0)))
             else if useUnifiedXAxis opts
                  then updateUnifiedXAxisValues seriesList opts Undefined
                  else seriesList)
      in updateSeriesText L seriesList opts)"

definition updateDefaultDataFl ::
  "(real \<Rightarrow> jsnum) \<Rightarrow> lib \<Rightarrow> ('x::linorder) series list \<Rightarrow> options \<Rightarrow> 'x series list" where
  "updateDefaultDataFl rnd L seriesList0 opts =
     (let seriesList = updatePercentValuesFl rnd L seriesList0 opts;
          seriesList =
            (if \<not> stacking opts
             then (if useUnifiedXAxis opts
                   then updateUnifiedXAxisValues seriesList opts Undefined
                   else seriesList)
             else seriesList)
      in updateSeriesText L seriesList opts)"

definition updateDataFl ::
  "(real \<Rightarrow> jsnum) \<Rightarrow> lib \<Rightarrow> ('x::linorder) series list \<Rightarrow> options \<Rightarrow> 'x series list" where
  "updateDataFl rnd L seriesList opts =
     (let visibleSeriesList = filter series_visible seriesList
      in if length visibleSeriesList > 0
         then writeBack seriesList
                (if globalSeriesType opts = ''pie''
                 then updatePieData L visibleSeriesList opts
                 else if globalSeriesType opts = ''line'' \<or> globalSeriesType opts = ''area''
                 then updateLineAreaDataFl rnd L visibleSeriesList opts
                 else if globalSeriesType opts = ''heatmap''
                 then visibleSeriesList
                 else updateDefaultDataFl rnd L visibleSeriesList opts)
         else seriesList)"

section \<open>Notions used by the properties\<close>

text \<open>The \<^verbatim>\<open>switch\<close> of \<^const>\<open>updateData\<close> on the chart family, as a function of the
  visible series.\<close>

definition pipeline :: "lib \<Rightarrow> options \<Rightarrow> ('x::linorder) series list \<Rightarrow> 'x series list" where
  "pipeline L opts vs =
     (if globalSeriesType opts = ''pie'' then updatePieData L vs opts
      else if globalSeriesType opts = ''line'' \<or> globalSeriesType opts = ''area''
      then updateLineAreaData L vs opts
      else if globalSeriesType opts = ''heatmap'' then vs
      else updateDefaultData L vs opts)"

text \<open>
  The visible series as the stacking loop of \<^const>\<open>updateLineAreaData\<close> finds them:
  percent-adjusted when percent values are on, projected on the unified x axis and
  filled with \<^verbatim>\<open>0\<close>.
\<close>

definition preStack :: "lib \<Rightarrow> ('x::linorder) series list \<Rightarrow> options \<Rightarrow> 'x series list" where
  "preStack L sl opts =
     updateUnifiedXAxisValues (updatePercentValues L (filter series_visible sl) opts) opts
       (Num (Fin 0))"

text \<open>
  The union of a list in first-seen order: every element once, where it first occurs.
\<close>

fun firstSeen :: "'a list \<Rightarrow> 'a list" where
  "firstSeen [] = []"
| "firstSeen (x # xs) = x # firstSeen (filter (\<lambda>y. y \<noteq> x) xs)"

text \<open>The keys of the points of all series: the series in the order of the list, the
  keys of a series in insertion order.\<close>

definition pointKeys :: "'x series list \<Rightarrow> 'x list" where
  "pointKeys sl = concat (map (\<lambda>s. map fst (sourceData s)) sl)"

text \<open>The points of all series, in the same order.\<close>

definition points :: "'x series list \<Rightarrow> 'x point list" where
  "points sl = concat (map (\<lambda>s. map snd (sourceData s)) sl)"

text \<open>The loader keys every point by its x-value: \<^verbatim>\<open>sourceData.set(x, {x, y, ...})\<close>.\<close>

definition keyedByX :: "'x series list \<Rightarrow> bool" where
  "keyedByX sl = (\<forall>s\<in>set sl. \<forall>(k, item)\<in>set (sourceData s). item_x item = k)"

text \<open>
  Whether \<^const>\<open>updateUnifiedXAxisValues\<close> is called: never for pie and heatmap; for
  line and area when stacking, or else on a sorted category axis; for the other
  families on a sorted category axis when not stacking.
\<close>

definition runsUnification :: "options \<Rightarrow> bool" where
  "runsUnification opts =
     (if globalSeriesType opts = ''pie'' \<or> globalSeriesType opts = ''heatmap'' then False
      else if globalSeriesType opts = ''line'' \<or> globalSeriesType opts = ''area''
      then stacking opts \<or> useUnifiedXAxis opts
      else \<not> stacking opts \<and> useUnifiedXAxis opts)"

text \<open>The step of \<^const>\<open>updateLineAreaData\<close> and \<^const>\<open>updateDefaultData\<close> between the
  percent values and the text labels.\<close>

definition unifyStage :: "lib \<Rightarrow> options \<Rightarrow> ('x::linorder) series list \<Rightarrow> 'x series list" where
  "unifyStage L opts ss =
     (if runsUnification opts
      then (if stacking opts
            then stackSeries L None (updateUnifiedXAxisValues ss opts (Num (Fin 0)))
            else updateUnifiedXAxisValues ss opts Undefined)
      else ss)"

text \<open>The points that the series have at an x-value.\<close>

definition pointsAt :: "'x \<Rightarrow> 'x series list \<Rightarrow> 'x point list" where
  "pointsAt xv sl = filter (\<lambda>item. item_x item = xv) (points sl)"

text \<open>The sum of a list of numbers, added up from \<^verbatim>\<open>0\<close> in the order of the list.\<close>

definition js_sum :: "jsnum list \<Rightarrow> jsnum" where
  "js_sum ns = foldl js_add (Fin 0) ns"

text \<open>The sum of the absolute y-values at an x-value, over the series that have a point
  there.\<close>

definition absSumAt :: "lib \<Rightarrow> 'x \<Rightarrow> 'x series list \<Rightarrow> jsnum" where
  "absSumAt L xv sl = js_sum (map (\<lambda>item. math_abs L (item_y item)) (pointsAt xv sl))"

text \<open>The real number of a finite number (\<^verbatim>\<open>0\<close> for the others), and the numbers that
  are not negative.\<close>

fun finVal :: "jsnum \<Rightarrow> real" where
  "finVal (Fin r) = r"
| "finVal _ = 0"

fun nonNegative :: "jsnum \<Rightarrow> bool" where
  "nonNegative (Fin r) = (0 \<le> r)"
| "nonNegative PInf = True"
| "nonNegative _ = False"

text \<open>The sum of \<^verbatim>\<open>yPercent\<close>, and of its absolute values, over the points at an
  x-value.\<close>

definition percentSumAt :: "lib \<Rightarrow> 'x \<Rightarrow> 'x series list \<Rightarrow> jsnum" where
  "percentSumAt L xv sl = js_sum (map (\<lambda>item. toNumber L (item_yPercent item)) (pointsAt xv sl))"

definition percentAbsSumAt :: "lib \<Rightarrow> 'x \<Rightarrow> 'x series list \<Rightarrow> jsnum" where
  "percentAbsSumAt L xv sl = js_sum (map (\<lambda>item. math_abs L (item_yPercent item)) (pointsAt xv sl))"

text \<open>The options of a series as \<^const>\<open>updateSeriesText\<close> resolves them:
  \<^verbatim>\<open>options.seriesOptions[series.name] || { type: options.globalSeriesType }\<close>.\<close>

definition resolvedOptions :: "options \<Rightarrow> 'x series \<Rightarrow> seriesOption" where
  "resolvedOptions opts series =
     (case seriesOptions opts (series_name series) of
        Some so \<Rightarrow> so
      | None \<Rightarrow> \<lparr>so_type = Some (globalSeriesType opts)\<rparr>)"

text \<open>A series with the sign of every \<^verbatim>\<open>yPercent\<close> flipped.\<close>

definition negatePercent :: "lib \<Rightarrow> 'x series \<Rightarrow> 'x series" where
  "negatePercent L series =
     series\<lparr>sourceData :=
       map (\<lambda>(k, item). (k, item\<lparr>item_yPercent := Num (js_neg (toNumber L (item_yPercent item)))\<rparr>))
         (sourceData series)\<rparr>"

text \<open>A series without its text arrays, and without its coordinate arrays: what the
  passes that rebuild these arrays read of a series.\<close>

definition clearText :: "'x series \<Rightarrow> 'x series" where
  "clearText s = s\<lparr>series_text := [], series_hover := []\<rparr>"

definition clearXYE :: "'x series \<Rightarrow> 'x series" where
  "clearXYE s = s\<lparr>series_x := [], series_y := [], error_y_array := []\<rparr>"

text \<open>The arrays \<^verbatim>\<open>x\<close>, \<^verbatim>\<open>y\<close>, \<^verbatim>\<open>error_y.array\<close> and \<^verbatim>\<open>text\<close> of a series have the same
  length.\<close>

definition parallel :: "'x series \<Rightarrow> bool" where
  "parallel s =
     (length (series_y s) = length (series_x s) \<and>
      length (error_y_array s) = length (series_x s) \<and>
      length (series_text s) = length (series_x s))"

text \<open>
  The condition on a series as it comes in under which it leaves the transform with
  parallel arrays: for heatmap, that its arrays are parallel; for pie, that \<^verbatim>\<open>x\<close>,
  \<^verbatim>\<open>y\<close>, \<^verbatim>\<open>error_y.array\<close> and \<^verbatim>\<open>labels\<close> have the same length; for the other families,
  that the unification runs, or that \<^verbatim>\<open>error_y.array\<close> is as long as \<^verbatim>\<open>x\<close> and, with
  percent values on, \<^verbatim>\<open>x\<close> has one entry per point of \<^verbatim>\<open>sourceData\<close>, with percent
  values off, \<^verbatim>\<open>y\<close> is as long as \<^verbatim>\<open>x\<close>.
\<close>

definition leavesParallel :: "options \<Rightarrow> 'x series \<Rightarrow> bool" where
  "leavesParallel opts s =
     (if globalSeriesType opts = ''heatmap'' then parallel s
      else if globalSeriesType opts = ''pie''
      then length (series_y s) = length (series_x s) \<and>
           length (error_y_array s) = length (series_x s) \<and>
           length (series_labels s) = length (series_x s)
      else runsUnification opts \<or>
           (length (error_y_array s) = length (series_x s) \<and>
            (if percentValues opts then length (sourceData s) = length (series_x s)
             else length (series_y s) = length (series_x s))))"

section \<open>Example inputs\<close>

text \<open>Collaborators for the examples: a formatter that prints its pattern, a template
  engine that returns the template, a normalizer that returns the value.\<close>

definition ex_lib :: lib where
  "ex_lib = \<lparr>stringToNumber = (\<lambda>s. NaN), numberToString = (\<lambda>n. ''num''),
     createNumberFormatter = (\<lambda>f v. f), formatSimpleTemplate = (\<lambda>t item. t),
     normalizeValue = (\<lambda>v t f. v)\<rparr>"

definition ex_point :: "string \<Rightarrow> jsval \<Rightarrow> string point" where
  "ex_point k v = \<lparr>item_x = k, item_y = v, item_yError = Undefined, item_size = Undefined,
     item_yPercent = Undefined, item_row = \<lparr>row_x = Str k, row_y = v, row_raw = []\<rparr>\<rparr>"

text \<open>A series as the loader builds it from rows \<^verbatim>\<open>(x, y)\<close> with different x.\<close>

definition ex_series :: "string \<Rightarrow> bool \<Rightarrow> (string \<times> jsval) list \<Rightarrow> string series" where
  "ex_series n vis ps = \<lparr>series_name = n, series_visible = vis, series_yaxis = ''y'',
     sourceData = map (\<lambda>(k, v). (k, ex_point k v)) ps, series_labels = map fst ps,
     series_x = map fst ps, series_y = map snd ps,
     error_y_array = map (\<lambda>p. Undefined) ps, series_text = [], series_hover = []\<rparr>"

text \<open>Options: chart family, percent values, stacking, sorting; a category x axis and the
  default text format.\<close>

definition ex_options :: "string \<Rightarrow> bool \<Rightarrow> bool \<Rightarrow> bool \<Rightarrow> options" where
  "ex_options t pv st so = \<lparr>globalSeriesType = t, seriesOptions = Map.empty, percentValues = pv,
     stacking = st, sortX = so, xAxis_type = Some ''category'', yAxis0_type = None,
     yAxis1_type = None, numberFormat = ''N'', percentFormat = ''P'', dateTimeFormat = ''D'',
     textFormat = ''''\<rparr>"

text \<open>Two visible series with \<^verbatim>\<open>y = [1, 2]\<close> and \<^verbatim>\<open>y = [3, 4]\<close> on the same x-values,
  and a hidden one between them.\<close>

definition ex_stack :: "string series list" where
  "ex_stack = [ex_series ''A'' True [(''a'', Num (Fin 1)), (''b'', Num (Fin 2))],
               ex_series ''H'' False [(''c'', Num (Fin 9))],
               ex_series ''B'' True [(''a'', Num (Fin 3)), (''b'', Num (Fin 4))]]"

text \<open>Two visible line series on a category axis: the first has points at
  \<^verbatim>\<open>"b"\<close> and \<^verbatim>\<open>"a"\<close>, the second at \<^verbatim>\<open>"a"\<close> only.\<close>

definition ex_unify :: "string series list" where
  "ex_unify = [ex_series ''A'' True [(''b'', Num (Fin 1)), (''a'', Num (Fin 2))],
               ex_series ''B'' True [(''a'', Num (Fin 3))]]"

text \<open>Two visible series with the points \<^verbatim>\<open>("a", 0)\<close> and \<^verbatim>\<open>("a", null)\<close>.\<close>

definition ex_zero :: "string series list" where
  "ex_zero = [ex_series ''A'' True [(''a'', Num (Fin 0))],
              ex_series ''B'' True [(''a'', Null)]]"

text \<open>Two visible series with the points \<^verbatim>\<open>("a", -1)\<close> and \<^verbatim>\<open>("a", 1)\<close>.\<close>

definition ex_signed :: "string series list" where
  "ex_signed = [ex_series ''A'' True [(''a'', Num (Fin (- 1)))],
                ex_series ''B'' True [(''a'', Num (Fin 1))]]"

text \<open>Two visible series with the points \<^verbatim>\<open>("a", 30)\<close> and \<^verbatim>\<open>("a", 70)\<close>, and a
  hidden one with \<^verbatim>\<open>("a", 100)\<close>.\<close>

definition ex_share :: "string series list" where
  "ex_share = [ex_series ''A'' True [(''a'', Num (Fin 30))],
               ex_series ''H'' False [(''a'', Num (Fin 100))],
               ex_series ''B'' True [(''a'', Num (Fin 70))]]"

text \<open>A series built from the two rows \<^verbatim>\<open>("a", 5)\<close> and \<^verbatim>\<open>("a", 7)\<close> with the same x:
  its arrays have an entry per row, its \<^verbatim>\<open>Map\<close> keeps one point, the last.\<close>

definition ex_dup :: "string series list" where
  "ex_dup = [(ex_series ''A'' True [(''a'', Num (Fin 7))])
               \<lparr>series_x := [''a'', ''a''], series_y := [Num (Fin 5), Num (Fin 7)],
                error_y_array := [Undefined, Undefined]\<rparr>]"

text \<open>A visible scatter series with one point whose y is \<^verbatim>\<open>5\<close> and whose raw row has
  the y cell \<^verbatim>\<open>"high"\<close>.\<close>

definition ex_scatter :: "string series list" where
  "ex_scatter =
     [\<lparr>series_name = ''A'', series_visible = True, series_yaxis = ''y'',
       sourceData = [(''a'', (ex_point ''a'' (Num (Fin 5)))
                       \<lparr>item_row := \<lparr>row_x = Str ''a'', row_y = Str ''high'', row_raw = []\<rparr>\<rparr>)],
       series_labels = [''a''], series_x = [''a''], series_y = [Num (Fin 5)],
       error_y_array = [Undefined], series_text = [], series_hover = []\<rparr>]"

text \<open>A visible pie series with one point whose \<^verbatim>\<open>yPercent\<close> is \<^verbatim>\<open>-25\<close>.\<close>

definition ex_pie :: "string series list" where
  "ex_pie =
     [\<lparr>series_name = ''A'', series_visible = True, series_yaxis = ''y'',
       sourceData = [(''a'', (ex_point ''a'' (Num (Fin (- 5))))\<lparr>item_yPercent := Num (Fin (- 25))\<rparr>)],
       series_labels = [''a''], series_x = [], series_y = [],
       error_y_array = [], series_text = [], series_hover = []\<rparr>]"

text \<open>Two visible line series: the first has a point at \<^verbatim>\<open>"a"\<close> only, the second at
  \<^verbatim>\<open>"a"\<close> and \<^verbatim>\<open>"b"\<close>.\<close>

definition ex_gap :: "string series list" where
  "ex_gap = [ex_series ''A'' True [(''a'', Num (Fin 1))],
             ex_series ''B'' True [(''a'', Num (Fin 3)), (''b'', Num (Fin 4))]]"

text \<open>Collaborators whose number formatter prints its pattern and then the number, for
  the numbers of the examples.\<close>

definition ex_lib_value :: lib where
  "ex_lib_value = ex_lib\<lparr>createNumberFormatter :=
     (\<lambda>f v. f @ (case v of
                   Num (Fin r) \<Rightarrow>
                     (if r = 25 then ''25'' else if r = - 25 then ''-25''
                      else if r = 5 then ''5'' else if r = - 5 then ''-5'' else ''#'')
                 | _ \<Rightarrow> ''?''))\<rparr>"

text \<open>The pie series of \<^const>\<open>ex_pie\<close> with a raw record that has a field named
  \<^verbatim>\<open>@@yPercent\<close>.\<close>

definition ex_raw :: "string series list" where
  "ex_raw =
     [\<lparr>series_name = ''A'', series_visible = True, series_yaxis = ''y'',
       sourceData = [(''a'', (ex_point ''a'' (Num (Fin (- 5))))
                       \<lparr>item_yPercent := Num (Fin (- 25)),
                        item_row := \<lparr>row_x = Str ''a'', row_y = Num (Fin (- 5)),
                                     row_raw = [(''@@yPercent'', Str ''RAW'')]\<rparr>\<rparr>)],
       series_labels = [''a''], series_x = [], series_y = [],
       error_y_array = [], series_text = [], series_hover = []\<rparr>]"

text \<open>
  A rounding is accurate to \<^verbatim>\<open>u\<close> between \<^verbatim>\<open>lo\<close> and \<^verbatim>\<open>hi\<close> when it gives, for
  zero and for every real whose absolute value lies between \<^verbatim>\<open>lo\<close> and \<^verbatim>\<open>hi\<close>, a
  finite number with a relative error of at most \<^verbatim>\<open>u\<close>. Rounding to the nearest double
  is accurate to \<^verbatim>\<open>2^-53\<close> between the smallest normal double \<^verbatim>\<open>2^-1022\<close> and the
  largest double; below the first it loses relative accuracy (underflow), beyond the
  second it gives an infinity (overflow).
\<close>

definition accurate :: "(real \<Rightarrow> jsnum) \<Rightarrow> real \<Rightarrow> real \<Rightarrow> real \<Rightarrow> bool" where
  "accurate rnd u lo hi =
     (\<forall>x. x = 0 \<or> (lo \<le> \<bar>x\<bar> \<and> \<bar>x\<bar> \<le> hi) \<longrightarrow> (\<exists>c. rnd x = Fin c \<and> \<bar>c - x\<bar> \<le> u * \<bar>x\<bar>))"

text \<open>A number that is finite and lies between two bounds.\<close>

fun finiteBetween :: "jsnum \<Rightarrow> real \<Rightarrow> real \<Rightarrow> bool" where
  "finiteBetween (Fin v) a b = (a \<le> v \<and> v \<le> b)"
| "finiteBetween _ a b = False"

text \<open>Rounding to the nearest multiple of \<^verbatim>\<open>1/1024\<close>, with an infinity beyond a
  million: a small number format, accurate to \<^verbatim>\<open>1/128\<close> between \<^verbatim>\<open>1/16\<close> and a
  million.\<close>

definition ex_rnd :: "real \<Rightarrow> jsnum" where
  "ex_rnd x = (if 1000000 < x then PInf else if x < - 1000000 then NInf
               else Fin (of_int \<lfloor>x * 1024 + 1 / 2\<rfloor> / 1024))"

text \<open>Three visible series with the point \<^verbatim>\<open>("a", 1)\<close> each, and a hidden one with
  \<^verbatim>\<open>("a", 100)\<close>.\<close>

definition ex_thirds :: "string series list" where
  "ex_thirds = [ex_series ''A'' True [(''a'', Num (Fin 1))],
                ex_series ''H'' False [(''a'', Num (Fin 100))],
                ex_series ''B'' True [(''a'', Num (Fin 1))],
                ex_series ''C'' True [(''a'', Num (Fin 1))]]"

text \<open>Two visible series with the point \<^verbatim>\<open>("a", 600000)\<close> each.\<close>

definition ex_big :: "string series list" where
  "ex_big = [ex_series ''A'' True [(''a'', Num (Fin 600000))],
             ex_series ''B'' True [(''a'', Num (Fin 600000))]]"

section \<open>Frame properties of the passes\<close>

lemma writeBack_Nil: "writeBack ss [] = ss"
  by (induction ss) auto

lemma stackSeries_length: "length (stackSeries L p ss) = length ss"
  by (induction ss arbitrary: p) (auto simp: Let_def)

lemma stackSeries_frame:
  assumes "\<And>s ys. f (s\<lparr>series_y := ys\<rparr>) = f s"
  shows "map f (stackSeries L p ss) = map f ss"
  using assms by (induction ss arbitrary: p) (auto simp: Let_def split: option.splits)

lemma updateSeriesText_length: "length (updateSeriesText L ss opts) = length ss"
  by (simp add: updateSeriesText_def Let_def)

lemma updateSeriesText_frame:
  assumes "\<And>s t h. f (s\<lparr>series_text := t, series_hover := h\<rparr>) = f s"
  shows "map f (updateSeriesText L ss opts) = map f ss"
  using assms by (simp add: updateSeriesText_def Let_def)

lemma updatePercentValues_length: "length (updatePercentValues L ss opts) = length ss"
  by (simp add: updatePercentValues_def Let_def)

lemma updatePercentValues_frame:
  assumes "\<And>s d ys. f (s\<lparr>sourceData := d, series_y := ys\<rparr>) = f s"
  shows "map f (updatePercentValues L ss opts) = map f ss"
  using assms by (simp add: updatePercentValues_def Let_def)

lemma updateUnifiedXAxisValues_length: "length (updateUnifiedXAxisValues ss opts d) = length ss"
  by (simp add: updateUnifiedXAxisValues_def Let_def)

lemma updateUnifiedXAxisValues_frame:
  assumes "\<And>s xs ys es. f (s\<lparr>series_x := xs, series_y := ys, error_y_array := es\<rparr>) = f s"
  shows "map f (updateUnifiedXAxisValues ss opts d) = map f ss"
  using assms by (simp add: updateUnifiedXAxisValues_def Let_def)

lemma updateLineAreaData_length: "length (updateLineAreaData L ss opts) = length ss"
  by (simp add: updateLineAreaData_def Let_def updateSeriesText_length stackSeries_length
      updateUnifiedXAxisValues_length updatePercentValues_length)

lemma updateDefaultData_length: "length (updateDefaultData L ss opts) = length ss"
  by (simp add: updateDefaultData_def Let_def updateSeriesText_length
      updateUnifiedXAxisValues_length updatePercentValues_length)

lemma updateLineAreaData_visible:
  "map series_visible (updateLineAreaData L ss opts) = map series_visible ss"
  by (simp add: updateLineAreaData_def Let_def updateSeriesText_frame stackSeries_frame
      updateUnifiedXAxisValues_frame updatePercentValues_frame)

lemma updateDefaultData_visible:
  "map series_visible (updateDefaultData L ss opts) = map series_visible ss"
  by (simp add: updateDefaultData_def Let_def updateSeriesText_frame
      updateUnifiedXAxisValues_frame updatePercentValues_frame)

lemma updatePieData_visible:
  "map series_visible (updatePieData L ss opts) = map series_visible ss"
  by (simp add: updatePieData_def updateSeriesText_frame)

lemma pipeline_visible: "map series_visible (pipeline L opts vs) = map series_visible vs"
  by (simp add: pipeline_def updatePieData_visible updateLineAreaData_visible updateDefaultData_visible)

lemma pipeline_length: "length (pipeline L opts vs) = length vs"
  by (simp add: pipeline_def updatePieData_def updateSeriesText_length updateLineAreaData_length
      updateDefaultData_length)

lemma filter_writeBack:
  "map series_visible vs = map series_visible (filter series_visible ss)
   \<Longrightarrow> filter series_visible (writeBack ss vs) = vs"
proof (induction ss arbitrary: vs)
  case Nil
  then show ?case by simp
next
  case (Cons s ss)
  then show ?case by (cases vs) (auto)
qed

lemma writeBack_filter: "writeBack ss (filter series_visible ss) = ss"
  by (induction ss) auto

lemma updateData_pipeline:
  "updateData L sl opts = writeBack sl (pipeline L opts (filter series_visible sl))"
proof (cases "filter series_visible sl")
  case Nil
  have "length (pipeline L opts (filter series_visible sl)) = 0"
    using Nil by (simp only: pipeline_length list.size)
  then have "pipeline L opts (filter series_visible sl) = []" by simp
  with Nil show ?thesis by (simp add: updateData_def writeBack_Nil)
next
  case (Cons v vs)
  then show ?thesis by (simp add: updateData_def pipeline_def)
qed

lemma visible_updateData:
  "filter series_visible (updateData L sl opts) = pipeline L opts (filter series_visible sl)"
  by (simp add: updateData_pipeline filter_writeBack pipeline_visible)


lemma map_upt_Suc0: "map f [0..<Suc n] = f 0 # map (\<lambda>k. f (Suc k)) [0..<n]"
  by (rule map_upt_Suc)

lemma stackSeries_Some_nth:
  assumes "\<forall>s\<in>set ss. length (series_y s) = m" "length (series_y p) = m" "n < length ss" "i < m"
  shows "length (series_y (stackSeries L (Some p) ss ! n)) = m \<and>
         series_y (stackSeries L (Some p) ss ! n) ! i =
           foldl (js_plus L) (series_y p ! i) (map (\<lambda>k. series_y (ss ! k) ! i) [0..<Suc n])"
  using assms
proof (induction ss arbitrary: p n)
  case Nil
  then show ?case by simp
next
  case (Cons s ss)
  let ?s' = "s\<lparr>series_y := map (\<lambda>(y, i). js_plus L (js_nth (series_y p) i) y)
                             (zip (series_y s) [0..<length (series_y s)])\<rparr>"
  have len: "length (series_y ?s') = m" using Cons.prems by simp
  have val: "series_y ?s' ! i = js_plus L (series_y p ! i) (series_y s ! i)"
    using Cons.prems by (simp add: js_nth_def)
  show ?case
  proof (cases n)
    case 0
    then show ?thesis using len val by (simp add: Let_def)
  next
    case (Suc n')
    have "length (series_y (stackSeries L (Some ?s') ss ! n')) = m \<and>
         series_y (stackSeries L (Some ?s') ss ! n') ! i =
           foldl (js_plus L) (series_y ?s' ! i) (map (\<lambda>k. series_y (ss ! k) ! i) [0..<Suc n'])"
      using Cons.prems Suc len by (intro Cons.IH) auto
    then show ?thesis using Suc val
      by (simp add: Let_def map_upt_Suc0 [where n = "Suc n'"] del: upt_Suc)
  qed
qed

lemma stackSeries_None_nth:
  assumes "\<forall>s\<in>set ss. length (series_y s) = m" "n < length ss" "i < m"
  shows "length (series_y (stackSeries L None ss ! n)) = m \<and>
         series_y (stackSeries L None ss ! n) ! i =
           foldl (js_plus L) (series_y (ss ! 0) ! i) (map (\<lambda>k. series_y (ss ! k) ! i) [1..<Suc n])"
proof (cases ss)
  case Nil
  then show ?thesis using assms by simp
next
  case (Cons s rest)
  show ?thesis
  proof (cases n)
    case 0
    then show ?thesis using Cons assms by (simp add: Let_def)
  next
    case (Suc n')
    have "length (series_y (stackSeries L (Some s) rest ! n')) = m \<and>
         series_y (stackSeries L (Some s) rest ! n') ! i =
           foldl (js_plus L) (series_y s ! i) (map (\<lambda>k. series_y (rest ! k) ! i) [0..<Suc n'])"
      using Cons assms Suc by (intro stackSeries_Some_nth) auto
    moreover have "map (\<lambda>k. series_y ((s # rest) ! k) ! i) [1..<Suc (Suc n')] =
                   map (\<lambda>k. series_y (rest ! k) ! i) [0..<Suc n']"
      by (simp add: map_Suc_upt [symmetric] del: upt_Suc)
    ultimately show ?thesis using Cons Suc by (simp add: Let_def del: upt_Suc)
  qed
qed

lemma map_length2: "length xs = 2 \<Longrightarrow> map f xs = [f (xs ! 0), f (xs ! 1)]"
proof -
  assume "length xs = 2"
  then obtain a b where "xs = [a, b]"
    by (cases xs; cases "tl xs") auto
  then show ?thesis by simp
qed

section \<open>The stages of the pipelines\<close>

lemma pipeline_stages:
  "pipeline L opts vs =
     (if globalSeriesType opts = ''heatmap'' then vs
      else if globalSeriesType opts = ''pie'' then updateSeriesText L vs opts
      else updateSeriesText L (unifyStage L opts (updatePercentValues L vs opts)) opts)"
  by (auto simp: pipeline_def updatePieData_def updateLineAreaData_def updateDefaultData_def
      unifyStage_def runsUnification_def Let_def)

lemma foldl_setAdd:
  "foldl setAdd acc xs = acc @ firstSeen (filter (\<lambda>x. x \<notin> set acc) xs)"
proof (induction xs arbitrary: acc)
  case Nil
  then show ?case by simp
next
  case (Cons x xs)
  show ?case
  proof (cases "x \<in> set acc")
    case True
    then show ?thesis using Cons.IH [of acc] by (simp add: setAdd_def)
  next
    case False
    have "filter (\<lambda>y. y \<notin> set (acc @ [x])) xs = filter (\<lambda>y. y \<noteq> x) (filter (\<lambda>y. y \<notin> set acc) xs)"
      by (auto intro: filter_cong)
    then show ?thesis using False Cons.IH [of "acc @ [x]"] by (simp add: setAdd_def)
  qed
qed

lemma foldl_series_points:
  "foldl (\<lambda>a series. foldl f a (map snd (sourceData series))) a sl = foldl f a (points sl)"
  by (induction sl arbitrary: a) (auto simp: points_def)

lemma unified_unsorted:
  "getUnifiedXAxisValues sl False = firstSeen (map item_x (points sl))"
proof -
  have "foldl (\<lambda>s series. foldl (\<lambda>s item. setAdd s (item_x item)) s (map snd (sourceData series))) [] sl
        = foldl setAdd [] (map item_x (points sl))"
    (is "?l = ?r")
  proof -
    have "?l = foldl (\<lambda>s item. setAdd s (item_x item)) [] (points sl)"
      by (rule foldl_series_points)
    also have "\<dots> = ?r" by (simp add: foldl_map)
    finally show ?thesis .
  qed
  then show ?thesis by (simp add: getUnifiedXAxisValues_def foldl_setAdd)
qed

lemma unified_sorted:
  "getUnifiedXAxisValues sl True = sort (getUnifiedXAxisValues sl False)"
  by (simp add: getUnifiedXAxisValues_def)

lemma set_firstSeen: "set (firstSeen xs) = set xs"
  by (induction xs rule: firstSeen.induct) auto

lemma distinct_firstSeen: "distinct (firstSeen xs)"
  by (induction xs rule: firstSeen.induct) (auto simp: set_firstSeen)

lemma keyed_points: "keyedByX sl \<Longrightarrow> map item_x (points sl) = pointKeys sl"
proof (induction sl)
  case Nil
  then show ?case by (simp add: points_def pointKeys_def)
next
  case (Cons s sl)
  have "map (item_x \<circ> snd) (sourceData s) = map fst (sourceData s)"
    using Cons.prems by (auto simp: keyedByX_def)
  moreover have "keyedByX sl" using Cons.prems by (simp add: keyedByX_def)
  ultimately show ?case using Cons.IH by (simp add: points_def pointKeys_def)
qed


lemma setPercent_x: "item_x (setPercent L sm item) = item_x item"
  by (simp add: setPercent_def Let_def)

lemma points_map_sourceData:
  "points (map (\<lambda>series. series\<lparr>sourceData := map (\<lambda>(k, item). (k, g item)) (sourceData series),
                                   series_y := h series\<rparr>) ss) = map g (points ss)"
  by (induction ss) (auto simp: points_def split_def comp_def)

lemma points_percent:
  "percentValues opts \<Longrightarrow>
   points (updatePercentValues L ss opts) = map (setPercent L (sumOfCorrespondingPoints L ss)) (points ss)"
  by (simp add: updatePercentValues_def Let_def points_map_sourceData)

lemma points_percent_x:
  "map item_x (points (updatePercentValues L ss opts)) = map item_x (points ss)"
proof (cases "percentValues opts")
  case True
  then show ?thesis by (simp add: points_percent setPercent_x comp_def)
next
  case False
  then show ?thesis by (simp add: updatePercentValues_def)
qed

lemma unified_percent:
  "getUnifiedXAxisValues (updatePercentValues L ss opts) b = getUnifiedXAxisValues ss b"
  by (cases b) (simp_all add: unified_sorted unified_unsorted points_percent_x)

lemma unified_nth:
  "n < length ss \<Longrightarrow>
   updateUnifiedXAxisValues ss opts d ! n =
     (ss ! n)\<lparr>series_x := getUnifiedXAxisValues ss (sortX opts),
       series_y := map (\<lambda>xv. case map_of (sourceData (ss ! n)) xv of
                          Some item \<Rightarrow> (if percentValues opts then item_yPercent item else item_y item)
                        | None \<Rightarrow> (if d = Undefined then Null else d))
                     (getUnifiedXAxisValues ss (sortX opts)),
       error_y_array := map (\<lambda>xv. case map_of (sourceData (ss ! n)) xv of
                          Some item \<Rightarrow> item_yError item | None \<Rightarrow> Null)
                     (getUnifiedXAxisValues ss (sortX opts))\<rparr>"
  by (simp add: updateUnifiedXAxisValues_def Let_def)

lemma unifyStage_length: "length (unifyStage L opts ss) = length ss"
  by (simp add: unifyStage_def stackSeries_length updateUnifiedXAxisValues_length)

lemma unifyStage_frame:
  assumes "\<And>s xs ys es. f (s\<lparr>series_x := xs, series_y := ys, error_y_array := es\<rparr>) = f s"
    and "\<And>s ys. f (s\<lparr>series_y := ys\<rparr>) = f s"
  shows "map f (unifyStage L opts ss) = map f ss"
  using assms by (simp add: unifyStage_def stackSeries_frame updateUnifiedXAxisValues_frame)

lemma unifyStage_x:
  "runsUnification opts \<Longrightarrow>
   map series_x (unifyStage L opts ss) = map series_x (updateUnifiedXAxisValues ss opts d)"
  by (simp add: unifyStage_def stackSeries_frame updateUnifiedXAxisValues_def Let_def)

lemma unifyStage_err:
  "runsUnification opts \<Longrightarrow>
   map error_y_array (unifyStage L opts ss) = map error_y_array (updateUnifiedXAxisValues ss opts d)"
  by (simp add: unifyStage_def stackSeries_frame updateUnifiedXAxisValues_def Let_def)

lemma runs_not_special:
  "runsUnification opts \<Longrightarrow> globalSeriesType opts \<noteq> ''pie'' \<and> globalSeriesType opts \<noteq> ''heatmap''"
  by (auto simp: runsUnification_def split: if_splits)

lemma pipeline_runs:
  "runsUnification opts \<Longrightarrow>
   pipeline L opts vs = updateSeriesText L (unifyStage L opts (updatePercentValues L vs opts)) opts"
  by (simp add: pipeline_stages runs_not_special)

lemma nth_map_field: "n < length xs \<Longrightarrow> map f xs = map f ys \<Longrightarrow> f (xs ! n) = f (ys ! n)"
  by (metis length_map nth_map)

section \<open>The sums of the percent values\<close>

lemma points_cong: "map sourceData a = map sourceData b \<Longrightarrow> points a = points b"
proof -
  assume eq: "map sourceData a = map sourceData b"
  have "points a = concat (map (map snd) (map sourceData a))"
    by (simp add: points_def comp_def)
  also have "\<dots> = concat (map (map snd) (map sourceData b))" by (simp only: eq)
  also have "\<dots> = points b" by (simp add: points_def comp_def)
  finally show ?thesis .
qed

lemma sums_points:
  "sumOfCorrespondingPoints L sl = foldl (addPoint L) Map.empty (points sl)"
  by (simp add: sumOfCorrespondingPoints_def foldl_series_points)

lemma orZero_Fin: "orZero (Some (Fin a)) = Fin a"
  by (simp add: orZero_def)

lemma addPoint_other: "item_x item \<noteq> xv \<Longrightarrow> addPoint L m item xv = m xv"
  by (simp add: addPoint_def Let_def)

lemma addPoint_same:
  "addPoint L m item (item_x item) = Some (js_add (orZero (m (item_x item))) (math_abs L (item_y item)))"
  by (simp add: addPoint_def Let_def)

lemma fold_addPoint_finite:
  assumes "\<forall>item\<in>set ps. item_x item = xv \<longrightarrow> isFinite (toNumber L (item_y item))"
    and "orZero (m xv) = Fin a"
  shows "orZero (foldl (addPoint L) m ps xv) =
         Fin (a + (\<Sum>item\<leftarrow>filter (\<lambda>item. item_x item = xv) ps. \<bar>finVal (toNumber L (item_y item))\<bar>))"
  using assms
proof (induction ps arbitrary: m a)
  case Nil
  then show ?case by simp
next
  case (Cons p ps)
  show ?case
  proof (cases "item_x p = xv")
    case True
    then have "isFinite (toNumber L (item_y p))" using Cons.prems(1) by simp
    then obtain r where r: "toNumber L (item_y p) = Fin r" by (cases "toNumber L (item_y p)") auto
    have step: "orZero (addPoint L m p xv) = Fin (a + \<bar>r\<bar>)"
      using True Cons.prems(2) addPoint_same [of L m p] by (simp add: math_abs_def r orZero_Fin)
    have rest: "\<forall>item\<in>set ps. item_x item = xv \<longrightarrow> isFinite (toNumber L (item_y item))"
      using Cons.prems(1) by simp
    from Cons.IH [of "addPoint L m p" "a + \<bar>r\<bar>", OF rest step] True r
    show ?thesis by (simp add: add.assoc)
  next
    case False
    then have step: "orZero (addPoint L m p xv) = Fin a"
      using Cons.prems(2) by (simp add: addPoint_other)
    have rest: "\<forall>item\<in>set ps. item_x item = xv \<longrightarrow> isFinite (toNumber L (item_y item))"
      using Cons.prems(1) by simp
    from Cons.IH [of "addPoint L m p" a, OF rest step] False show ?thesis by simp
  qed
qed

lemma js_sum_finite:
  assumes "\<forall>n\<in>set ns. isFinite n"
  shows "foldl js_add (Fin a) ns = Fin (a + (\<Sum>n\<leftarrow>ns. finVal n))"
  using assms
proof (induction ns arbitrary: a)
  case Nil
  then show ?case by simp
next
  case (Cons n ns)
  then obtain r where "n = Fin r" by (cases n) auto
  with Cons show ?case by (simp add: add.assoc)
qed

lemma setPercent_yPercent:
  "item_yPercent (setPercent L sm item) =
     Num (js_mul (js_div (toNumber L (item_y item))
            (toNumber L (case sm (item_x item) of None \<Rightarrow> Undefined | Some v \<Rightarrow> Num v))) (Fin 100))"
  by (simp add: setPercent_def Let_def)

lemma points_pipeline:
  "globalSeriesType opts \<noteq> ''heatmap'' \<Longrightarrow> globalSeriesType opts \<noteq> ''pie'' \<Longrightarrow>
   points (pipeline L opts vs) = points (updatePercentValues L vs opts)"
  by (rule points_cong) (simp add: pipeline_stages updateSeriesText_frame unifyStage_frame)

lemma updateData_length: "length (updateData L sl opts) = length sl"
proof -
  have "length (writeBack ss vs) = length ss" for ss vs :: "'a series list"
    by (induction ss arbitrary: vs) (auto split: list.splits)
  then show ?thesis by (simp add: updateData_pipeline)
qed

section \<open>Stacking\<close>

lemma unified_y_length:
  "s \<in> set (updateUnifiedXAxisValues ss opts d) \<Longrightarrow>
   length (series_y s) = length (getUnifiedXAxisValues ss (sortX opts))"
  by (auto simp: updateUnifiedXAxisValues_def Let_def)

lemma pipeline_stacked_y:
  assumes "globalSeriesType opts = ''line'' \<or> globalSeriesType opts = ''area''" "stacking opts"
  shows "map series_y (pipeline L opts (filter series_visible sl)) =
         map series_y (stackSeries L None (preStack L sl opts))"
  using assms
  by (auto simp: pipeline_def updateLineAreaData_def Let_def preStack_def updateSeriesText_frame)

text \<open>
  C3. For the line and area families with stacking on, the y-array of the n-th visible
  series after the transform is, at every index, the sum (taken from the first series
  on, with the \<^verbatim>\<open>+\<close> of the language) of the y-values that the visible series
  1 to n have at that index before the accumulation, that is once percent-adjusted,
  unified and zero-filled; the array keeps the length of the unified x axis.
\<close>

theorem stacking_cumulative:
  assumes "globalSeriesType opts = ''line'' \<or> globalSeriesType opts = ''area''"
    and "stacking opts"
    and "n < length (preStack L sl opts)"
    and "i < length (series_y (preStack L sl opts ! n))"
  shows "length (series_y (filter series_visible (updateData L sl opts) ! n)) =
           length (series_y (preStack L sl opts ! n)) \<and>
         series_y (filter series_visible (updateData L sl opts) ! n) ! i =
           foldl (js_plus L) (series_y (preStack L sl opts ! 0) ! i)
             (map (\<lambda>k. series_y (preStack L sl opts ! k) ! i) [1..<Suc n])"
proof -
  let ?pre = "preStack L sl opts"
  let ?m = "length (getUnifiedXAxisValues (updatePercentValues L (filter series_visible sl) opts) (sortX opts))"
  have all: "\<forall>s\<in>set ?pre. length (series_y s) = ?m"
    by (auto simp: preStack_def dest: unified_y_length)
  then have m: "length (series_y (?pre ! n)) = ?m" using assms(3) by simp
  have n2: "n < length (stackSeries L None ?pre)" using assms(3) by (simp add: stackSeries_length)
  have "series_y (filter series_visible (updateData L sl opts) ! n) =
        map series_y (pipeline L opts (filter series_visible sl)) ! n"
    using assms(3) by (simp add: visible_updateData pipeline_length preStack_def
        updateUnifiedXAxisValues_length updatePercentValues_length)
  also have "\<dots> = series_y (stackSeries L None ?pre ! n)"
    using n2 by (simp add: pipeline_stacked_y [OF assms(1,2)])
  finally have eq: "series_y (filter series_visible (updateData L sl opts) ! n) =
    series_y (stackSeries L None ?pre ! n)" .
  from stackSeries_None_nth [OF all assms(3), of i L] assms(4) m
  show ?thesis unfolding eq by simp
qed

theorem stacking_cumulative_witness:
  "stacking (ex_options ''line'' False True False) \<and>
   length (series_y (filter series_visible
       (updateData ex_lib ex_stack (ex_options ''line'' False True False)) ! 1)) = 2 \<and>
   series_y (filter series_visible
       (updateData ex_lib ex_stack (ex_options ''line'' False True False)) ! 1) ! 1 = Num (Fin 6)"
proof -
  let ?o = "ex_options ''line'' False True False"
  let ?pre = "preStack ex_lib ex_stack ?o"
  have pre: "map series_y ?pre = [[Num (Fin 1), Num (Fin 2)], [Num (Fin 3), Num (Fin 4)]]"
    by (simp add: preStack_def ex_stack_def ex_series_def ex_options_def ex_point_def
        updateUnifiedXAxisValues_def updatePercentValues_def getUnifiedXAxisValues_def
        setAdd_def Let_def)
  have len: "length ?pre = 2" using arg_cong [OF pre, of length] by simp
  have y0: "series_y (?pre ! 0) = [Num (Fin 1), Num (Fin 2)]"
    using arg_cong [OF pre, of "\<lambda>l. l ! 0"] len by simp
  have y1: "series_y (?pre ! 1) = [Num (Fin 3), Num (Fin 4)]"
    using arg_cong [OF pre, of "\<lambda>l. l ! 1"] len by simp
  have h1: "globalSeriesType ?o = ''line'' \<or> globalSeriesType ?o = ''area''"
    by (simp add: ex_options_def)
  have h2: "stacking ?o" by (simp add: ex_options_def)
  have h3: "1 < length ?pre" using len by simp
  have h4: "1 < length (series_y (?pre ! 1))" using y1 by simp
  have up: "[1..<Suc 1] = [1]" by simp
  from stacking_cumulative [OF h1 h2 h3 h4] h2 show ?thesis
    unfolding up using y0 y1 by simp
qed

section \<open>The unified x axis\<close>

lemma unified_set: "set (getUnifiedXAxisValues sl b) = set (map item_x (points sl))"
  by (cases b) (simp_all add: unified_sorted unified_unsorted set_firstSeen del: set_map)

lemma unified_distinct: "distinct (getUnifiedXAxisValues sl b)"
  by (cases b) (simp_all add: unified_sorted unified_unsorted distinct_firstSeen)

lemma pipeline_unified_x:
  assumes "runsUnification opts" "s \<in> set (pipeline L opts vs)"
  shows "series_x s = getUnifiedXAxisValues vs (sortX opts)"
proof -
  have "map series_x (pipeline L opts vs) =
        map series_x (updateUnifiedXAxisValues (updatePercentValues L vs opts) opts Undefined)"
    using assms(1) by (simp add: pipeline_runs updateSeriesText_frame unifyStage_x)
  also have "\<dots> = map (\<lambda>s. getUnifiedXAxisValues vs (sortX opts)) (updatePercentValues L vs opts)"
    by (simp add: updateUnifiedXAxisValues_def Let_def unified_percent)
  finally have "series_x s \<in> set (map (\<lambda>s. getUnifiedXAxisValues vs (sortX opts))
                                    (updatePercentValues L vs opts))"
    using assms(2) by (metis image_eqI set_map)
  then show ?thesis by auto
qed

text \<open>
  C5. With every point stored under its own x-value, the unified x-domain of the visible
  series is, when \<^verbatim>\<open>sortX\<close> is off, the union of their point keys in first-seen order
  (series in the order of the caller, the keys of a series in insertion order); when
  \<^verbatim>\<open>sortX\<close> is on it holds the same keys, each once, in non-decreasing order.
  Whenever the unification runs, the x array of every visible series is that domain.
\<close>

theorem unified_domain_order:
  assumes "keyedByX (filter series_visible sl)"
  shows "getUnifiedXAxisValues (filter series_visible sl) False
           = firstSeen (pointKeys (filter series_visible sl)) \<and>
         sorted (getUnifiedXAxisValues (filter series_visible sl) True) \<and>
         distinct (getUnifiedXAxisValues (filter series_visible sl) True) \<and>
         set (getUnifiedXAxisValues (filter series_visible sl) True)
           = set (pointKeys (filter series_visible sl)) \<and>
         (runsUnification opts \<longrightarrow>
            (\<forall>s\<in>set (filter series_visible (updateData L sl opts)).
               series_x s = getUnifiedXAxisValues (filter series_visible sl) (sortX opts)))"
proof -
  let ?vs = "filter series_visible sl"
  have keys: "map item_x (points ?vs) = pointKeys ?vs" using assms by (rule keyed_points)
  have "getUnifiedXAxisValues ?vs False = firstSeen (pointKeys ?vs)"
    by (simp only: unified_unsorted keys)
  moreover have "sorted (getUnifiedXAxisValues ?vs True)" by (simp add: unified_sorted)
  moreover have "distinct (getUnifiedXAxisValues ?vs True)" by (rule unified_distinct)
  moreover have "set (getUnifiedXAxisValues ?vs True) = set (pointKeys ?vs)"
    by (simp only: unified_set keys)
  moreover have "runsUnification opts \<longrightarrow>
            (\<forall>s\<in>set (filter series_visible (updateData L sl opts)).
               series_x s = getUnifiedXAxisValues ?vs (sortX opts))"
    by (auto simp only: visible_updateData dest: pipeline_unified_x)
  ultimately show ?thesis by blast
qed

theorem unified_domain_order_witness:
  "keyedByX (filter series_visible ex_unify) \<and>
   getUnifiedXAxisValues (filter series_visible ex_unify) False = [''b'', ''a''] \<and>
   getUnifiedXAxisValues (filter series_visible ex_unify) True = [''a'', ''b''] \<and>
   runsUnification (ex_options ''line'' False False True) \<and>
   map series_x (filter series_visible
     (updateData ex_lib ex_unify (ex_options ''line'' False False True))) =
     [[''a'', ''b''], [''a'', ''b'']]"
proof -
  let ?o = "ex_options ''line'' False False True"
  let ?vs = "filter series_visible ex_unify"
  let ?out = "filter series_visible (updateData ex_lib ex_unify ?o)"
  have vs: "?vs = ex_unify" by (simp add: ex_unify_def ex_series_def)
  have k: "keyedByX ?vs"
    unfolding vs by (simp add: keyedByX_def ex_unify_def ex_series_def ex_point_def)
  have r: "runsUnification ?o"
    by (simp add: runsUnification_def ex_options_def useUnifiedXAxis_def)
  have keys: "pointKeys ?vs = [''b'', ''a'', ''a'']"
    unfolding vs by (simp add: pointKeys_def ex_unify_def ex_series_def)
  have srt: "getUnifiedXAxisValues ?vs True = sort (getUnifiedXAxisValues ?vs False)"
    by (rule unified_sorted)
  have len: "length ?out = 2"
    by (simp add: visible_updateData pipeline_length vs) (simp add: ex_unify_def)
  have sx: "sortX ?o" by (simp add: ex_options_def)
  note t = unified_domain_order [OF k, of ?o ex_lib]
  from t have u: "getUnifiedXAxisValues ?vs False = [''b'', ''a'']" by (simp add: keys)
  from t r sx have "\<forall>s\<in>set ?out. series_x s = [''a'', ''b'']" by (simp add: srt u)
  then have "\<forall>i<length ?out. series_x (?out ! i) = [''a'', ''b'']"
    by (simp only: all_set_conv_all_nth)
  then have "series_x (?out ! 0) = [''a'', ''b'']" "series_x (?out ! 1) = [''a'', ''b'']"
    by (simp_all add: len)
  then have "map series_x ?out = [[''a'', ''b''], [''a'', ''b'']]"
    by (simp only: map_length2 [OF len])
  with k r u srt show ?thesis by simp
qed

section \<open>Projection on the unified x axis\<close>

lemma pipeline_sourceData:
  "globalSeriesType opts \<noteq> ''heatmap'' \<Longrightarrow> globalSeriesType opts \<noteq> ''pie'' \<Longrightarrow>
   map sourceData (pipeline L opts vs) = map sourceData (updatePercentValues L vs opts)"
  by (simp add: pipeline_stages updateSeriesText_frame unifyStage_frame)

lemma unification_emitted:
  assumes "runsUnification opts"
    and "n < length (filter series_visible sl)"
    and "i < length (getUnifiedXAxisValues (filter series_visible sl) (sortX opts))"
  shows
    "let unifiedX = getUnifiedXAxisValues (filter series_visible sl) (sortX opts);
         series = filter series_visible (updateData L sl opts) ! n;
         emittedY = (if stacking opts then series_y (preStack L sl opts ! n) else series_y series)
     in series_x series = unifiedX \<and>
        length emittedY = length unifiedX \<and>
        length (error_y_array series) = length unifiedX \<and>
        (case map_of (sourceData series) (unifiedX ! i) of
           Some item \<Rightarrow>
             emittedY ! i = (if percentValues opts then item_yPercent item else item_y item) \<and>
             error_y_array series ! i = item_yError item
         | None \<Rightarrow>
             emittedY ! i = (if stacking opts then Num (Fin 0) else Null) \<and>
             error_y_array series ! i = Null)"
proof -
  let ?vs = "filter series_visible sl"
  let ?ps = "updatePercentValues L ?vs opts"
  let ?ux = "getUnifiedXAxisValues ?vs (sortX opts)"
  let ?out = "pipeline L opts ?vs"
  define d where "d = (if stacking opts then Num (Fin 0) else Undefined)"
  let ?d = d
  let ?u = "updateUnifiedXAxisValues ?ps opts ?d"
  have fill: "(if d = Undefined then Null else d) = (if stacking opts then Num (Fin 0) else Null)"
    by (simp add: d_def)
  have n: "n < length ?ps" "n < length ?out" "n < length ?u"
    using assms(2)
    by (simp_all add: updatePercentValues_length pipeline_length updateUnifiedXAxisValues_length)
  have ns: "globalSeriesType opts \<noteq> ''heatmap''" "globalSeriesType opts \<noteq> ''pie''"
    using runs_not_special [OF assms(1)] by simp_all
  have un: "?u ! n = (?ps ! n)\<lparr>series_x := ?ux,
       series_y := map (\<lambda>xv. case map_of (sourceData (?ps ! n)) xv of
                          Some item \<Rightarrow> (if percentValues opts then item_yPercent item else item_y item)
                        | None \<Rightarrow> (if ?d = Undefined then Null else ?d)) ?ux,
       error_y_array := map (\<lambda>xv. case map_of (sourceData (?ps ! n)) xv of
                          Some item \<Rightarrow> item_yError item | None \<Rightarrow> Null) ?ux\<rparr>"
    using unified_nth [OF n(1), of opts ?d] by (simp only: unified_percent)
  have sd: "sourceData (?out ! n) = sourceData (?ps ! n)"
    using nth_map_field [OF n(2) pipeline_sourceData [OF ns]] .
  have x: "series_x (?out ! n) = series_x (?u ! n)"
    using nth_map_field [OF n(2), of series_x ?u] assms(1)
    by (simp add: pipeline_runs updateSeriesText_frame unifyStage_x [of opts L ?ps ?d])
  have e: "error_y_array (?out ! n) = error_y_array (?u ! n)"
    using nth_map_field [OF n(2), of error_y_array ?u] assms(1)
    by (simp add: pipeline_runs updateSeriesText_frame unifyStage_err [of opts L ?ps ?d])
  have y: "(if stacking opts then series_y (preStack L sl opts ! n) else series_y (?out ! n))
           = series_y (?u ! n)"
  proof (cases "stacking opts")
    case True
    then show ?thesis by (simp add: preStack_def d_def)
  next
    case False
    have "map series_y ?out = map series_y ?u"
      using assms(1) False
      by (simp add: pipeline_runs updateSeriesText_frame unifyStage_def d_def)
    from nth_map_field [OF n(2) this] False show ?thesis by simp
  qed
  show ?thesis
    unfolding Let_def visible_updateData y x e sd
    using assms(3) by (simp add: un fill split: option.split)
qed

lemma stackSeries_None_hd:
  "ss \<noteq> [] \<Longrightarrow> stackSeries L None ss ! 0 = ss ! 0"
  by (cases ss) (simp_all add: Let_def)

lemma stackSeries_step:
  assumes "\<forall>s\<in>set ss. length (series_y s) = m"
    and "case p of None \<Rightarrow> True | Some q \<Rightarrow> length (series_y q) = m"
    and "Suc k < length ss" "i < m"
  shows "series_y (stackSeries L p ss ! Suc k) ! i =
         js_plus L (series_y (stackSeries L p ss ! k) ! i) (series_y (ss ! Suc k) ! i)"
  using assms
proof (induction ss arbitrary: p k)
  case Nil
  then show ?case by simp
next
  case (Cons s rest)
  define s' where "s' = (case p of None \<Rightarrow> s
      | Some prev \<Rightarrow> s\<lparr>series_y := map (\<lambda>(y, i). js_plus L (js_nth (series_y prev) i) y)
                             (zip (series_y s) [0..<length (series_y s)])\<rparr>)"
  have st: "stackSeries L p (s # rest) = s' # stackSeries L (Some s') rest"
    by (simp add: s'_def Let_def)
  have len: "length (series_y s') = m"
    using Cons.prems(1) by (simp add: s'_def split: option.split)
  obtain r rest' where rest: "rest = r # rest'"
    using Cons.prems(3) by (cases rest) auto
  define r' where "r' = r\<lparr>series_y := map (\<lambda>(y, i). js_plus L (js_nth (series_y s') i) y)
                             (zip (series_y r) [0..<length (series_y r)])\<rparr>"
  have st2: "stackSeries L (Some s') rest = r' # stackSeries L (Some r') rest'"
    by (simp add: rest r'_def Let_def)
  have lr: "length (series_y r) = m" using Cons.prems(1) by (simp add: rest)
  show ?case
  proof (cases k)
    case 0
    have "series_y r' ! i = js_plus L (series_y s' ! i) (series_y r ! i)"
      using Cons.prems(4) len lr by (simp add: r'_def js_nth_def)
    then show ?thesis
      by (simp only: 0 st st2 nth_Cons_Suc nth_Cons_0) (simp add: rest)
  next
    case (Suc k')
    have "series_y (stackSeries L (Some s') rest ! Suc k') ! i =
          js_plus L (series_y (stackSeries L (Some s') rest ! k') ! i) (series_y (rest ! Suc k') ! i)"
      using Cons.prems Suc len by (intro Cons.IH) simp_all
    then show ?thesis by (simp only: Suc st nth_Cons_Suc)
  qed
qed

lemma runs_stacking_family:
  "runsUnification opts \<Longrightarrow> stacking opts \<Longrightarrow>
   globalSeriesType opts = ''line'' \<or> globalSeriesType opts = ''area''"
  by (auto simp: runsUnification_def split: if_splits)

text \<open>
  C6. When the unification runs, every visible series gets the unified domain as its x
  array, and at every x of the domain: if the series has a point stored at x, the
  unification emits the y of the point (its percentage when percent values are on) and
  its \<^verbatim>\<open>yError\<close>; if it has none, it emits \<^verbatim>\<open>0\<close> when stacking and \<^verbatim>\<open>null\<close>
  otherwise for y, and \<^verbatim>\<open>null\<close> for the error. Without stacking the emitted y-values
  are the y array of the series after the transform. With stacking the transform
  accumulates them: the y array of the first visible series is the emitted one, and the
  y-value of every later series is the y-value of the series before it plus the emitted
  one.
\<close>

theorem unification_fill:
  assumes "runsUnification opts"
    and "n < length (filter series_visible sl)"
    and "i < length (getUnifiedXAxisValues (filter series_visible sl) (sortX opts))"
  shows
    "let unifiedX = getUnifiedXAxisValues (filter series_visible sl) (sortX opts);
         out = filter series_visible (updateData L sl opts);
         series = out ! n;
         emittedY = (if stacking opts then series_y (preStack L sl opts ! n) else series_y series)
     in series_x series = unifiedX \<and>
        length emittedY = length unifiedX \<and>
        length (error_y_array series) = length unifiedX \<and>
        (case map_of (sourceData series) (unifiedX ! i) of
           Some item \<Rightarrow>
             emittedY ! i = (if percentValues opts then item_yPercent item else item_y item) \<and>
             error_y_array series ! i = item_yError item
         | None \<Rightarrow>
             emittedY ! i = (if stacking opts then Num (Fin 0) else Null) \<and>
             error_y_array series ! i = Null) \<and>
        (stacking opts \<longrightarrow>
           map series_y out = map series_y (stackSeries L None (preStack L sl opts)) \<and>
           series_y series ! i =
             (if n = 0 then emittedY ! i
              else js_plus L (series_y (out ! (n - 1)) ! i) (emittedY ! i)))"
proof -
  let ?vs = "filter series_visible sl"
  let ?ux = "getUnifiedXAxisValues ?vs (sortX opts)"
  let ?out = "filter series_visible (updateData L sl opts)"
  let ?pre = "preStack L sl opts"
  let ?st = "stackSeries L None ?pre"
  note emitted = unification_emitted [OF assms, of L, unfolded Let_def]
  have stacked: "map series_y ?out = map series_y ?st \<and>
      series_y (?out ! n) ! i =
        (if n = 0 then series_y (?pre ! n) ! i
         else js_plus L (series_y (?out ! (n - 1)) ! i) (series_y (?pre ! n) ! i))"
    if st: "stacking opts"
  proof -
    have fam: "globalSeriesType opts = ''line'' \<or> globalSeriesType opts = ''area''"
      using assms(1) st by (rule runs_stacking_family)
    have eq: "map series_y ?out = map series_y ?st"
      unfolding visible_updateData using fam st by (rule pipeline_stacked_y)
    have lp: "length ?pre = length ?vs"
      by (simp add: preStack_def updateUnifiedXAxisValues_length updatePercentValues_length)
    have lo: "length ?out = length ?vs" by (simp add: visible_updateData pipeline_length)
    have ls: "length ?st = length ?vs" by (simp add: stackSeries_length lp)
    have all: "\<forall>s\<in>set ?pre. length (series_y s) = length ?ux"
      by (auto simp: preStack_def unified_percent dest: unified_y_length)
    have at: "series_y (?out ! k) = series_y (?st ! k)" if "k < length ?vs" for k
      using nth_map_field [of k ?out series_y ?st] eq lo that by simp
    have ne: "?pre \<noteq> []" using assms(2) lp by auto
    show ?thesis
    proof (cases n)
      case 0
      then show ?thesis using eq at [of 0] assms(2) stackSeries_None_hd [OF ne, of L] by simp
    next
      case (Suc k)
      have "series_y (?st ! Suc k) ! i =
            js_plus L (series_y (?st ! k) ! i) (series_y (?pre ! Suc k) ! i)"
        using all assms(2,3) Suc lp by (intro stackSeries_step) simp_all
      then show ?thesis using eq Suc at [of "Suc k"] at [of k] assms(2) by simp
    qed
  qed
  show ?thesis
    unfolding Let_def using emitted stacked by simp
qed

theorem unification_fill_witness:
  "runsUnification (ex_options ''line'' False False True) \<and>
   series_x (filter series_visible
     (updateData ex_lib ex_unify (ex_options ''line'' False False True)) ! 1) = [''a'', ''b''] \<and>
   series_y (filter series_visible
     (updateData ex_lib ex_unify (ex_options ''line'' False False True)) ! 1) ! 1 = Null \<and>
   error_y_array (filter series_visible
     (updateData ex_lib ex_unify (ex_options ''line'' False False True)) ! 1) ! 1 = Null \<and>
   runsUnification (ex_options ''line'' False True False) \<and>
   stacking (ex_options ''line'' False True False) \<and>
   series_x (filter series_visible
     (updateData ex_lib ex_gap (ex_options ''line'' False True False)) ! 0) = [''a'', ''b''] \<and>
   series_y (filter series_visible
     (updateData ex_lib ex_gap (ex_options ''line'' False True False)) ! 0) ! 1 = Num (Fin 0) \<and>
   error_y_array (filter series_visible
     (updateData ex_lib ex_gap (ex_options ''line'' False True False)) ! 0) ! 1 = Null"
proof -
  have plain: "runsUnification (ex_options ''line'' False False True) \<and>
   series_x (filter series_visible
     (updateData ex_lib ex_unify (ex_options ''line'' False False True)) ! 1) = [''a'', ''b''] \<and>
   series_y (filter series_visible
     (updateData ex_lib ex_unify (ex_options ''line'' False False True)) ! 1) ! 1 = Null \<and>
   error_y_array (filter series_visible
     (updateData ex_lib ex_unify (ex_options ''line'' False False True)) ! 1) ! 1 = Null"
  proof -
    let ?o = "ex_options ''line'' False False True"
    let ?vs = "filter series_visible ex_unify"
    let ?out = "filter series_visible (updateData ex_lib ex_unify ?o)"
    have vs: "?vs = ex_unify" by (simp add: ex_unify_def ex_series_def)
    have r: "runsUnification ?o"
      by (simp add: runsUnification_def ex_options_def useUnifiedXAxis_def)
    have ux: "getUnifiedXAxisValues ?vs (sortX ?o) = [''a'', ''b'']"
      unfolding vs
      by (simp add: getUnifiedXAxisValues_def ex_unify_def ex_series_def ex_point_def setAdd_def
          ex_options_def)
    have n: "1 < length ?vs" unfolding vs by (simp add: ex_unify_def)
    have i: "1 < length (getUnifiedXAxisValues ?vs (sortX ?o))" unfolding ux by simp
    have st: "\<not> stacking ?o" by (simp add: ex_options_def)
    have pv: "updatePercentValues ex_lib ?vs ?o = ?vs"
      by (simp add: updatePercentValues_def ex_options_def)
    have sd: "map sourceData ?out = map sourceData ?vs"
      by (simp add: visible_updateData pipeline_runs [OF r] updateSeriesText_frame
          unifyStage_frame pv)
    have "length ?out = length ?vs" using arg_cong [OF sd, of length] by simp
    with n have "sourceData (?out ! 1) = sourceData (?vs ! 1)"
      using nth_map_field [OF _ sd, of 1] by simp
    then have m: "map_of (sourceData (?out ! Suc 0)) ''b'' = None"
      unfolding vs by (simp add: ex_unify_def ex_series_def)
    from unification_fill [OF r n i, of ex_lib] r st show ?thesis
      unfolding Let_def ux by (simp add: m)
  qed
  have stacked: "runsUnification (ex_options ''line'' False True False) \<and>
   stacking (ex_options ''line'' False True False) \<and>
   series_x (filter series_visible
     (updateData ex_lib ex_gap (ex_options ''line'' False True False)) ! 0) = [''a'', ''b''] \<and>
   series_y (filter series_visible
     (updateData ex_lib ex_gap (ex_options ''line'' False True False)) ! 0) ! 1 = Num (Fin 0) \<and>
   error_y_array (filter series_visible
     (updateData ex_lib ex_gap (ex_options ''line'' False True False)) ! 0) ! 1 = Null"
  proof -
    let ?o = "ex_options ''line'' False True False"
    let ?vs = "filter series_visible ex_gap"
    let ?out = "filter series_visible (updateData ex_lib ex_gap ?o)"
    have vs: "?vs = ex_gap" by (simp add: ex_gap_def ex_series_def)
    have r: "runsUnification ?o"
      by (simp add: runsUnification_def ex_options_def)
    have st: "stacking ?o" by (simp add: ex_options_def)
    have ux: "getUnifiedXAxisValues ?vs (sortX ?o) = [''a'', ''b'']"
      unfolding vs
      by (simp add: getUnifiedXAxisValues_def ex_gap_def ex_series_def ex_point_def setAdd_def
          ex_options_def)
    have n: "0 < length ?vs" unfolding vs by (simp add: ex_gap_def)
    have i: "1 < length (getUnifiedXAxisValues ?vs (sortX ?o))" unfolding ux by simp
    have pv: "updatePercentValues ex_lib ?vs ?o = ?vs"
      by (simp add: updatePercentValues_def ex_options_def)
    have sd: "map sourceData ?out = map sourceData ?vs"
      by (simp add: visible_updateData pipeline_runs [OF r] updateSeriesText_frame
          unifyStage_frame pv)
    have "length ?out = length ?vs" using arg_cong [OF sd, of length] by simp
    with n have "sourceData (?out ! 0) = sourceData (?vs ! 0)"
      using nth_map_field [OF _ sd, of 0] by simp
    then have m: "map_of (sourceData (?out ! 0)) ''b'' = None"
      unfolding vs by (simp add: ex_gap_def ex_series_def)
    from unification_fill [OF r n i, of ex_lib] r st show ?thesis
      unfolding Let_def ux by (simp add: m)
  qed
  from plain stacked show ?thesis by (simp only:)
qed

section \<open>Percent values: a zero sum\<close>

lemma points_updateData:
  assumes "globalSeriesType opts \<noteq> ''pie''" "globalSeriesType opts \<noteq> ''heatmap''"
    and "percentValues opts"
  shows "points (filter series_visible (updateData L sl opts)) =
         map (setPercent L (sumOfCorrespondingPoints L (filter series_visible sl)))
           (points (filter series_visible sl))"
  using assms by (simp add: visible_updateData points_pipeline points_percent)

lemma pointsAt_updateData:
  assumes "globalSeriesType opts \<noteq> ''pie''" "globalSeriesType opts \<noteq> ''heatmap''"
    and "percentValues opts"
  shows "pointsAt xv (filter series_visible (updateData L sl opts)) =
         map (setPercent L (sumOfCorrespondingPoints L (filter series_visible sl)))
           (pointsAt xv (filter series_visible sl))"
  using assms
  by (simp add: pointsAt_def points_updateData filter_map comp_def setPercent_x)

lemma js_add_zero:
  assumes "js_add a b = Fin 0" "a \<noteq> NInf" "b \<noteq> NInf"
    and "\<forall>r. a = Fin r \<longrightarrow> 0 \<le> r" "\<forall>r. b = Fin r \<longrightarrow> 0 \<le> r"
  shows "a = Fin 0 \<and> b = Fin 0"
  using assms by (cases a; cases b) auto

lemma js_add_absLike:
  assumes "a \<noteq> NInf" "b \<noteq> NInf"
    and "\<forall>r. a = Fin r \<longrightarrow> 0 \<le> r" "\<forall>r. b = Fin r \<longrightarrow> 0 \<le> r"
  shows "js_add a b \<noteq> NInf \<and> (\<forall>r. js_add a b = Fin r \<longrightarrow> 0 \<le> r)"
  using assms by (cases a; cases b) auto

lemma fold_abs_zero:
  assumes "foldl js_add a ns = Fin 0"
    and "a \<noteq> NInf" "\<forall>r. a = Fin r \<longrightarrow> 0 \<le> r"
    and "\<forall>n\<in>set ns. n \<noteq> NInf \<and> (\<forall>r. n = Fin r \<longrightarrow> 0 \<le> r)"
  shows "a = Fin 0 \<and> (\<forall>n\<in>set ns. n = Fin 0)"
  using assms
proof (induction ns arbitrary: a)
  case Nil
  then show ?case by simp
next
  case (Cons n ns)
  have n: "n \<noteq> NInf" "\<forall>r. n = Fin r \<longrightarrow> 0 \<le> r" using Cons.prems(4) by simp_all
  have al: "js_add a n \<noteq> NInf \<and> (\<forall>r. js_add a n = Fin r \<longrightarrow> 0 \<le> r)"
    using js_add_absLike [OF Cons.prems(2) n(1) Cons.prems(3) n(2)] .
  have "js_add a n = Fin 0 \<and> (\<forall>n\<in>set ns. n = Fin 0)"
    using Cons.prems(1,4) al by (intro Cons.IH) simp_all
  moreover from this have "a = Fin 0 \<and> n = Fin 0"
    using js_add_zero [OF _ Cons.prems(2) n(1) Cons.prems(3) n(2)] by simp
  ultimately show ?case by simp
qed

lemma js_abs_absLike: "js_abs v \<noteq> NInf \<and> (\<forall>r. js_abs v = Fin r \<longrightarrow> 0 \<le> r)"
  by (cases v) auto

lemma js_abs_zero: "js_abs v = Fin 0 \<Longrightarrow> v = Fin 0"
  by (cases v) auto

lemma absSum_zero:
  assumes "absSumAt L xv sl = Fin 0" "item \<in> set (pointsAt xv sl)"
  shows "toNumber L (item_y item) = Fin 0"
proof -
  have "\<forall>n\<in>set (map (\<lambda>item. math_abs L (item_y item)) (pointsAt xv sl)). n = Fin 0"
    using assms(1) fold_abs_zero [of "Fin 0" "map (\<lambda>item. math_abs L (item_y item)) (pointsAt xv sl)"]
    by (auto simp: absSumAt_def js_sum_def math_abs_def js_abs_absLike)
  then have "math_abs L (item_y item) = Fin 0" using assms(2) by simp
  then show ?thesis by (simp add: math_abs_def js_abs_zero)
qed

lemma orZero_zero_div:
  assumes "orZero e = Fin 0"
  shows "js_div (Fin 0) (toNumber L (case e of None \<Rightarrow> Undefined | Some v \<Rightarrow> Num v)) = NaN"
  using assms by (cases e) (auto simp: orZero_def split: if_splits)

text \<open>
  C9. With percent values on (for the families that compute them: all but pie and
  heatmap), a point at an x-value where the absolute y-values of the visible series sum
  to zero gets \<^verbatim>\<open>NaN\<close> as its \<^verbatim>\<open>yPercent\<close>: the division is not guarded, the value
  is a number that is not finite, and the transform returns the whole series list.
\<close>

theorem zero_sum_percent:
  assumes "percentValues opts"
    and "globalSeriesType opts \<noteq> ''pie''" "globalSeriesType opts \<noteq> ''heatmap''"
    and "item \<in> set (points (filter series_visible (updateData L sl opts)))"
    and "absSumAt L (item_x item) (filter series_visible sl) = Fin 0"
  shows "item_yPercent item = Num NaN \<and>
         \<not> isFinite (toNumber L (item_yPercent item)) \<and>
         length (updateData L sl opts) = length sl"
proof -
  let ?vs = "filter series_visible sl"
  let ?sm = "sumOfCorrespondingPoints L ?vs"
  obtain p where p: "p \<in> set (points ?vs)" "item = setPercent L ?sm p"
    using assms(4) by (auto simp: points_updateData [OF assms(2,3,1)])
  have x: "item_x item = item_x p" by (simp add: p(2) setPercent_x)
  have at: "p \<in> set (pointsAt (item_x p) ?vs)" using p(1) by (simp add: pointsAt_def)
  have zero: "\<forall>q\<in>set (pointsAt (item_x p) ?vs). toNumber L (item_y q) = Fin 0"
    using assms(5) unfolding x by (auto dest: absSum_zero)
  have fin: "\<forall>q\<in>set (points ?vs). item_x q = item_x p \<longrightarrow> isFinite (toNumber L (item_y q))"
    using zero by (simp add: pointsAt_def)
  have "map (\<lambda>q. \<bar>finVal (toNumber L (item_y q))\<bar>) (pointsAt (item_x p) ?vs) =
        map (\<lambda>q. 0) (pointsAt (item_x p) ?vs)"
    using zero by (intro map_cong) auto
  then have "(\<Sum>q\<leftarrow>pointsAt (item_x p) ?vs. \<bar>finVal (toNumber L (item_y q))\<bar>) =
             (\<Sum>q\<leftarrow>pointsAt (item_x p) ?vs. 0)"
    by (simp only:)
  then have "(\<Sum>q\<leftarrow>filter (\<lambda>q. item_x q = item_x p) (points ?vs). \<bar>finVal (toNumber L (item_y q))\<bar>) = 0"
    by (simp add: pointsAt_def)
  then have "orZero (?sm (item_x p)) = Fin 0"
    using fold_addPoint_finite [OF fin, of Map.empty 0]
    by (simp add: sums_points orZero_def)
  then have "item_yPercent item = Num NaN"
    using at zero orZero_zero_div [of "?sm (item_x p)" L]
    by (simp add: p(2) setPercent_yPercent)
  then show ?thesis by (simp add: updateData_length)
qed

theorem zero_sum_percent_witness:
  "percentValues (ex_options ''column'' True False False) \<and>
   absSumAt ex_lib ''a'' (filter series_visible ex_zero) = Fin 0 \<and>
   map item_yPercent (points (filter series_visible
     (updateData ex_lib ex_zero (ex_options ''column'' True False False)))) = [Num NaN, Num NaN]"
proof -
  let ?o = "ex_options ''column'' True False False"
  let ?vs = "filter series_visible ex_zero"
  let ?out = "filter series_visible (updateData ex_lib ex_zero ?o)"
  let ?sm = "sumOfCorrespondingPoints ex_lib ?vs"
  have o: "percentValues ?o" "globalSeriesType ?o \<noteq> ''pie''" "globalSeriesType ?o \<noteq> ''heatmap''"
    by (simp_all add: ex_options_def)
  have pts: "points ?vs = [ex_point ''a'' (Num (Fin 0)), ex_point ''a'' Null]"
    by (simp add: ex_zero_def ex_series_def points_def)
  have out: "points ?out = [setPercent ex_lib ?sm (ex_point ''a'' (Num (Fin 0))),
                            setPercent ex_lib ?sm (ex_point ''a'' Null)]"
    by (simp add: points_updateData [OF o(2,3,1)] pts)
  have s: "absSumAt ex_lib ''a'' ?vs = Fin 0"
    by (simp add: absSumAt_def pointsAt_def pts ex_point_def js_sum_def math_abs_def)
  have x: "item_x (setPercent ex_lib ?sm (ex_point ''a'' v)) = ''a''" for v
    by (simp add: setPercent_x ex_point_def)
  have "item_yPercent (setPercent ex_lib ?sm (ex_point ''a'' (Num (Fin 0)))) = Num NaN"
    using zero_sum_percent [OF o, of "setPercent ex_lib ?sm (ex_point ''a'' (Num (Fin 0)))" ex_lib ex_zero]
    by (simp add: out x s)
  moreover have "item_yPercent (setPercent ex_lib ?sm (ex_point ''a'' Null)) = Num NaN"
    using zero_sum_percent [OF o, of "setPercent ex_lib ?sm (ex_point ''a'' Null)" ex_lib ex_zero]
    by (simp add: out x s)
  ultimately show ?thesis using o(1) s by (simp add: out)
qed

section \<open>Percent values: the sum of the shares\<close>

lemma orZero_nonzero:
  assumes "orZero e = Fin s" "s \<noteq> 0"
  shows "e = Some (Fin s)"
  using assms by (cases e) (auto simp: orZero_def split: if_splits)

lemma abs_of_finite:
  "isFinite (toNumber L v) \<Longrightarrow> math_abs L v = Fin \<bar>finVal (toNumber L v)\<bar>"
  by (cases "toNumber L v") (simp_all add: math_abs_def)

lemma nonNegative_finVal: "nonNegative n \<Longrightarrow> 0 \<le> finVal n"
  by (cases n) simp_all

lemma js_sum_Fin: "js_sum (map (\<lambda>q. Fin (f q)) ps) = Fin (\<Sum>q\<leftarrow>ps. f q)"
  using js_sum_finite [of "map (\<lambda>q. Fin (f q)) ps" 0] by (simp add: js_sum_def comp_def)

section \<open>Rounded arithmetic: the exact instance and the frame of the passes\<close>

lemma fl_add_exact: "fl_add Fin a b = js_add a b"
  by (cases a; cases b) simp_all

lemma fl_div_exact: "fl_div Fin a b = js_div a b"
  by (cases a; cases b) simp_all

lemma fl_mul_exact: "fl_mul Fin a b = js_mul a b"
  by (cases a; cases b) simp_all

lemma fl_plus_exact: "fl_plus Fin L a b = js_plus L a b"
  by (cases a; cases b) (simp_all add: fl_add_exact)

lemma addPointFl_exact: "addPointFl Fin L = addPoint L"
  by (intro ext) (simp add: addPointFl_def addPoint_def fl_add_exact)

lemma setPercentFl_exact: "setPercentFl Fin L = setPercent L"
  by (intro ext) (simp add: setPercentFl_def setPercent_def fl_div_exact fl_mul_exact)

lemma updatePercentValuesFl_exact: "updatePercentValuesFl Fin L ss opts = updatePercentValues L ss opts"
  by (simp add: updatePercentValuesFl_def updatePercentValues_def sumOfCorrespondingPointsFl_def
      sumOfCorrespondingPoints_def addPointFl_exact setPercentFl_exact)

lemma stackSeriesFl_exact: "stackSeriesFl Fin L p ss = stackSeries L p ss"
  by (induction ss arbitrary: p) (auto simp: fl_plus_exact Let_def split: option.splits)

lemma updateDataFl_exact: "updateDataFl Fin L sl opts = updateData L sl opts"
  by (simp add: updateDataFl_def updateData_def updateLineAreaDataFl_def updateLineAreaData_def
      updateDefaultDataFl_def updateDefaultData_def updatePercentValuesFl_exact stackSeriesFl_exact
      Let_def)

lemma stackSeriesFl_frame:
  assumes "\<And>s ys. f (s\<lparr>series_y := ys\<rparr>) = f s"
  shows "map f (stackSeriesFl rnd L p ss) = map f ss"
  using assms by (induction ss arbitrary: p) (auto simp: Let_def split: option.splits)

lemma updatePercentValuesFl_frame:
  assumes "\<And>s d ys. f (s\<lparr>sourceData := d, series_y := ys\<rparr>) = f s"
  shows "map f (updatePercentValuesFl rnd L ss opts) = map f ss"
  using assms by (simp add: updatePercentValuesFl_def Let_def)

lemma setPercentFl_x: "item_x (setPercentFl rnd L sm item) = item_x item"
  by (simp add: setPercentFl_def Let_def)

lemma points_percentFl:
  "percentValues opts \<Longrightarrow>
   points (updatePercentValuesFl rnd L ss opts) =
     map (setPercentFl rnd L (sumOfCorrespondingPointsFl rnd L ss)) (points ss)"
  by (simp add: updatePercentValuesFl_def Let_def points_map_sourceData)

lemma sums_pointsFl:
  "sumOfCorrespondingPointsFl rnd L sl = foldl (addPointFl rnd L) Map.empty (points sl)"
  by (simp add: sumOfCorrespondingPointsFl_def foldl_series_points)

lemma visible_updateDataFl:
  assumes "globalSeriesType opts \<noteq> ''pie''" "globalSeriesType opts \<noteq> ''heatmap''"
  shows "map sourceData (filter series_visible (updateDataFl rnd L sl opts)) =
         map sourceData (updatePercentValuesFl rnd L (filter series_visible sl) opts)"
proof (cases "filter series_visible sl")
  case Nil
  then show ?thesis by (simp add: updateDataFl_def updatePercentValuesFl_def)
next
  case (Cons v vs)
  let ?vs = "filter series_visible sl"
  let ?P = "if globalSeriesType opts = ''line'' \<or> globalSeriesType opts = ''area''
            then updateLineAreaDataFl rnd L ?vs opts else updateDefaultDataFl rnd L ?vs opts"
  have upd: "updateDataFl rnd L sl opts = writeBack sl ?P"
    using Cons assms by (simp add: updateDataFl_def)
  have vis: "map series_visible ?P = map series_visible ?vs"
    by (simp add: updateLineAreaDataFl_def updateDefaultDataFl_def Let_def updateSeriesText_frame
        stackSeriesFl_frame updateUnifiedXAxisValues_frame updatePercentValuesFl_frame)
  have src: "map sourceData ?P = map sourceData (updatePercentValuesFl rnd L ?vs opts)"
    by (simp add: updateLineAreaDataFl_def updateDefaultDataFl_def Let_def updateSeriesText_frame
        stackSeriesFl_frame updateUnifiedXAxisValues_frame)
  have "filter series_visible (writeBack sl ?P) = ?P"
    using vis by (rule filter_writeBack)
  then show ?thesis by (simp only: upd src)
qed

lemma pointsAt_updateDataFl:
  assumes "globalSeriesType opts \<noteq> ''pie''" "globalSeriesType opts \<noteq> ''heatmap''"
    and "percentValues opts"
  shows "pointsAt xv (filter series_visible (updateDataFl rnd L sl opts)) =
         map (setPercentFl rnd L (sumOfCorrespondingPointsFl rnd L (filter series_visible sl)))
           (pointsAt xv (filter series_visible sl))"
proof -
  have "points (filter series_visible (updateDataFl rnd L sl opts)) =
        points (updatePercentValuesFl rnd L (filter series_visible sl) opts)"
    using assms(1,2) by (intro points_cong visible_updateDataFl)
  then show ?thesis
    using assms(3) by (simp add: pointsAt_def points_percentFl filter_map comp_def setPercentFl_x)
qed

section \<open>Rounded arithmetic: the error of the percent values\<close>

lemma accurateD:
  assumes "accurate rnd u lo hi" "0 \<le> u" "u \<le> 1" "x = 0 \<or> (lo \<le> \<bar>x\<bar> \<and> \<bar>x\<bar> \<le> hi)"
  obtains c where "rnd x = Fin c" "(1 - u) * \<bar>x\<bar> \<le> \<bar>c\<bar>" "\<bar>c\<bar> \<le> (1 + u) * \<bar>x\<bar>"
    "0 \<le> x \<longrightarrow> 0 \<le> c" "x \<le> 0 \<longrightarrow> c \<le> 0"
proof -
  from assms(1,4) obtain c where c: "rnd x = Fin c" "\<bar>c - x\<bar> \<le> u * \<bar>x\<bar>"
    unfolding accurate_def by blast
  define w where "w = u * \<bar>x\<bar>"
  have w: "0 \<le> w" "w \<le> \<bar>x\<bar>" "\<bar>c - x\<bar> \<le> w"
    using assms(2,3) c(2) by (simp_all add: w_def mult_left_le_one_le)
  have e: "(1 - u) * \<bar>x\<bar> = \<bar>x\<bar> - w" "(1 + u) * \<bar>x\<bar> = \<bar>x\<bar> + w"
    by (simp_all add: w_def algebra_simps)
  show thesis
  proof (rule that [OF c(1)])
    show "(1 - u) * \<bar>x\<bar> \<le> \<bar>c\<bar>" unfolding e using w by linarith
    show "\<bar>c\<bar> \<le> (1 + u) * \<bar>x\<bar>" unfolding e using w by linarith
    show "0 \<le> x \<longrightarrow> 0 \<le> c" using w by linarith
    show "x \<le> 0 \<longrightarrow> c \<le> 0" using w by linarith
  qed
qed

lemma addPointFl_other: "item_x item \<noteq> xv \<Longrightarrow> addPointFl rnd L m item xv = m xv"
  by (simp add: addPointFl_def Let_def)

lemma addPointFl_same:
  "addPointFl rnd L m item (item_x item) =
     Some (fl_add rnd (orZero (m (item_x item))) (math_abs L (item_y item)))"
  by (simp add: addPointFl_def Let_def)

lemma fold_addPointFl_bounds:
  fixes u lo hi a t :: real
  assumes acc: "accurate rnd u lo hi" and u: "0 \<le> u" "u \<le> 1"
    and fin: "\<forall>item\<in>set ps. item_x item = xv \<longrightarrow> isFinite (toNumber L (item_y item))"
    and small: "\<forall>item\<in>set ps. item_x item = xv \<longrightarrow>
                  finVal (toNumber L (item_y item)) = 0 \<or>
                  lo \<le> (1 - u) ^ N * \<bar>finVal (toNumber L (item_y item))\<bar>"
    and m: "orZero (m xv) = Fin a"
    and a: "(1 - u) ^ j * t \<le> a" "a \<le> (1 + u) ^ j * t" "0 \<le> t"
    and t: "t = 0 \<or> lo \<le> (1 - u) ^ N * t"
    and N: "j + length (filter (\<lambda>item. item_x item = xv) ps) \<le> N"
    and hi: "(1 + u) ^ N * (t + (\<Sum>item\<leftarrow>filter (\<lambda>item. item_x item = xv) ps.
                                   \<bar>finVal (toNumber L (item_y item))\<bar>)) \<le> hi"
  shows "\<exists>s. orZero (foldl (addPointFl rnd L) m ps xv) = Fin s \<and>
           (1 - u) ^ (j + length (filter (\<lambda>item. item_x item = xv) ps)) *
             (t + (\<Sum>item\<leftarrow>filter (\<lambda>item. item_x item = xv) ps.
                     \<bar>finVal (toNumber L (item_y item))\<bar>)) \<le> s \<and>
           s \<le> (1 + u) ^ (j + length (filter (\<lambda>item. item_x item = xv) ps)) *
             (t + (\<Sum>item\<leftarrow>filter (\<lambda>item. item_x item = xv) ps.
                     \<bar>finVal (toNumber L (item_y item))\<bar>))"
  using fin small m a t N hi
proof (induction ps arbitrary: m a t j)
  case Nil
  then show ?case by simp
next
  case (Cons p ps)
  let ?at = "\<lambda>item. item_x item = xv"
  let ?v = "\<lambda>item. \<bar>finVal (toNumber L (item_y item))\<bar>"
  define S' where "S' = (\<Sum>item\<leftarrow>filter ?at ps. ?v item)"
  have S'0: "0 \<le> S'" unfolding S'_def by (rule sum_list_nonneg) auto
  have fin': "\<forall>item\<in>set ps. ?at item \<longrightarrow> isFinite (toNumber L (item_y item))"
    using Cons.prems(1) by simp
  have small': "\<forall>item\<in>set ps. ?at item \<longrightarrow>
                  finVal (toNumber L (item_y item)) = 0 \<or> lo \<le> (1 - u) ^ N * ?v item"
    using Cons.prems(2) by simp
  show ?case
  proof (cases "item_x p = xv")
    case False
    then have step: "orZero (addPointFl rnd L m p xv) = Fin a"
      using Cons.prems(3) by (simp add: addPointFl_other)
    from Cons.IH [of "addPointFl rnd L m p" a j t, OF fin' small' step Cons.prems(4,5,6,7)]
      Cons.prems(8,9) False
    show ?thesis by simp
  next
    case True
    then have "isFinite (toNumber L (item_y p))" using Cons.prems(1) by simp
    then obtain r where r: "toNumber L (item_y p) = Fin r"
      by (cases "toNumber L (item_y p)") auto
    define al where "al = (1 - u) ^ j"
    define be where "be = (1 + u) ^ j"
    define aN where "aN = (1 - u) ^ N"
    define bN where "bN = (1 + u) ^ N"
    define t' where "t' = t + \<bar>r\<bar>"
    define x where "x = a + \<bar>r\<bar>"
    have jN: "Suc j + length (filter ?at ps) \<le> N" "j \<le> N" using Cons.prems(8) True by simp_all
    have al: "0 \<le> al" "al \<le> 1" "aN \<le> al" "0 \<le> aN"
      using u jN(2) by (simp_all add: al_def aN_def power_le_one power_decreasing)
    have be: "1 \<le> be" "be \<le> bN"
      using u jN(2) by (simp_all add: be_def bN_def one_le_power power_increasing)
    have t'0: "0 \<le> t'" using Cons.prems(6) by (simp add: t'_def)
    have lowx: "al * t' \<le> x"
    proof -
      have "al * \<bar>r\<bar> \<le> \<bar>r\<bar>" using al by (simp add: mult_left_le_one_le)
      moreover have "al * t \<le> a" using Cons.prems(4) by (simp add: al_def)
      ultimately show ?thesis by (simp add: t'_def x_def algebra_simps)
    qed
    have upx: "x \<le> be * t'"
    proof -
      have "\<bar>r\<bar> \<le> be * \<bar>r\<bar>" using be by (simp add: mult_le_cancel_right1)
      moreover have "a \<le> be * t" using Cons.prems(5) by (simp add: be_def)
      ultimately show ?thesis by (simp add: t'_def x_def algebra_simps)
    qed
    have x0: "0 \<le> x" using lowx al(1) t'0 mult_nonneg_nonneg [of al t'] by linarith
    have hi': "bN * (t' + S') \<le> hi"
      using Cons.prems(9) True r by (simp add: bN_def t'_def S'_def add.assoc)
    have "be * t' \<le> bN * (t' + S')"
      using be t'0 S'0 by (intro mult_mono) simp_all
    then have xhi: "x \<le> hi" using upx hi' by linarith
    have tlo: "t' = 0 \<or> lo \<le> aN * t'"
    proof (cases "t' = 0")
      case True
      then show ?thesis by simp
    next
      case nz: False
      have "lo \<le> aN * t'"
      proof (cases "t = 0")
        case True
        then have "r \<noteq> 0" using nz by (simp add: t'_def)
        then have "lo \<le> aN * \<bar>r\<bar>" using Cons.prems(2) \<open>item_x p = xv\<close> r by (simp add: aN_def)
        moreover have "aN * \<bar>r\<bar> \<le> aN * t'" using al(4) Cons.prems(6)
          by (intro mult_left_mono) (simp_all add: t'_def)
        ultimately show ?thesis by linarith
      next
        case False
        then have "lo \<le> aN * t" using Cons.prems(7) by (simp add: aN_def)
        moreover have "aN * t \<le> aN * t'" using al(4)
          by (intro mult_left_mono) (simp_all add: t'_def)
        ultimately show ?thesis by linarith
      qed
      then show ?thesis by simp
    qed
    have range: "x = 0 \<or> (lo \<le> \<bar>x\<bar> \<and> \<bar>x\<bar> \<le> hi)"
    proof (cases "t' = 0")
      case True
      then have "t = 0" "r = 0" using Cons.prems(6) by (simp_all add: t'_def)
      then have "x = 0" using upx x0 True by simp
      then show ?thesis by simp
    next
      case False
      then have "lo \<le> aN * t'" using tlo by simp
      moreover have "aN * t' \<le> al * t'" using al(3) t'0 by (intro mult_right_mono)
      ultimately have "lo \<le> x" using lowx by linarith
      then show ?thesis using x0 xhi by simp
    qed
    from accurateD [OF acc u range] obtain c where
      c: "rnd x = Fin c" "(1 - u) * \<bar>x\<bar> \<le> \<bar>c\<bar>" "\<bar>c\<bar> \<le> (1 + u) * \<bar>x\<bar>" "0 \<le> x \<longrightarrow> 0 \<le> c"
      by blast
    have c0: "0 \<le> c" using c(4) x0 by simp
    have step: "orZero (addPointFl rnd L m p xv) = Fin c"
      using True Cons.prems(3) addPointFl_same [of rnd L m p]
      by (simp add: math_abs_def r orZero_Fin c(1) [unfolded x_def])
    have low': "(1 - u) ^ Suc j * t' \<le> c"
    proof -
      have "(1 - u) * (al * t') \<le> (1 - u) * x" using lowx u by (intro mult_left_mono) simp_all
      then show ?thesis using c(2) x0 c0 by (simp add: al_def mult.assoc)
    qed
    have up': "c \<le> (1 + u) ^ Suc j * t'"
    proof -
      have "(1 + u) * x \<le> (1 + u) * (be * t')" using upx u by (intro mult_left_mono) simp_all
      then show ?thesis using c(3) x0 c0 by (simp add: be_def mult.assoc)
    qed
    have tlo': "t' = 0 \<or> lo \<le> (1 - u) ^ N * t'" using tlo by (simp add: aN_def)
    have hi'': "(1 + u) ^ N * (t' + (\<Sum>item\<leftarrow>filter ?at ps. ?v item)) \<le> hi"
      using hi' by (simp add: bN_def S'_def)
    from Cons.IH [of "addPointFl rnd L m p" c "Suc j" t', OF fin' small' step low' up' t'0 tlo' jN(1) hi'']
      True r
    show ?thesis by (simp add: t'_def add.assoc)
  qed
qed

lemma percent_bounds:
  fixes u lo hi r S :: real
  assumes acc: "accurate rnd u lo hi" and u: "0 \<le> u" "u \<le> 1 / 2"
    and S: "0 < S"
    and range: "r = 0 \<or> (lo \<le> \<bar>r\<bar> / S \<and> 100 * (1 + u) * (\<bar>r\<bar> / S) \<le> hi)"
  shows "\<exists>p. fl_mul rnd (fl_div rnd (Fin r) (Fin S)) (Fin 100) = Fin p \<and>
             (1 - u)\<^sup>2 * (100 * (\<bar>r\<bar> / S)) \<le> \<bar>p\<bar> \<and> \<bar>p\<bar> \<le> (1 + u)\<^sup>2 * (100 * (\<bar>r\<bar> / S)) \<and>
             (0 \<le> r \<longrightarrow> 0 \<le> p)"
proof -
  define q where "q = \<bar>r\<bar> / S"
  have q0: "0 \<le> q" using S by (simp add: q_def)
  have u1: "u \<le> 1" using u by simp
  have absx: "\<bar>r / S\<bar> = q" using S by (simp add: q_def)
  have r1: "r / S = 0 \<or> (lo \<le> \<bar>r / S\<bar> \<and> \<bar>r / S\<bar> \<le> hi)"
  proof (cases "r = 0")
    case True
    then show ?thesis by simp
  next
    case False
    then have h: "lo \<le> q" "100 * (1 + u) * q \<le> hi" using range by (simp_all add: q_def)
    have "1 * q \<le> (100 * (1 + u)) * q" using u q0 by (intro mult_right_mono) simp_all
    then show ?thesis using h absx by simp
  qed
  from accurateD [OF acc u(1) u1 r1] obtain d where
    d: "rnd (r / S) = Fin d" "(1 - u) * \<bar>r / S\<bar> \<le> \<bar>d\<bar>" "\<bar>d\<bar> \<le> (1 + u) * \<bar>r / S\<bar>"
       "0 \<le> r / S \<longrightarrow> 0 \<le> d"
    by blast
  have dl: "(1 - u) * q \<le> \<bar>d\<bar>" and du: "\<bar>d\<bar> \<le> (1 + u) * q"
    using d(2,3) [unfolded absx] by blast+
  have absx2: "\<bar>d * 100\<bar> = 100 * \<bar>d\<bar>" by (simp add: abs_mult)
  have r2: "d * 100 = 0 \<or> (lo \<le> \<bar>d * 100\<bar> \<and> \<bar>d * 100\<bar> \<le> hi)"
  proof (cases "r = 0")
    case True
    then have "q = 0" by (simp add: q_def)
    then have "d = 0" using du by simp
    then show ?thesis by simp
  next
    case False
    then have h: "lo \<le> q" "100 * (1 + u) * q \<le> hi" using range by (simp_all add: q_def)
    have "(1 / 2) * q \<le> (1 - u) * q" using u q0 by (intro mult_right_mono) simp_all
    then have "q \<le> 100 * \<bar>d\<bar>" using dl q0 by linarith
    moreover have "100 * \<bar>d\<bar> \<le> 100 * ((1 + u) * q)" using du by simp
    moreover have "100 * ((1 + u) * q) = 100 * (1 + u) * q" by simp
    ultimately have "lo \<le> 100 * \<bar>d\<bar> \<and> 100 * \<bar>d\<bar> \<le> hi" using h by linarith
    then show ?thesis by (simp only: absx2) simp
  qed
  from accurateD [OF acc u(1) u1 r2] obtain p where
    p: "rnd (d * 100) = Fin p" "(1 - u) * \<bar>d * 100\<bar> \<le> \<bar>p\<bar>" "\<bar>p\<bar> \<le> (1 + u) * \<bar>d * 100\<bar>"
       "0 \<le> d * 100 \<longrightarrow> 0 \<le> p"
    by blast
  have val: "fl_mul rnd (fl_div rnd (Fin r) (Fin S)) (Fin 100) = Fin p"
    using S by (simp add: d(1) p(1))
  have low: "(1 - u)\<^sup>2 * (100 * q) \<le> \<bar>p\<bar>"
  proof -
    have "(1 - u) * (100 * ((1 - u) * q)) \<le> (1 - u) * (100 * \<bar>d\<bar>)"
      using dl u by (intro mult_left_mono) simp_all
    then show ?thesis using p(2) absx2 by (simp add: power2_eq_square algebra_simps)
  qed
  have up: "\<bar>p\<bar> \<le> (1 + u)\<^sup>2 * (100 * q)"
  proof -
    have "(1 + u) * (100 * \<bar>d\<bar>) \<le> (1 + u) * (100 * ((1 + u) * q))"
      using du u by (intro mult_left_mono) simp_all
    then show ?thesis using p(3) absx2 by (simp add: power2_eq_square algebra_simps)
  qed
  have sgn: "0 \<le> r \<longrightarrow> 0 \<le> p" using d(4) p(4) S by simp
  from val low up sgn show ?thesis unfolding q_def by blast
qed

lemma abs_le_sum_list:
  fixes f :: "'a \<Rightarrow> real"
  shows "q \<in> set ps \<Longrightarrow> \<bar>f q\<bar> \<le> (\<Sum>x\<leftarrow>ps. \<bar>f x\<bar>)"
proof (induction ps)
  case Nil
  then show ?case by simp
next
  case (Cons p ps)
  have "0 \<le> (\<Sum>x\<leftarrow>ps. \<bar>f x\<bar>)" by (rule sum_list_nonneg) auto
  with Cons show ?case by auto
qed

lemma ex_rnd_accurate: "accurate ex_rnd (1 / 128) (1 / 16) 1000000"
  unfolding accurate_def
proof (intro allI impI)
  fix x :: real
  assume range: "x = 0 \<or> (1 / 16 \<le> \<bar>x\<bar> \<and> \<bar>x\<bar> \<le> 1000000)"
  define k where "k = \<lfloor>x * 1024 + 1 / 2\<rfloor>"
  have k: "of_int k \<le> x * 1024 + 1 / 2" "x * 1024 + 1 / 2 < of_int k + 1"
    unfolding k_def by linarith+
  have "\<bar>x\<bar> \<le> 1000000" using range by auto
  then have "\<not> 1000000 < x" "\<not> x < - 1000000" by linarith+
  then have val: "ex_rnd x = Fin (of_int k / 1024)" by (simp add: ex_rnd_def k_def)
  have "\<bar>of_int k / 1024 - x\<bar> \<le> 1 / 128 * \<bar>x\<bar>"
  proof (cases "x = 0")
    case True
    then have "k = 0" by (simp add: k_def)
    with True show ?thesis by simp
  next
    case False
    then have "1 / 16 \<le> \<bar>x\<bar>" using range by simp
    then show ?thesis using k by linarith
  qed
  with val show "\<exists>c. ex_rnd x = Fin c \<and> \<bar>c - x\<bar> \<le> 1 / 128 * \<bar>x\<bar>" by blast
qed

text \<open>
  C1, as the code has it, on rounded arithmetic. Let the rounding have a relative error
  of at most \<^verbatim>\<open>u\<close> for an exact result that is zero or between \<^verbatim>\<open>lo\<close> and \<^verbatim>\<open>hi\<close> in
  absolute value (for doubles: \<^verbatim>\<open>2^-53\<close>, the smallest normal and the largest double).
  With percent values on (for the families that compute them: all but pie and heatmap),
  take an x-value where the visible series have \<^verbatim>\<open>n\<close> points, with finite y-values
  whose absolute values have the exact sum \<^verbatim>\<open>T\<close>, not zero. If no operation overflows
  (\<^verbatim>\<open>(1+u)^n T\<close> is at most \<^verbatim>\<open>hi\<close>, and \<^verbatim>\<open>100 (1+u)\<close> at most \<^verbatim>\<open>hi (1-u)^n\<close>) and
  none underflows (every y-value that is not zero has an absolute value of at least
  \<^verbatim>\<open>lo / (1-u)^n\<close> and of at least \<^verbatim>\<open>lo (1+u)^n T\<close>), then every \<^verbatim>\<open>yPercent\<close> at that
  x is finite and the absolute values of \<^verbatim>\<open>yPercent\<close> over the visible series that have
  a point there sum to 100 within the tolerance of the rounding: their sum lies between
  \<^verbatim>\<open>100 (1-u)^2 / (1+u)^n\<close> and \<^verbatim>\<open>100 (1+u)^2 / (1-u)^n\<close>. So does the sum of the values
  of \<^verbatim>\<open>yPercent\<close> themselves when none of these y-values is negative.
\<close>

theorem percent_sum_tolerance:
  fixes u lo hi T :: real and sl :: "('x::linorder) series list"
  assumes "percentValues opts"
    and "globalSeriesType opts \<noteq> ''pie''" "globalSeriesType opts \<noteq> ''heatmap''"
    and "accurate rnd u lo hi" and "0 \<le> u" "u \<le> 1 / 2"
    and "n = length (pointsAt xv (filter series_visible sl))"
    and "\<forall>item\<in>set (pointsAt xv (filter series_visible sl)). isFinite (toNumber L (item_y item))"
    and "absSumAt L xv (filter series_visible sl) = Fin T" "T \<noteq> 0"
    and "(1 + u) ^ n * T \<le> hi" "100 * (1 + u) \<le> hi * (1 - u) ^ n"
    and "\<forall>item\<in>set (pointsAt xv (filter series_visible sl)).
           toNumber L (item_y item) = Fin 0 \<or>
           (lo \<le> (1 - u) ^ n * \<bar>finVal (toNumber L (item_y item))\<bar> \<and>
            lo * ((1 + u) ^ n * T) \<le> \<bar>finVal (toNumber L (item_y item))\<bar>)"
  shows "(\<forall>item\<in>set (pointsAt xv (filter series_visible (updateDataFl rnd L sl opts))).
            isFinite (toNumber L (item_yPercent item))) \<and>
         finiteBetween (percentAbsSumAt L xv (filter series_visible (updateDataFl rnd L sl opts)))
           (100 * (1 - u)\<^sup>2 / (1 + u) ^ n) (100 * (1 + u)\<^sup>2 / (1 - u) ^ n) \<and>
         ((\<forall>item\<in>set (pointsAt xv (filter series_visible sl)). nonNegative (toNumber L (item_y item)))
          \<longrightarrow> finiteBetween (percentSumAt L xv (filter series_visible (updateDataFl rnd L sl opts)))
                (100 * (1 - u)\<^sup>2 / (1 + u) ^ n) (100 * (1 + u)\<^sup>2 / (1 - u) ^ n))"
proof -
  let ?vs = "filter series_visible sl"
  let ?sm = "sumOfCorrespondingPointsFl rnd L ?vs"
  let ?ps = "pointsAt xv ?vs"
  let ?r = "\<lambda>q. finVal (toNumber L (item_y q))"
  let ?out = "filter series_visible (updateDataFl rnd L sl opts)"
  note pv = assms(1) and gst = assms(2,3) and acc = assms(4) and u = assms(5,6) and n = assms(7)
    and fin0 = assms(8) and T = assms(9,10) and over = assms(11,12) and under = assms(13)
  define aN where "aN = (1 - u) ^ n"
  define bN where "bN = (1 + u) ^ n"
  have u1: "u \<le> 1" using u by simp
  have aN: "0 < aN" using u by (simp add: aN_def)
  have bN: "0 < bN" using u by (simp add: bN_def)
  have fin: "isFinite (toNumber L (item_y q))" if "q \<in> set ?ps" for q
    using fin0 that by simp
  have val: "toNumber L (item_y q) = Fin (?r q)" if "q \<in> set ?ps" for q
    using fin [OF that] by (cases "toNumber L (item_y q)") simp_all
  have "map (\<lambda>q. math_abs L (item_y q)) ?ps = map (\<lambda>q. Fin \<bar>?r q\<bar>) ?ps"
    by (intro map_cong) (auto simp: abs_of_finite fin)
  then have "absSumAt L xv ?vs = Fin (\<Sum>q\<leftarrow>?ps. \<bar>?r q\<bar>)"
    by (simp only: absSumAt_def js_sum_Fin)
  then have Tsum: "T = (\<Sum>q\<leftarrow>?ps. \<bar>?r q\<bar>)" using T(1) by simp
  have "0 \<le> T" unfolding Tsum by (rule sum_list_nonneg) auto
  then have Tpos: "0 < T" using T(2) by simp
  have le_T: "\<bar>?r q\<bar> \<le> T" if "q \<in> set ?ps" for q
    unfolding Tsum using that by (rule abs_le_sum_list)
  have "\<exists>s. orZero (foldl (addPointFl rnd L) Map.empty (points ?vs) xv) = Fin s \<and>
          (1 - u) ^ (0 + length (filter (\<lambda>item. item_x item = xv) (points ?vs))) *
            (0 + (\<Sum>item\<leftarrow>filter (\<lambda>item. item_x item = xv) (points ?vs). \<bar>?r item\<bar>)) \<le> s \<and>
          s \<le> (1 + u) ^ (0 + length (filter (\<lambda>item. item_x item = xv) (points ?vs))) *
            (0 + (\<Sum>item\<leftarrow>filter (\<lambda>item. item_x item = xv) (points ?vs). \<bar>?r item\<bar>))"
  proof (rule fold_addPointFl_bounds [OF acc u(1) u1, where N = n and a = 0])
    show "\<forall>item\<in>set (points ?vs). item_x item = xv \<longrightarrow> isFinite (toNumber L (item_y item))"
      using fin0 by (simp add: pointsAt_def)
    show "\<forall>item\<in>set (points ?vs). item_x item = xv \<longrightarrow>
            ?r item = 0 \<or> lo \<le> (1 - u) ^ n * \<bar>?r item\<bar>"
      using under by (auto simp: pointsAt_def)
    show "orZero (Map.empty xv) = Fin 0" by (simp add: orZero_def)
    show "0 + length (filter (\<lambda>item. item_x item = xv) (points ?vs)) \<le> n"
      by (simp add: n pointsAt_def)
    show "(1 + u) ^ n * (0 + (\<Sum>item\<leftarrow>filter (\<lambda>item. item_x item = xv) (points ?vs). \<bar>?r item\<bar>)) \<le> hi"
      using over(1) by (simp add: Tsum pointsAt_def)
  qed simp_all
  then obtain S where S: "orZero (?sm xv) = Fin S" "aN * T \<le> S" "S \<le> bN * T"
    by (auto simp: sums_pointsFl Tsum pointsAt_def n aN_def bN_def)
  have "0 < aN * T" using aN Tpos by simp
  then have Spos: "0 < S" using S(2) by linarith
  have sm: "?sm xv = Some (Fin S)" using S(1) Spos by (intro orZero_nonzero) simp_all
  have x: "item_x q = xv" if "q \<in> set ?ps" for q using that by (simp add: pointsAt_def)
  define P :: "'x point \<Rightarrow> real" where "P = (\<lambda>q. finVal (fl_mul rnd (fl_div rnd (Fin (?r q)) (Fin S)) (Fin 100)))"
  have pct: "toNumber L (item_yPercent (setPercentFl rnd L ?sm q)) = Fin (P q) \<and>
             (1 - u)\<^sup>2 * (100 * (\<bar>?r q\<bar> / S)) \<le> \<bar>P q\<bar> \<and>
             \<bar>P q\<bar> \<le> (1 + u)\<^sup>2 * (100 * (\<bar>?r q\<bar> / S)) \<and> (0 \<le> ?r q \<longrightarrow> 0 \<le> P q)"
    if q: "q \<in> set ?ps" for q
  proof -
    have range: "?r q = 0 \<or> (lo \<le> \<bar>?r q\<bar> / S \<and> 100 * (1 + u) * (\<bar>?r q\<bar> / S) \<le> hi)"
    proof (cases "?r q = 0")
      case True
      then show ?thesis by simp
    next
      case False
      then have h: "lo * (bN * T) \<le> \<bar>?r q\<bar>"
        using under q val [OF q] by (auto simp: bN_def)
      have "lo * S \<le> \<bar>?r q\<bar>"
      proof (cases "0 \<le> lo")
        case True
        then have "lo * S \<le> lo * (bN * T)" using S(3) by (intro mult_left_mono)
        then show ?thesis using h by linarith
      next
        case False
        then have "lo * S \<le> 0" using Spos by (simp add: mult_le_0_iff)
        then show ?thesis by linarith
      qed
      then have one: "lo \<le> \<bar>?r q\<bar> / S" using Spos by (simp add: pos_le_divide_eq)
      have "100 * (1 + u) * \<bar>?r q\<bar> \<le> 100 * (1 + u) * T"
        using le_T [OF q] u by (intro mult_left_mono) simp_all
      also have "\<dots> \<le> hi * aN * T" using over(2) Tpos by (simp add: aN_def)
      also have "\<dots> \<le> hi * S"
      proof -
        have "0 \<le> hi"
        proof -
          have "0 \<le> 100 * (1 + u)" using u by simp
          then have "0 \<le> hi * aN" using over(2) by (simp add: aN_def)
          then show ?thesis using aN by (simp add: zero_le_mult_iff)
        qed
        then have "hi * (aN * T) \<le> hi * S" using S(2) by (intro mult_left_mono)
        then show ?thesis by (simp add: mult.assoc)
      qed
      finally have "100 * (1 + u) * \<bar>?r q\<bar> / S \<le> hi" using Spos by (simp add: pos_divide_le_eq)
      then show ?thesis using one by simp
    qed
    from percent_bounds [OF acc u Spos range] obtain p where
      p: "fl_mul rnd (fl_div rnd (Fin (?r q)) (Fin S)) (Fin 100) = Fin p"
         "(1 - u)\<^sup>2 * (100 * (\<bar>?r q\<bar> / S)) \<le> \<bar>p\<bar>" "\<bar>p\<bar> \<le> (1 + u)\<^sup>2 * (100 * (\<bar>?r q\<bar> / S))"
         "0 \<le> ?r q \<longrightarrow> 0 \<le> p"
      by blast
    have "P q = p" by (simp only: P_def p(1) finVal.simps)
    moreover have "item_yPercent (setPercentFl rnd L ?sm q) =
                   Num (fl_mul rnd (fl_div rnd (Fin (?r q)) (Fin S)) (Fin 100))"
      using x [OF q] sm val [OF q] by (simp add: setPercentFl_def del: fl_div.simps fl_mul.simps)
    then have "toNumber L (item_yPercent (setPercentFl rnd L ?sm q)) = Fin p"
      by (simp only: p(1) toNumber.simps)
    ultimately show ?thesis using p(2,3,4) by simp
  qed
  have out: "pointsAt xv ?out = map (setPercentFl rnd L ?sm) ?ps"
    using gst pv by (rule pointsAt_updateDataFl)
  have finite: "\<forall>item\<in>set (pointsAt xv ?out). isFinite (toNumber L (item_yPercent item))"
    unfolding out using pct by simp
  define A where "A = (\<Sum>q\<leftarrow>?ps. \<bar>P q\<bar>)"
  have "map (\<lambda>item. math_abs L (item_yPercent item)) (map (setPercentFl rnd L ?sm) ?ps)
        = map (\<lambda>q. Fin \<bar>P q\<bar>) ?ps"
    unfolding map_map by (intro map_cong) (auto simp: math_abs_def pct)
  then have absSum: "percentAbsSumAt L xv ?out = Fin A"
    by (simp only: percentAbsSumAt_def out js_sum_Fin A_def)
  have lowA: "100 * (1 - u)\<^sup>2 / bN \<le> A"
  proof -
    have "(\<Sum>q\<leftarrow>?ps. \<bar>?r q\<bar> * ((1 - u)\<^sup>2 * 100 / S)) \<le> A"
      unfolding A_def using pct by (intro sum_list_mono) (simp add: algebra_simps)
    then have "T * ((1 - u)\<^sup>2 * 100 / S) \<le> A" by (simp only: sum_list_mult_const Tsum)
    moreover have "100 * (1 - u)\<^sup>2 / bN \<le> T * ((1 - u)\<^sup>2 * 100 / S)"
    proof -
      have "1 / bN \<le> T / S" using S(3) bN Spos by (simp add: field_simps)
      then have "(100 * (1 - u)\<^sup>2) * (1 / bN) \<le> (100 * (1 - u)\<^sup>2) * (T / S)"
        by (intro mult_left_mono) simp_all
      then show ?thesis by (simp add: algebra_simps)
    qed
    ultimately show ?thesis by linarith
  qed
  have upA: "A \<le> 100 * (1 + u)\<^sup>2 / aN"
  proof -
    have "A \<le> (\<Sum>q\<leftarrow>?ps. \<bar>?r q\<bar> * ((1 + u)\<^sup>2 * 100 / S))"
      unfolding A_def using pct by (intro sum_list_mono) (simp add: algebra_simps)
    then have "A \<le> T * ((1 + u)\<^sup>2 * 100 / S)" by (simp only: sum_list_mult_const Tsum)
    moreover have "T * ((1 + u)\<^sup>2 * 100 / S) \<le> 100 * (1 + u)\<^sup>2 / aN"
    proof -
      have "T / S \<le> 1 / aN" using S(2) aN Spos by (simp add: field_simps)
      then have "(100 * (1 + u)\<^sup>2) * (T / S) \<le> (100 * (1 + u)\<^sup>2) * (1 / aN)"
        by (intro mult_left_mono) simp_all
      then show ?thesis by (simp add: algebra_simps)
    qed
    ultimately show ?thesis by linarith
  qed
  have first: "finiteBetween (percentAbsSumAt L xv ?out)
                 (100 * (1 - u)\<^sup>2 / (1 + u) ^ n) (100 * (1 + u)\<^sup>2 / (1 - u) ^ n)"
    using lowA upA by (simp add: absSum aN_def bN_def)
  have second: "finiteBetween (percentSumAt L xv ?out)
                 (100 * (1 - u)\<^sup>2 / (1 + u) ^ n) (100 * (1 + u)\<^sup>2 / (1 - u) ^ n)"
    if nn: "\<forall>item\<in>set ?ps. nonNegative (toNumber L (item_y item))"
  proof -
    have pos: "0 \<le> P q" if "q \<in> set ?ps" for q
      using nn that pct [OF that] by (simp add: nonNegative_finVal)
    have "map (\<lambda>item. toNumber L (item_yPercent item)) (map (setPercentFl rnd L ?sm) ?ps)
          = map (\<lambda>q. Fin \<bar>P q\<bar>) ?ps"
      unfolding map_map by (intro map_cong) (auto simp: pct pos)
    then have "percentSumAt L xv ?out = Fin A"
      by (simp only: percentSumAt_def out js_sum_Fin A_def)
    then show ?thesis using lowA upA by (simp add: aN_def bN_def)
  qed
  from finite first second show ?thesis by blast
qed

theorem percent_sum_tolerance_witness:
  "percentValues (ex_options ''column'' True False False) \<and>
   absSumAt ex_lib ''a'' (filter series_visible ex_thirds) = Fin 3 \<and>
   map item_yPercent (pointsAt ''a'' (filter series_visible
     (updateDataFl ex_rnd ex_lib ex_thirds (ex_options ''column'' True False False)))) =
     [Num (Fin (8525 / 256)), Num (Fin (8525 / 256)), Num (Fin (8525 / 256))] \<and>
   percentSumAt ex_lib ''a'' (filter series_visible
     (updateDataFl ex_rnd ex_lib ex_thirds (ex_options ''column'' True False False))) =
     Fin (25575 / 256) \<and>
   finiteBetween (percentAbsSumAt ex_lib ''a'' (filter series_visible
     (updateDataFl ex_rnd ex_lib ex_thirds (ex_options ''column'' True False False))))
     (100 * (1 - 1 / 128)\<^sup>2 / (1 + 1 / 128) ^ 3) (100 * (1 + 1 / 128)\<^sup>2 / (1 - 1 / 128) ^ 3) \<and>
   finiteBetween (percentSumAt ex_lib ''a'' (filter series_visible
     (updateDataFl ex_rnd ex_lib ex_thirds (ex_options ''column'' True False False))))
     (100 * (1 - 1 / 128)\<^sup>2 / (1 + 1 / 128) ^ 3) (100 * (1 + 1 / 128)\<^sup>2 / (1 - 1 / 128) ^ 3)"
proof -
  let ?o = "ex_options ''column'' True False False"
  let ?vs = "filter series_visible ex_thirds"
  let ?sm = "sumOfCorrespondingPointsFl ex_rnd ex_lib ?vs"
  let ?out = "filter series_visible (updateDataFl ex_rnd ex_lib ex_thirds ?o)"
  have o: "percentValues ?o" "globalSeriesType ?o \<noteq> ''pie''" "globalSeriesType ?o \<noteq> ''heatmap''"
    by (simp_all add: ex_options_def)
  have all: "points ?vs = [ex_point ''a'' (Num (Fin 1)), ex_point ''a'' (Num (Fin 1)),
                           ex_point ''a'' (Num (Fin 1))]"
    by (simp add: ex_thirds_def ex_series_def points_def)
  have pts: "pointsAt ''a'' ?vs = [ex_point ''a'' (Num (Fin 1)), ex_point ''a'' (Num (Fin 1)),
                                   ex_point ''a'' (Num (Fin 1))]"
    by (simp add: pointsAt_def all ex_point_def)
  have n: "3 = length (pointsAt ''a'' ?vs)" unfolding pts by simp
  have fin: "\<forall>item\<in>set (pointsAt ''a'' ?vs). isFinite (toNumber ex_lib (item_y item))"
    unfolding pts by (simp add: ex_point_def)
  have nn: "\<forall>item\<in>set (pointsAt ''a'' ?vs). nonNegative (toNumber ex_lib (item_y item))"
    unfolding pts by (simp add: ex_point_def)
  have s: "absSumAt ex_lib ''a'' ?vs = Fin 3"
    unfolding absSumAt_def pts by (simp add: ex_point_def js_sum_def math_abs_def)
  have over: "(1 + 1 / 128) ^ 3 * (3::real) \<le> 1000000"
    "100 * (1 + 1 / 128) \<le> 1000000 * (1 - 1 / 128 :: real) ^ 3"
    by (simp_all add: power3_eq_cube)
  have under: "\<forall>item\<in>set (pointsAt ''a'' ?vs).
           toNumber ex_lib (item_y item) = Fin 0 \<or>
           (1 / 16 \<le> (1 - 1 / 128) ^ 3 * \<bar>finVal (toNumber ex_lib (item_y item))\<bar> \<and>
            1 / 16 * ((1 + 1 / 128) ^ 3 * 3) \<le> \<bar>finVal (toNumber ex_lib (item_y item))\<bar>)"
    unfolding pts by (simp add: ex_point_def power3_eq_cube)
  have th: "finiteBetween (percentAbsSumAt ex_lib ''a'' ?out)
              (100 * (1 - 1 / 128)\<^sup>2 / (1 + 1 / 128) ^ 3) (100 * (1 + 1 / 128)\<^sup>2 / (1 - 1 / 128) ^ 3) \<and>
            finiteBetween (percentSumAt ex_lib ''a'' ?out)
              (100 * (1 - 1 / 128)\<^sup>2 / (1 + 1 / 128) ^ 3) (100 * (1 + 1 / 128)\<^sup>2 / (1 - 1 / 128) ^ 3)"
    using percent_sum_tolerance [where opts = ?o and rnd = ex_rnd and u = "1 / 128"
        and lo = "1 / 16" and hi = 1000000 and n = 3 and xv = "''a''" and sl = ex_thirds
        and L = ex_lib and T = 3, OF o ex_rnd_accurate _ _ n fin s _ over under] nn
    by simp
  have sm: "?sm ''a'' = Some (Fin 3)"
    by (simp add: sums_pointsFl all addPointFl_def ex_point_def orZero_def math_abs_def ex_rnd_def)
  have out: "pointsAt ''a'' ?out = map (setPercentFl ex_rnd ex_lib ?sm) (pointsAt ''a'' ?vs)"
    using o by (simp add: pointsAt_updateDataFl)
  have yp: "map item_yPercent (map (setPercentFl ex_rnd ex_lib ?sm) (pointsAt ''a'' ?vs)) =
            [Num (Fin (8525 / 256)), Num (Fin (8525 / 256)), Num (Fin (8525 / 256))]"
    unfolding pts by (simp add: setPercentFl_def ex_point_def sm ex_rnd_def)
  have "percentSumAt ex_lib ''a'' ?out =
        js_sum (map (toNumber ex_lib) (map item_yPercent
          (map (setPercentFl ex_rnd ex_lib ?sm) (pointsAt ''a'' ?vs))))"
    by (simp add: percentSumAt_def out comp_def)
  also have "\<dots> = Fin (25575 / 256)" unfolding yp by (simp add: js_sum_def)
  finally have total: "percentSumAt ex_lib ''a'' ?out = Fin (25575 / 256)" .
  have yp': "map item_yPercent (pointsAt ''a'' ?out) =
             [Num (Fin (8525 / 256)), Num (Fin (8525 / 256)), Num (Fin (8525 / 256))]"
    using yp by (simp only: out)
  from o(1) s yp' total th show ?thesis by blast
qed

text \<open>
  Where the sum overflows the bounds are lost: in the small number format two y-values
  of 600000 at the same x have the sum \<^verbatim>\<open>Infinity\<close>, both shares are 0, and so is their
  sum.
\<close>

lemma percent_overflow_example:
  "sumOfCorrespondingPointsFl ex_rnd ex_lib (filter series_visible ex_big) ''a'' = Some PInf \<and>
   map item_yPercent (pointsAt ''a'' (filter series_visible
     (updateDataFl ex_rnd ex_lib ex_big (ex_options ''column'' True False False)))) =
     [Num (Fin 0), Num (Fin 0)] \<and>
   percentSumAt ex_lib ''a'' (filter series_visible
     (updateDataFl ex_rnd ex_lib ex_big (ex_options ''column'' True False False))) = Fin 0"
proof -
  let ?o = "ex_options ''column'' True False False"
  let ?vs = "filter series_visible ex_big"
  let ?sm = "sumOfCorrespondingPointsFl ex_rnd ex_lib ?vs"
  let ?out = "filter series_visible (updateDataFl ex_rnd ex_lib ex_big ?o)"
  have o: "percentValues ?o" "globalSeriesType ?o \<noteq> ''pie''" "globalSeriesType ?o \<noteq> ''heatmap''"
    by (simp_all add: ex_options_def)
  have all: "points ?vs = [ex_point ''a'' (Num (Fin 600000)), ex_point ''a'' (Num (Fin 600000))]"
    by (simp add: ex_big_def ex_series_def points_def)
  have pts: "pointsAt ''a'' ?vs = [ex_point ''a'' (Num (Fin 600000)), ex_point ''a'' (Num (Fin 600000))]"
    by (simp add: pointsAt_def all ex_point_def)
  have sm: "?sm ''a'' = Some PInf"
    by (simp add: sums_pointsFl all addPointFl_def ex_point_def orZero_def math_abs_def ex_rnd_def)
  have out: "pointsAt ''a'' ?out = map (setPercentFl ex_rnd ex_lib ?sm) (pointsAt ''a'' ?vs)"
    using o by (simp add: pointsAt_updateDataFl)
  have yp: "map item_yPercent (map (setPercentFl ex_rnd ex_lib ?sm) (pointsAt ''a'' ?vs)) =
            [Num (Fin 0), Num (Fin 0)]"
    unfolding pts by (simp add: setPercentFl_def ex_point_def sm ex_rnd_def)
  have "percentSumAt ex_lib ''a'' ?out =
        js_sum (map (toNumber ex_lib) (map item_yPercent
          (map (setPercentFl ex_rnd ex_lib ?sm) (pointsAt ''a'' ?vs))))"
    by (simp add: percentSumAt_def out comp_def)
  also have "\<dots> = Fin 0" unfolding yp by (simp add: js_sum_def)
  finally have total: "percentSumAt ex_lib ''a'' ?out = Fin 0" .
  have yp': "map item_yPercent (pointsAt ''a'' ?out) = [Num (Fin 0), Num (Fin 0)]"
    using yp by (simp only: out)
  from sm yp' total show ?thesis by blast
qed

text \<open>
  C1, as stated, fails where a y-value is negative: with \<^verbatim>\<open>-1\<close> and \<^verbatim>\<open>1\<close> at the
  same x the absolute values sum to 2, the percentages are \<^verbatim>\<open>-50\<close> and \<^verbatim>\<open>50\<close>, and
  their sum is 0.
\<close>

theorem percent_sum_counterexample:
  "percentValues (ex_options ''column'' True False False) \<and>
   absSumAt ex_lib ''a'' (filter series_visible ex_signed) = Fin 2 \<and>
   map item_yPercent (pointsAt ''a'' (filter series_visible
     (updateData ex_lib ex_signed (ex_options ''column'' True False False)))) =
     [Num (Fin (- 50)), Num (Fin 50)] \<and>
   percentSumAt ex_lib ''a'' (filter series_visible
     (updateData ex_lib ex_signed (ex_options ''column'' True False False))) = Fin 0"
proof -
  let ?o = "ex_options ''column'' True False False"
  let ?vs = "filter series_visible ex_signed"
  let ?sm = "sumOfCorrespondingPoints ex_lib ?vs"
  have o: "percentValues ?o" "globalSeriesType ?o \<noteq> ''pie''" "globalSeriesType ?o \<noteq> ''heatmap''"
    by (simp_all add: ex_options_def)
  have all: "points ?vs = [ex_point ''a'' (Num (Fin (- 1))), ex_point ''a'' (Num (Fin 1))]"
    by (simp add: ex_signed_def ex_series_def points_def)
  have pts: "pointsAt ''a'' ?vs = [ex_point ''a'' (Num (Fin (- 1))), ex_point ''a'' (Num (Fin 1))]"
    by (simp add: pointsAt_def all ex_point_def)
  have s: "absSumAt ex_lib ''a'' ?vs = Fin 2"
    unfolding absSumAt_def pts by (simp add: ex_point_def js_sum_def math_abs_def)
  have sm: "?sm ''a'' = Some (Fin 2)"
    by (simp add: sums_points all addPoint_def ex_point_def orZero_def math_abs_def)
  have out: "pointsAt ''a'' (filter series_visible (updateData ex_lib ex_signed ?o)) =
             map (setPercent ex_lib ?sm) (pointsAt ''a'' ?vs)"
    using o by (simp add: pointsAt_updateData)
  have yp: "map item_yPercent (map (setPercent ex_lib ?sm) (pointsAt ''a'' ?vs)) =
            [Num (Fin (- 50)), Num (Fin 50)]"
    unfolding pts by (simp add: setPercent_yPercent ex_point_def sm)
  have "percentSumAt ex_lib ''a'' (filter series_visible (updateData ex_lib ex_signed ?o)) =
        js_sum (map (toNumber ex_lib) (map item_yPercent (map (setPercent ex_lib ?sm) (pointsAt ''a'' ?vs))))"
    by (simp add: percentSumAt_def out comp_def)
  also have "\<dots> = Fin 0" unfolding yp by (simp add: js_sum_def)
  finally show ?thesis using o(1) s yp by (simp only: out)
qed

section \<open>The pie family\<close>

lemma writeBack_frame:
  "map f vs = map f (filter series_visible ss) \<Longrightarrow> map f (writeBack ss vs) = map f ss"
proof (induction ss arbitrary: vs)
  case Nil
  then show ?case by simp
next
  case (Cons s ss)
  then show ?case by (cases vs) (auto simp: writeBack_Nil split: if_splits)
qed

lemma pipeline_pie:
  "globalSeriesType opts = ''pie'' \<Longrightarrow> pipeline L opts vs = updateSeriesText L vs opts"
  by (simp add: pipeline_stages)

lemma updateSeriesText_text_length:
  assumes "s \<in> set (updateSeriesText L ss opts)"
  shows "length (series_text s) =
         length (if globalSeriesType opts = ''pie'' then series_labels s else series_x s)"
  using assms by (auto simp: updateSeriesText_def Let_def)

text \<open>
  C2, as the code has it. For the pie family the transform computes no percentage: it
  leaves the points of every series, their \<^verbatim>\<open>yPercent\<close> included, and every y array
  as the caller supplied them, whatever \<^verbatim>\<open>series.percentValues\<close> is; it only rebuilds
  the text of the visible series, one entry per label.
\<close>

theorem pie_keeps_points:
  assumes "globalSeriesType opts = ''pie''"
  shows "map sourceData (updateData L sl opts) = map sourceData sl \<and>
         map series_y (updateData L sl opts) = map series_y sl \<and>
         (\<forall>s\<in>set (filter series_visible (updateData L sl opts)).
            length (series_text s) = length (series_labels s))"
proof -
  let ?vs = "filter series_visible sl"
  have "map sourceData (pipeline L opts ?vs) = map sourceData ?vs"
    using assms by (simp add: pipeline_pie updateSeriesText_frame)
  then have a: "map sourceData (updateData L sl opts) = map sourceData sl"
    unfolding updateData_pipeline by (rule writeBack_frame)
  have "map series_y (pipeline L opts ?vs) = map series_y ?vs"
    using assms by (simp add: pipeline_pie updateSeriesText_frame)
  then have b: "map series_y (updateData L sl opts) = map series_y sl"
    unfolding updateData_pipeline by (rule writeBack_frame)
  have c: "\<forall>s\<in>set (filter series_visible (updateData L sl opts)).
            length (series_text s) = length (series_labels s)"
    unfolding visible_updateData pipeline_pie [OF assms]
    using assms updateSeriesText_text_length [of _ L ?vs opts] by auto
  from a b c show ?thesis by blast
qed

theorem pie_keeps_points_witness:
  "globalSeriesType (ex_options ''pie'' True False False) = ''pie'' \<and>
   map item_yPercent (points (updateData ex_lib ex_share (ex_options ''pie'' True False False))) =
     [Undefined, Undefined, Undefined] \<and>
   map series_y (updateData ex_lib ex_share (ex_options ''pie'' True False False)) =
     [[Num (Fin 30)], [Num (Fin 100)], [Num (Fin 70)]]"
proof -
  let ?o = "ex_options ''pie'' True False False"
  have o: "globalSeriesType ?o = ''pie''" by (simp add: ex_options_def)
  have "points (updateData ex_lib ex_share ?o) = points ex_share"
    using pie_keeps_points [OF o, of ex_lib ex_share] by (auto intro: points_cong)
  moreover have "map item_yPercent (points ex_share) = [Undefined, Undefined, Undefined]"
    by (simp add: points_def ex_share_def ex_series_def ex_point_def)
  moreover have "map series_y ex_share = [[Num (Fin 30)], [Num (Fin 100)], [Num (Fin 70)]]"
    by (simp add: ex_share_def ex_series_def)
  ultimately show ?thesis using pie_keeps_points [OF o, of ex_lib ex_share] o by simp
qed

text \<open>
  C2, as stated, fails: for a pie chart with the shares 30 and 70 at one label (their
  absolute values sum to 100) and \<^verbatim>\<open>series.percentValues\<close> off, the points have no
  \<^verbatim>\<open>yPercent\<close> after the transform, as before it.
\<close>

theorem pie_percent_counterexample:
  "globalSeriesType (ex_options ''pie'' False False False) = ''pie'' \<and>
   absSumAt ex_lib ''a'' (filter series_visible ex_share) = Fin 100 \<and>
   map item_y (points (filter series_visible
     (updateData ex_lib ex_share (ex_options ''pie'' False False False)))) =
     [Num (Fin 30), Num (Fin 70)] \<and>
   map item_yPercent (points (filter series_visible
     (updateData ex_lib ex_share (ex_options ''pie'' False False False)))) =
     [Undefined, Undefined]"
proof -
  let ?o = "ex_options ''pie'' False False False"
  let ?vs = "filter series_visible ex_share"
  have o: "globalSeriesType ?o = ''pie''" by (simp add: ex_options_def)
  have "map sourceData (pipeline ex_lib ?o ?vs) = map sourceData ?vs"
    by (simp add: pipeline_pie [OF o] updateSeriesText_frame)
  then have "points (filter series_visible (updateData ex_lib ex_share ?o)) = points ?vs"
    unfolding visible_updateData by (rule points_cong)
  moreover have "points ?vs = [ex_point ''a'' (Num (Fin 30)), ex_point ''a'' (Num (Fin 70))]"
    by (simp add: points_def ex_share_def ex_series_def)
  moreover have "absSumAt ex_lib ''a'' ?vs = Fin 100"
    by (simp add: absSumAt_def pointsAt_def points_def ex_share_def ex_series_def ex_point_def
        js_sum_def math_abs_def)
  ultimately show ?thesis using o by (simp add: ex_point_def)
qed

section \<open>Parallel arrays\<close>

lemma stackSeries_parallel:
  assumes "\<forall>s\<in>set ss. length (series_y s) = length (series_x s) \<and>
                      length (error_y_array s) = length (series_x s)"
    and "s \<in> set (stackSeries L p ss)"
  shows "length (series_y s) = length (series_x s) \<and>
         length (error_y_array s) = length (series_x s)"
  using assms
  by (induction ss arbitrary: p) (auto simp: Let_def split: option.splits)

lemma unified_parallel:
  assumes "s \<in> set (updateUnifiedXAxisValues ss opts d)"
  shows "length (series_y s) = length (series_x s) \<and>
         length (error_y_array s) = length (series_x s)"
  using assms by (auto simp: updateUnifiedXAxisValues_def Let_def)

lemma unifyStage_parallel:
  assumes "runsUnification opts" "s \<in> set (unifyStage L opts ss)"
  shows "length (series_y s) = length (series_x s) \<and>
         length (error_y_array s) = length (series_x s)"
proof (cases "stacking opts")
  case True
  with assms have "s \<in> set (stackSeries L None (updateUnifiedXAxisValues ss opts (Num (Fin 0))))"
    by (simp add: unifyStage_def)
  then show ?thesis
    using stackSeries_parallel [of "updateUnifiedXAxisValues ss opts (Num (Fin 0))" s L None]
      unified_parallel [of _ ss opts "Num (Fin 0)"] by blast
next
  case False
  with assms have "s \<in> set (updateUnifiedXAxisValues ss opts Undefined)"
    by (simp add: unifyStage_def)
  then show ?thesis by (rule unified_parallel)
qed

lemma updateSeriesText_nth_fields:
  assumes "n < length zs"
  shows "series_x (updateSeriesText L zs opts ! n) = series_x (zs ! n)"
    and "series_y (updateSeriesText L zs opts ! n) = series_y (zs ! n)"
    and "error_y_array (updateSeriesText L zs opts ! n) = error_y_array (zs ! n)"
    and "length (series_text (updateSeriesText L zs opts ! n)) =
         length (if globalSeriesType opts = ''pie'' then series_labels (zs ! n) else series_x (zs ! n))"
  using assms by (simp_all add: updateSeriesText_def Let_def)

lemma updatePercentValues_nth_fields:
  assumes "n < length ss"
  shows "series_x (updatePercentValues L ss opts ! n) = series_x (ss ! n)"
    and "error_y_array (updatePercentValues L ss opts ! n) = error_y_array (ss ! n)"
    and "length (series_y (updatePercentValues L ss opts ! n)) =
         (if percentValues opts then length (sourceData (ss ! n)) else length (series_y (ss ! n)))"
  using assms by (simp_all add: updatePercentValues_def Let_def)

text \<open>
  C7, as the code has it. A visible series leaves the transform with \<^verbatim>\<open>x\<close>, \<^verbatim>\<open>y\<close>,
  \<^verbatim>\<open>error_y.array\<close> and \<^verbatim>\<open>text\<close> of the same length exactly in these cases. For the
  families other than pie and heatmap: when the unification of the x axis runs; or
  else when \<^verbatim>\<open>error_y.array\<close> comes in as long as \<^verbatim>\<open>x\<close> and, with percent values
  on, \<^verbatim>\<open>x\<close> has one entry per point of \<^verbatim>\<open>sourceData\<close>, with percent values off,
  \<^verbatim>\<open>y\<close> comes in as long as \<^verbatim>\<open>x\<close>. For pie (whose text has one entry per label):
  when \<^verbatim>\<open>x\<close>, \<^verbatim>\<open>y\<close>, \<^verbatim>\<open>error_y.array\<close> and \<^verbatim>\<open>labels\<close> come in with the same length.
  For heatmap (which the transform leaves alone): when the four arrays come in with the
  same length.
\<close>

theorem parallel_arrays:
  assumes "n < length (filter series_visible sl)"
  shows "parallel (filter series_visible (updateData L sl opts) ! n) =
         leavesParallel opts (filter series_visible sl ! n)"
proof -
  let ?vs = "filter series_visible sl"
  let ?P = "updatePercentValues L ?vs opts"
  let ?Z = "unifyStage L opts ?P"
  let ?out = "filter series_visible (updateData L sl opts)"
  consider (heatmap) "globalSeriesType opts = ''heatmap''"
    | (pie) "globalSeriesType opts = ''pie''"
    | (runs) "globalSeriesType opts \<noteq> ''heatmap''" "globalSeriesType opts \<noteq> ''pie''"
        "runsUnification opts"
    | (plain) "globalSeriesType opts \<noteq> ''heatmap''" "globalSeriesType opts \<noteq> ''pie''"
        "\<not> runsUnification opts"
    by blast
  then show ?thesis
  proof cases
    case heatmap
    then have "?out = ?vs" by (simp add: visible_updateData pipeline_stages)
    then show ?thesis using heatmap by (simp add: leavesParallel_def)
  next
    case pie
    then have "?out = updateSeriesText L ?vs opts" by (simp add: visible_updateData pipeline_stages)
    then show ?thesis
      using pie updateSeriesText_nth_fields [OF assms, of L opts]
      by (auto simp: leavesParallel_def parallel_def)
  next
    case runs
    have out: "?out = updateSeriesText L ?Z opts"
      using runs(1,2) by (simp add: visible_updateData pipeline_stages)
    have nz: "n < length ?Z"
      using assms by (simp add: unifyStage_length updatePercentValues_length)
    then have "?Z ! n \<in> set ?Z" by simp
    with runs(3) have "length (series_y (?Z ! n)) = length (series_x (?Z ! n)) \<and>
        length (error_y_array (?Z ! n)) = length (series_x (?Z ! n))"
      by (rule unifyStage_parallel)
    then have "parallel (?out ! n)"
      unfolding out using runs(2) updateSeriesText_nth_fields [OF nz, of L opts]
      by (simp add: parallel_def)
    then show ?thesis using runs by (simp add: leavesParallel_def)
  next
    case plain
    have out: "?out = updateSeriesText L ?P opts"
      using plain by (simp add: visible_updateData pipeline_stages unifyStage_def)
    have np: "n < length ?P" using assms by (simp add: updatePercentValues_length)
    show ?thesis
      unfolding out using plain updateSeriesText_nth_fields [OF np, of L opts]
        updatePercentValues_nth_fields [OF assms, of L opts]
      by (auto simp: leavesParallel_def parallel_def)
  qed
qed

theorem parallel_arrays_witness:
  "leavesParallel (ex_options ''column'' False False False) (filter series_visible ex_dup ! 0) = True \<and>
   parallel (filter series_visible
     (updateData ex_lib ex_dup (ex_options ''column'' False False False)) ! 0) = True \<and>
   leavesParallel (ex_options ''column'' True False False) (filter series_visible ex_dup ! 0) = False \<and>
   parallel (filter series_visible
     (updateData ex_lib ex_dup (ex_options ''column'' True False False)) ! 0) = False \<and>
   leavesParallel (ex_options ''column'' True False False) (filter series_visible ex_share ! 1) = True \<and>
   parallel (filter series_visible
     (updateData ex_lib ex_share (ex_options ''column'' True False False)) ! 1) = True"
proof -
  have vd: "filter series_visible ex_dup = ex_dup" by (simp add: ex_dup_def ex_series_def)
  have vs: "filter series_visible ex_share =
              [ex_series ''A'' True [(''a'', Num (Fin 30))],
               ex_series ''B'' True [(''a'', Num (Fin 70))]]"
    by (simp add: ex_share_def ex_series_def)
  have nd: "0 < length (filter series_visible ex_dup)" unfolding vd by (simp add: ex_dup_def)
  have ns: "1 < length (filter series_visible ex_share)" unfolding vs by simp
  have a: "leavesParallel (ex_options ''column'' False False False) (filter series_visible ex_dup ! 0)"
    unfolding vd
    by (simp add: leavesParallel_def ex_options_def ex_dup_def ex_series_def)
  have b: "\<not> leavesParallel (ex_options ''column'' True False False) (filter series_visible ex_dup ! 0)"
    unfolding vd
    by (simp add: leavesParallel_def runsUnification_def useUnifiedXAxis_def ex_options_def
        ex_dup_def ex_series_def)
  have c: "leavesParallel (ex_options ''column'' True False False) (filter series_visible ex_share ! 1)"
    unfolding vs
    by (simp add: leavesParallel_def ex_options_def ex_series_def)
  from parallel_arrays [OF nd, of ex_lib "ex_options ''column'' False False False"]
    parallel_arrays [OF nd, of ex_lib "ex_options ''column'' True False False"]
    parallel_arrays [OF ns, of ex_lib "ex_options ''column'' True False False"]
    a b c
  show ?thesis by simp
qed

text \<open>
  C7, as stated, fails: a column series built from two rows with the same x comes in
  with two entries in each array and one point; with percent values on, its y array is
  rebuilt from the points and has one entry, while x and text have two.
\<close>

theorem parallel_arrays_counterexample:
  "map series_visible ex_dup = [True] \<and>
   map (length \<circ> series_x) ex_dup = [2] \<and>
   map (length \<circ> series_y) ex_dup = [2] \<and>
   map (length \<circ> error_y_array) ex_dup = [2] \<and>
   map (length \<circ> series_x) (updateData ex_lib ex_dup (ex_options ''column'' True False False)) = [2] \<and>
   map (length \<circ> series_y) (updateData ex_lib ex_dup (ex_options ''column'' True False False)) = [1] \<and>
   map (length \<circ> series_text) (updateData ex_lib ex_dup (ex_options ''column'' True False False)) = [2]"
  by (simp add: ex_dup_def ex_series_def ex_options_def updateData_def updateDefaultData_def
      updatePercentValues_def updateSeriesText_def useUnifiedXAxis_def Let_def)

section \<open>The tokens of the text labels\<close>

lemma updateSeriesText_eq:
  "updateSeriesText L ss opts =
     map (\<lambda>s. s\<lparr>series_text :=
                   map (\<lambda>xv. createTextFormatter L opts (seriesTokens L opts s (resolvedOptions opts s) xv))
                     (if globalSeriesType opts = ''pie'' then series_labels s else series_x s),
                 series_hover := []\<rparr>) ss"
  by (simp add: updateSeriesText_def resolvedOptions_def Let_def)

lemma pointTokens_text:
  "pointTokens L opts (s\<lparr>series_text := t, series_hover := h\<rparr>) so found = pointTokens L opts s so found"
  by (cases found) (simp_all add: pointTokens_def Let_def)

lemma seriesTokens_text:
  "seriesTokens L opts (s\<lparr>series_text := t, series_hover := h\<rparr>) so xv = seriesTokens L opts s so xv"
  by (simp add: seriesTokens_def pointTokens_text split: option.split)

lemma resolvedOptions_text:
  "resolvedOptions opts (s\<lparr>series_text := t, series_hover := h\<rparr>) = resolvedOptions opts s"
  by (simp add: resolvedOptions_def)

lemma updateSeriesText_nth:
  assumes "n < length zs"
  shows "series_text (updateSeriesText L zs opts ! n) =
         map (\<lambda>xv. createTextFormatter L opts
                (seriesTokens L opts (updateSeriesText L zs opts ! n)
                   (resolvedOptions opts (updateSeriesText L zs opts ! n)) xv))
           (if globalSeriesType opts = ''pie''
            then series_labels (updateSeriesText L zs opts ! n)
            else series_x (updateSeriesText L zs opts ! n))"
  using assms by (simp add: updateSeriesText_eq seriesTokens_text resolvedOptions_text)

lemma pipeline_text:
  assumes "globalSeriesType opts \<noteq> ''heatmap''"
  shows "\<exists>zs. length zs = length vs \<and> pipeline L opts vs = updateSeriesText L zs opts"
proof (cases "globalSeriesType opts = ''pie''")
  case True
  then show ?thesis by (auto simp: pipeline_stages)
next
  case False
  with assms have "pipeline L opts vs =
      updateSeriesText L (unifyStage L opts (updatePercentValues L vs opts)) opts"
    by (simp add: pipeline_stages)
  moreover have "length (unifyStage L opts (updatePercentValues L vs opts)) = length vs"
    by (simp add: unifyStage_length updatePercentValues_length)
  ultimately show ?thesis by blast
qed

lemma tokens_found:
  assumes "map_of (sourceData series) xv = Some item"
  shows "seriesTokens L opts series so xv =
         pointTokens L opts series so (Some item) ++ map_of (row_raw (item_row item))"
  using assms by (simp add: seriesTokens_def)

text \<open>
  C8, as the code has it. In the token bag of a point, a field of the raw record
  replaces a token of the same name; otherwise \<^verbatim>\<open>@@name\<close> is the series name,
  \<^verbatim>\<open>@@x\<close> is the raw x through the axis-value normalizer, \<^verbatim>\<open>@@y\<close> is the y through
  the number formatter unless the type of the series is bubble or scatter, for which it
  is the raw y through the axis-value normalizer; \<^verbatim>\<open>@@yError\<close> and \<^verbatim>\<open>@@size\<close>, when
  the point has them, go through the number formatter, and \<^verbatim>\<open>@@yPercent\<close>, in percent
  mode or for a pie, is the absolute value through the percent formatter. Every text
  of a visible series is the text formatter applied to such a bag, and to nothing else.
\<close>

theorem tokens_formatted:
  assumes "map_of (sourceData series) xv = Some item"
  shows
    "let tk = seriesTokens L opts series so xv;
         raw = map_of (row_raw (item_row item));
         formatNumber = createNumberFormatter L (numberFormat opts);
         formatPercent = createNumberFormatter L (percentFormat opts)
     in (\<forall>k v. raw k = Some v \<longrightarrow> tk k = Some v) \<and>
        (raw ''@@name'' = None \<longrightarrow> tk ''@@name'' = Some (Str (series_name series))) \<and>
        (raw ''@@x'' = None \<longrightarrow>
           tk ''@@x'' = Some (formatValue L (row_x (item_row item)) ''x'' opts)) \<and>
        (raw ''@@y'' = None \<longrightarrow>
           tk ''@@y'' = Some (if so_type so = Some ''bubble'' \<or> so_type so = Some ''scatter''
                              then formatValue L (row_y (item_row item)) (series_yaxis series) opts
                              else Str (formatNumber (item_y item)))) \<and>
        (raw ''@@yError'' = None \<longrightarrow>
           tk ''@@yError'' = (if item_yError item \<noteq> Undefined
                              then Some (Str (formatNumber (item_yError item))) else None)) \<and>
        (raw ''@@size'' = None \<longrightarrow>
           tk ''@@size'' = (if item_size item \<noteq> Undefined
                            then Some (Str (formatNumber (item_size item))) else None)) \<and>
        (raw ''@@yPercent'' = None \<longrightarrow>
           tk ''@@yPercent'' = (if percentValues opts \<or> globalSeriesType opts = ''pie''
                                then Some (Str (formatPercent (Num (math_abs L (item_yPercent item)))))
                                else None)) \<and>
        (globalSeriesType opts \<noteq> ''heatmap'' \<longrightarrow>
           (\<forall>n<length (filter series_visible sl).
              series_text (filter series_visible (updateData L sl opts) ! n) =
                map (\<lambda>xv. createTextFormatter L opts
                       (seriesTokens L opts (filter series_visible (updateData L sl opts) ! n)
                          (resolvedOptions opts (filter series_visible (updateData L sl opts) ! n)) xv))
                  (if globalSeriesType opts = ''pie''
                   then series_labels (filter series_visible (updateData L sl opts) ! n)
                   else series_x (filter series_visible (updateData L sl opts) ! n))))"
proof -
  have tk: "seriesTokens L opts series so xv =
            pointTokens L opts series so (Some item) ++ map_of (row_raw (item_row item))"
    using assms by (rule tokens_found)
  have text_eq: "series_text (filter series_visible (updateData L sl opts) ! n) =
                map (\<lambda>xv. createTextFormatter L opts
                       (seriesTokens L opts (filter series_visible (updateData L sl opts) ! n)
                          (resolvedOptions opts (filter series_visible (updateData L sl opts) ! n)) xv))
                  (if globalSeriesType opts = ''pie''
                   then series_labels (filter series_visible (updateData L sl opts) ! n)
                   else series_x (filter series_visible (updateData L sl opts) ! n))"
    if nh: "globalSeriesType opts \<noteq> ''heatmap''" and nlt: "n < length (filter series_visible sl)"
    for n
  proof -
    obtain zs where zs: "length zs = length (filter series_visible sl)"
      "pipeline L opts (filter series_visible sl) = updateSeriesText L zs opts"
      using pipeline_text [OF nh] by blast
    show ?thesis
      unfolding visible_updateData zs(2) using nlt zs(1) by (intro updateSeriesText_nth) simp
  qed
  show ?thesis
    unfolding Let_def tk
    by (auto simp: map_add_def pointTokens_def Let_def text_eq)
qed

theorem tokens_formatted_witness:
  "map_of (sourceData (ex_unify ! 0)) ''a'' = Some (ex_point ''a'' (Num (Fin 2))) \<and>
   seriesTokens ex_lib (ex_options ''line'' False False True) (ex_unify ! 0)
     (resolvedOptions (ex_options ''line'' False False True) (ex_unify ! 0)) ''a'' ''@@x'' =
     Some (Str ''a'') \<and>
   seriesTokens ex_lib (ex_options ''line'' False False True) (ex_unify ! 0)
     (resolvedOptions (ex_options ''line'' False False True) (ex_unify ! 0)) ''a'' ''@@y'' =
     Some (Str ''N'') \<and>
   seriesTokens ex_lib (ex_options ''line'' False False True) (ex_unify ! 0)
     (resolvedOptions (ex_options ''line'' False False True) (ex_unify ! 0)) ''a'' ''@@yPercent'' =
     None"
proof -
  let ?o = "ex_options ''line'' False False True"
  let ?s = "ex_unify ! 0"
  have found: "map_of (sourceData ?s) ''a'' = Some (ex_point ''a'' (Num (Fin 2)))"
    by (simp add: ex_unify_def ex_series_def)
  have so: "so_type (resolvedOptions ?o ?s) = Some ''line''"
    by (simp add: resolvedOptions_def ex_options_def)
  have o: "\<not> percentValues ?o" "globalSeriesType ?o = ''line''" "numberFormat ?o = ''N''"
    by (simp_all add: ex_options_def)
  have raw: "row_raw (item_row (ex_point ''a'' (Num (Fin 2)))) = []"
    "row_x (item_row (ex_point ''a'' (Num (Fin 2)))) = Str ''a''"
    by (simp_all add: ex_point_def)
  have fx: "formatValue ex_lib (Str ''a'') ''x'' ?o = Str ''a''"
    by (simp add: formatValue_def ex_lib_def)
  have fn: "createNumberFormatter ex_lib ''N'' v = ''N''" for v
    by (simp add: ex_lib_def)
  from tokens_formatted [OF found, of ex_lib ?o "resolvedOptions ?o ?s" ex_unify] found
  show ?thesis
    unfolding Let_def raw by (simp add: so o fx fn)
qed

text \<open>
  C8, as stated, fails for a scatter series: the \<^verbatim>\<open>@@y\<close> token of a point with
  \<^verbatim>\<open>y = 5\<close> and the raw y cell \<^verbatim>\<open>"high"\<close> is the raw cell as the normalizer returns
  it, where the number formatter gives \<^verbatim>\<open>"N"\<close>, and the text of the point is that token.
\<close>

theorem tokens_formatted_counterexample:
  "resolvedOptions (ex_options ''scatter'' False False False) (ex_scatter ! 0) =
     \<lparr>so_type = Some ''scatter''\<rparr> \<and>
   map (item_y \<circ> snd) (sourceData (ex_scatter ! 0)) = [Num (Fin 5)] \<and>
   createNumberFormatter ex_lib (numberFormat (ex_options ''scatter'' False False False))
     (Num (Fin 5)) = ''N'' \<and>
   seriesTokens ex_lib (ex_options ''scatter'' False False False) (ex_scatter ! 0)
     (resolvedOptions (ex_options ''scatter'' False False False) (ex_scatter ! 0)) ''a'' ''@@y'' =
     Some (Str ''high'') \<and>
   map series_text (updateData ex_lib ex_scatter (ex_options ''scatter'' False False False)) =
     [[Str ''high'']]"
  by (simp add: ex_scatter_def ex_options_def ex_lib_def ex_point_def resolvedOptions_def
      seriesTokens_def pointTokens_def formatValue_def updateData_def updateDefaultData_def
      updatePercentValues_def updateSeriesText_def useUnifiedXAxis_def createTextFormatter_def
      defaultFormatSeriesText_def getProp_def Let_def)

section \<open>The sign of the percent token\<close>

lemma js_abs_neg: "js_abs (js_neg n) = js_abs n"
  by (cases n) simp_all

lemma map_of_map_value:
  "map_of (map (\<lambda>(k, v). (k, f v)) xs) k = map_option f (map_of xs k)"
  by (induction xs) auto

lemma pointTokens_negate:
  "pointTokens L opts (negatePercent L s) so
     (Some (item\<lparr>item_yPercent := Num (js_neg (toNumber L (item_yPercent item)))\<rparr>)) =
   pointTokens L opts s so (Some item)"
  by (simp add: pointTokens_def negatePercent_def Let_def math_abs_def js_abs_neg)

lemma pointTokens_negate_None:
  "pointTokens L opts (negatePercent L s) so None = pointTokens L opts s so None"
  by (simp add: pointTokens_def negatePercent_def Let_def)

lemma seriesTokens_negate:
  "seriesTokens L opts (negatePercent L s) so xv = seriesTokens L opts s so xv"
proof (cases "map_of (sourceData s) xv")
  case None
  then have "map_of (sourceData (negatePercent L s)) xv = None"
    by (simp add: negatePercent_def map_of_map_value)
  with None show ?thesis by (simp add: seriesTokens_def pointTokens_negate_None)
next
  case (Some item)
  then have "map_of (sourceData (negatePercent L s)) xv =
             Some (item\<lparr>item_yPercent := Num (js_neg (toNumber L (item_yPercent item)))\<rparr>)"
    by (simp add: negatePercent_def map_of_map_value)
  with Some show ?thesis by (simp add: seriesTokens_def pointTokens_negate)
qed

lemma negatePercent_fields:
  "series_x (negatePercent L s) = series_x s" "series_labels (negatePercent L s) = series_labels s"
  "resolvedOptions opts (negatePercent L s) = resolvedOptions opts s"
  by (simp_all add: negatePercent_def resolvedOptions_def)

lemma negate_visible:
  "filter series_visible (map (negatePercent L) sl) = map (negatePercent L) (filter series_visible sl)"
  by (induction sl) (simp_all add: negatePercent_def)

lemma text_negate:
  "map series_text (updateSeriesText L (map (negatePercent L) ss) opts) =
   map series_text (updateSeriesText L ss opts)"
  by (simp add: updateSeriesText_eq comp_def seriesTokens_negate negatePercent_fields)

lemma points_negate:
  "points (map (negatePercent L) ss) =
   map (\<lambda>item. item\<lparr>item_yPercent := Num (js_neg (toNumber L (item_yPercent item)))\<rparr>) (points ss)"
  by (induction ss) (auto simp: points_def negatePercent_def split_def comp_def)

lemma sums_negate:
  "sumOfCorrespondingPoints L (map (negatePercent L) ss) = sumOfCorrespondingPoints L ss"
proof -
  have "foldl (addPoint L) m (map (\<lambda>item. item\<lparr>item_yPercent := f item\<rparr>) ps) = foldl (addPoint L) m ps"
    for m f and ps :: "'a point list"
    by (induction ps arbitrary: m) (simp_all add: addPoint_def Let_def)
  then show ?thesis by (simp add: sums_points points_negate)
qed

lemma percent_negate:
  assumes "percentValues opts"
  shows "updatePercentValues L (map (negatePercent L) ss) opts = updatePercentValues L ss opts"
  using assms
  by (simp add: updatePercentValues_def Let_def sums_negate negatePercent_def split_def comp_def
      setPercent_def)

lemma unified_negate:
  assumes "\<not> percentValues opts"
  shows "updateUnifiedXAxisValues (map (negatePercent L) ss) opts d =
         map (negatePercent L) (updateUnifiedXAxisValues ss opts d)"
proof -
  have ux: "getUnifiedXAxisValues (map (negatePercent L) ss) b = getUnifiedXAxisValues ss b" for b
    by (cases b) (simp_all add: unified_sorted unified_unsorted points_negate comp_def)
  have y: "(case map_of (sourceData (negatePercent L s)) xv of
              Some item \<Rightarrow> (if percentValues opts then item_yPercent item else item_y item)
            | None \<Rightarrow> v) =
           (case map_of (sourceData s) xv of
              Some item \<Rightarrow> (if percentValues opts then item_yPercent item else item_y item)
            | None \<Rightarrow> v)"
    for s :: "'a series" and xv v
    using assms by (simp add: negatePercent_def map_of_map_value split: option.split)
  have e: "(case map_of (sourceData (negatePercent L s)) xv of
              Some item \<Rightarrow> item_yError item | None \<Rightarrow> v) =
           (case map_of (sourceData s) xv of Some item \<Rightarrow> item_yError item | None \<Rightarrow> v)"
    for s :: "'a series" and xv v
    by (simp add: negatePercent_def map_of_map_value split: option.split)
  have f: "negatePercent L s\<lparr>series_x := a, series_y := b, error_y_array := c\<rparr> =
           negatePercent L (s\<lparr>series_x := a, series_y := b, error_y_array := c\<rparr>)"
    for s :: "'a series" and a b c
    by (simp add: negatePercent_def)
  show ?thesis
    by (simp only: updateUnifiedXAxisValues_def Let_def ux y e f map_map comp_def)
qed

lemma negate_y:
  "negatePercent L (s\<lparr>series_y := ys\<rparr>) = (negatePercent L s)\<lparr>series_y := ys\<rparr>"
  "series_y (negatePercent L s) = series_y s"
  by (simp_all add: negatePercent_def)

lemma stack_negate_Some:
  "stackSeries L (Some (negatePercent L p)) (map (negatePercent L) ss) =
   map (negatePercent L) (stackSeries L (Some p) ss)"
proof (induction ss arbitrary: p)
  case Nil
  then show ?case by simp
next
  case (Cons s ss)
  let ?s' = "s\<lparr>series_y := map (\<lambda>(y, i). js_plus L (js_nth (series_y p) i) y)
                             (zip (series_y s) [0..<length (series_y s)])\<rparr>"
  have "stackSeries L (Some (negatePercent L p)) (map (negatePercent L) (s # ss)) =
        negatePercent L ?s' # stackSeries L (Some (negatePercent L ?s')) (map (negatePercent L) ss)"
    by (simp add: Let_def negate_y)
  also have "\<dots> = negatePercent L ?s' # map (negatePercent L) (stackSeries L (Some ?s') ss)"
    by (simp only: Cons.IH)
  also have "\<dots> = map (negatePercent L) (stackSeries L (Some p) (s # ss))"
    by (simp add: Let_def)
  finally show ?case .
qed

lemma stack_negate:
  "stackSeries L None (map (negatePercent L) ss) = map (negatePercent L) (stackSeries L None ss)"
proof (cases ss)
  case Nil
  then show ?thesis by simp
next
  case (Cons s rest)
  then show ?thesis by (simp add: Let_def stack_negate_Some)
qed

lemma pipeline_text_negate:
  "map series_text (pipeline L opts (map (negatePercent L) vs)) =
   map series_text (pipeline L opts vs)"
proof (cases "globalSeriesType opts = ''heatmap'' \<or> globalSeriesType opts = ''pie''")
  case True
  then show ?thesis
    by (auto simp: pipeline_stages text_negate negatePercent_def comp_def)
next
  case False
  show ?thesis
  proof (cases "percentValues opts")
    case True
    with False show ?thesis by (simp add: pipeline_stages percent_negate)
  next
    case np: False
    have "unifyStage L opts (map (negatePercent L) vs) = map (negatePercent L) (unifyStage L opts vs)"
      using np by (simp add: unifyStage_def unified_negate stack_negate)
    with False np show ?thesis
      by (simp add: pipeline_stages updatePercentValues_def text_negate)
  qed
qed

lemma writeBack_cong:
  assumes "map series_visible ss = map series_visible ss'"
    and "map f ss = map f ss'" and "map f vs = map f vs'"
  shows "map f (writeBack ss vs) = map f (writeBack ss' vs')"
  using assms
proof (induction ss arbitrary: ss' vs vs')
  case Nil
  then show ?case by simp
next
  case (Cons s ss)
  then obtain t ts where t: "ss' = t # ts" by (cases ss') auto
  show ?case
  proof (cases vs)
    case Nil
    then have "vs' = []" using Cons.prems(3) by simp
    with Nil Cons.prems show ?thesis by (simp add: writeBack_Nil)
  next
    case vs: (Cons v rest)
    then obtain v' rest' where v': "vs' = v' # rest'" using Cons.prems(3) by (cases vs') auto
    show ?thesis
      using Cons.prems Cons.IH [of ts rest rest'] Cons.IH [of ts vs vs']
      by (simp add: t vs v')
  qed
qed

lemma updateData_text_negate:
  "map series_text (updateData L (map (negatePercent L) sl) opts) =
   map series_text (updateData L sl opts)"
  unfolding updateData_pipeline negate_visible
  by (rule writeBack_cong)
     (simp_all add: pipeline_text_negate negatePercent_def comp_def)

lemma visible_text_built:
  assumes "globalSeriesType opts \<noteq> ''heatmap''" "n < length (filter series_visible sl)"
  shows "series_text (filter series_visible (updateData L sl opts) ! n) =
         map (\<lambda>xv. createTextFormatter L opts
                (seriesTokens L opts (filter series_visible (updateData L sl opts) ! n)
                   (resolvedOptions opts (filter series_visible (updateData L sl opts) ! n)) xv))
           (if globalSeriesType opts = ''pie''
            then series_labels (filter series_visible (updateData L sl opts) ! n)
            else series_x (filter series_visible (updateData L sl opts) ! n))"
proof -
  obtain zs where zs: "length zs = length (filter series_visible sl)"
    "pipeline L opts (filter series_visible sl) = updateSeriesText L zs opts"
    using pipeline_text [OF assms(1)] by blast
  show ?thesis
    unfolding visible_updateData zs(2) using assms(2) zs(1) by (intro updateSeriesText_nth) simp
qed

text \<open>
  C10, as the code has it. In percent mode or for a pie, the \<^verbatim>\<open>@@yPercent\<close> token that
  \<^const>\<open>updateSeriesText\<close> builds for a point is the percent formatter applied to the
  absolute value of its \<^verbatim>\<open>yPercent\<close>; in the bag handed to the text formatter the token
  is that string, unless the raw record of the point has a field named
  \<^verbatim>\<open>@@yPercent\<close>, whose value then takes its place. Every text of a visible series is the
  text formatter applied to this bag, and the texts are the same as for the series with
  the sign of every \<^verbatim>\<open>yPercent\<close> flipped.
\<close>

theorem percent_token_abs:
  "(percentValues opts \<or> globalSeriesType opts = ''pie'' \<longrightarrow>
      pointTokens L opts series so (Some item) ''@@yPercent'' =
        Some (Str (createNumberFormatter L (percentFormat opts)
                     (Num (js_abs (toNumber L (item_yPercent item))))))) \<and>
   (percentValues opts \<or> globalSeriesType opts = ''pie'' \<longrightarrow>
    map_of (sourceData series) xv = Some item \<longrightarrow>
      seriesTokens L opts series so xv ''@@yPercent'' =
        Some (case map_of (row_raw (item_row item)) ''@@yPercent'' of
                Some v \<Rightarrow> v
              | None \<Rightarrow> Str (createNumberFormatter L (percentFormat opts)
                              (Num (js_abs (toNumber L (item_yPercent item))))))) \<and>
   (globalSeriesType opts \<noteq> ''heatmap'' \<longrightarrow>
      (\<forall>n<length (filter series_visible sl).
         series_text (filter series_visible (updateData L sl opts) ! n) =
           map (\<lambda>xv. createTextFormatter L opts
                  (seriesTokens L opts (filter series_visible (updateData L sl opts) ! n)
                     (resolvedOptions opts (filter series_visible (updateData L sl opts) ! n)) xv))
             (if globalSeriesType opts = ''pie''
              then series_labels (filter series_visible (updateData L sl opts) ! n)
              else series_x (filter series_visible (updateData L sl opts) ! n)))) \<and>
   map series_text (updateSeriesText L (map (negatePercent L) ss) opts) =
     map series_text (updateSeriesText L ss opts) \<and>
   map series_text (updateData L (map (negatePercent L) sl) opts) =
     map series_text (updateData L sl opts)"
proof -
  have built: "pointTokens L opts series so (Some item) ''@@yPercent'' =
        Some (Str (createNumberFormatter L (percentFormat opts)
                     (Num (js_abs (toNumber L (item_yPercent item))))))"
    if "percentValues opts \<or> globalSeriesType opts = ''pie''"
    using that by (simp add: pointTokens_def Let_def math_abs_def)
  have merged: "seriesTokens L opts series so xv ''@@yPercent'' =
        Some (case map_of (row_raw (item_row item)) ''@@yPercent'' of
                Some v \<Rightarrow> v
              | None \<Rightarrow> Str (createNumberFormatter L (percentFormat opts)
                              (Num (js_abs (toNumber L (item_yPercent item))))))"
    if "percentValues opts \<or> globalSeriesType opts = ''pie''"
      "map_of (sourceData series) xv = Some item"
    using that built by (simp add: seriesTokens_def map_add_def split: option.split)
  from built merged visible_text_built [of opts _ sl L] text_negate [of L ss opts]
    updateData_text_negate [of L sl opts]
  show ?thesis by simp
qed

theorem percent_token_abs_witness:
  "globalSeriesType (ex_options ''pie'' False False False) = ''pie'' \<and>
   map (item_yPercent \<circ> snd) (sourceData (ex_pie ! 0)) = [Num (Fin (- 25))] \<and>
   seriesTokens ex_lib_value (ex_options ''pie'' False False False) (ex_pie ! 0)
     (resolvedOptions (ex_options ''pie'' False False False) (ex_pie ! 0)) ''a'' ''@@yPercent'' =
     Some (Str ''P25'') \<and>
   map series_text (updateData ex_lib_value ex_pie (ex_options ''pie'' False False False)) =
     [[Str ''P25 (N-5)'']] \<and>
   map series_text (updateData ex_lib_value (map (negatePercent ex_lib_value) ex_pie)
       (ex_options ''pie'' False False False)) = [[Str ''P25 (N-5)'']]"
proof -
  let ?o = "ex_options ''pie'' False False False"
  let ?item = "snd (sourceData (ex_pie ! 0) ! 0)"
  have o: "globalSeriesType ?o = ''pie''" "percentFormat ?o = ''P''"
    by (simp_all add: ex_options_def)
  have found: "map_of (sourceData (ex_pie ! 0)) ''a'' = Some ?item"
    by (simp add: ex_pie_def)
  have p: "item_yPercent ?item = Num (Fin (- 25))" "row_raw (item_row ?item) = []"
    "map (item_yPercent \<circ> snd) (sourceData (ex_pie ! 0)) = [Num (Fin (- 25))]"
    by (simp_all add: ex_pie_def ex_point_def)
  have f: "createNumberFormatter ex_lib_value ''P'' (Num (Fin 25)) = ''P25''"
    by (simp add: ex_lib_value_def ex_lib_def)
  have t: "map series_text (updateData ex_lib_value ex_pie ?o) = [[Str ''P25 (N-5)'']]"
    by (simp add: ex_pie_def ex_options_def ex_lib_value_def ex_lib_def ex_point_def
        updateData_def updatePieData_def updateSeriesText_def seriesTokens_def pointTokens_def
        formatValue_def createTextFormatter_def defaultFormatSeriesTextForPie_def getProp_def
        math_abs_def Let_def)
  note th = percent_token_abs [of ?o ex_lib_value "ex_pie ! 0" "resolvedOptions ?o (ex_pie ! 0)"
      ?item "''a''" ex_pie ex_pie]
  from th o found have "seriesTokens ex_lib_value ?o (ex_pie ! 0)
     (resolvedOptions ?o (ex_pie ! 0)) ''a'' ''@@yPercent'' = Some (Str ''P25'')"
    by (simp add: p f)
  moreover from th have "map series_text (updateData ex_lib_value
       (map (negatePercent ex_lib_value) ex_pie) ?o) = [[Str ''P25 (N-5)'']]"
    by (simp add: t)
  ultimately show ?thesis using o(1) p(3) t by simp
qed

text \<open>
  C10, as stated, fails for a point whose raw record has a field named \<^verbatim>\<open>@@yPercent\<close>:
  for the pie point with \<^verbatim>\<open>yPercent = -25\<close> the percent formatter gives \<^verbatim>\<open>"P25"\<close> for
  the absolute value, but the token of the bag, and with it the text, has the raw value
  \<^verbatim>\<open>"RAW"\<close>.
\<close>

theorem percent_token_counterexample:
  "globalSeriesType (ex_options ''pie'' False False False) = ''pie'' \<and>
   map (item_yPercent \<circ> snd) (sourceData (ex_raw ! 0)) = [Num (Fin (- 25))] \<and>
   createNumberFormatter ex_lib_value (percentFormat (ex_options ''pie'' False False False))
     (Num (Fin 25)) = ''P25'' \<and>
   seriesTokens ex_lib_value (ex_options ''pie'' False False False) (ex_raw ! 0)
     (resolvedOptions (ex_options ''pie'' False False False) (ex_raw ! 0)) ''a'' ''@@yPercent'' =
     Some (Str ''RAW'') \<and>
   map series_text (updateData ex_lib_value ex_raw (ex_options ''pie'' False False False)) =
     [[Str ''RAW (N-5)'']]"
  by (simp add: ex_raw_def ex_options_def ex_lib_value_def ex_lib_def ex_point_def
      resolvedOptions_def updateData_def updatePieData_def updateSeriesText_def seriesTokens_def
      pointTokens_def formatValue_def createTextFormatter_def defaultFormatSeriesTextForPie_def
      getProp_def math_abs_def Let_def)

section \<open>Idempotence\<close>

lemma points_clearText: "points (map clearText ss) = points ss"
  by (rule points_cong) (simp add: clearText_def)

lemma points_clearXYE: "points (map clearXYE ss) = points ss"
  by (rule points_cong) (simp add: clearXYE_def)

lemma sums_cong: "points a = points b \<Longrightarrow> sumOfCorrespondingPoints L a = sumOfCorrespondingPoints L b"
  by (simp add: sums_points)

lemma unified_cong: "points a = points b \<Longrightarrow> getUnifiedXAxisValues a f = getUnifiedXAxisValues b f"
  by (cases f) (simp_all add: unified_sorted unified_unsorted)

lemma text_clearText: "updateSeriesText L (map clearText ss) opts = updateSeriesText L ss opts"
  by (simp add: updateSeriesText_eq clearText_def seriesTokens_text resolvedOptions_text)

lemma clearText_text: "map clearText (updateSeriesText L zs opts) = map clearText zs"
  by (rule updateSeriesText_frame) (simp add: clearText_def)

lemma percent_clearText:
  "updatePercentValues L (map clearText ss) opts = map clearText (updatePercentValues L ss opts)"
  by (simp add: updatePercentValues_def Let_def sums_cong [OF points_clearText] clearText_def)

lemma unified_clearText:
  "updateUnifiedXAxisValues (map clearText ss) opts d =
   map clearText (updateUnifiedXAxisValues ss opts d)"
  by (simp add: updateUnifiedXAxisValues_def Let_def unified_cong [OF points_clearText]
      clearText_def)

lemma clearText_y:
  "clearText (s\<lparr>series_y := ys\<rparr>) = (clearText s)\<lparr>series_y := ys\<rparr>"
  "series_y (clearText s) = series_y s"
  by (simp_all add: clearText_def)

lemma stack_clearText_Some:
  "stackSeries L (Some (clearText p)) (map clearText ss) = map clearText (stackSeries L (Some p) ss)"
proof (induction ss arbitrary: p)
  case Nil
  then show ?case by simp
next
  case (Cons s ss)
  let ?s' = "s\<lparr>series_y := map (\<lambda>(y, i). js_plus L (js_nth (series_y p) i) y)
                             (zip (series_y s) [0..<length (series_y s)])\<rparr>"
  have "stackSeries L (Some (clearText p)) (map clearText (s # ss)) =
        clearText ?s' # stackSeries L (Some (clearText ?s')) (map clearText ss)"
    by (simp add: Let_def clearText_y)
  also have "\<dots> = clearText ?s' # map clearText (stackSeries L (Some ?s') ss)"
    by (simp only: Cons.IH)
  also have "\<dots> = map clearText (stackSeries L (Some p) (s # ss))"
    by (simp add: Let_def)
  finally show ?case .
qed

lemma stack_clearText:
  "stackSeries L None (map clearText ss) = map clearText (stackSeries L None ss)"
proof (cases ss)
  case Nil
  then show ?thesis by simp
next
  case (Cons s rest)
  then show ?thesis by (simp add: Let_def stack_clearText_Some)
qed

lemma unifyStage_clearText:
  "unifyStage L opts (map clearText ss) = map clearText (unifyStage L opts ss)"
  by (simp add: unifyStage_def unified_clearText stack_clearText)

lemma unifyStage_clearXYE:
  assumes "runsUnification opts"
  shows "unifyStage L opts (map clearXYE ss) = unifyStage L opts ss"
proof -
  have "updateUnifiedXAxisValues (map clearXYE ss) opts d = updateUnifiedXAxisValues ss opts d" for d
    by (simp add: updateUnifiedXAxisValues_def Let_def unified_cong [OF points_clearXYE]
        clearXYE_def)
  then show ?thesis using assms by (simp add: unifyStage_def)
qed

lemma clearXYE_unifyStage: "map clearXYE (unifyStage L opts zs) = map clearXYE zs"
  by (rule unifyStage_frame) (simp_all add: clearXYE_def)

lemma percent_clearXYE:
  "map clearXYE (updatePercentValues L (map clearXYE ss) opts) =
   map clearXYE (updatePercentValues L ss opts)"
  by (simp add: updatePercentValues_def Let_def sums_cong [OF points_clearXYE] clearXYE_def)

lemma addPoint_setPercent: "addPoint L m (setPercent L sm item) = addPoint L m item"
  by (simp add: addPoint_def setPercent_def Let_def)

lemma fold_addPoint_setPercent:
  "foldl (addPoint L) m (map (setPercent L sm) ps) = foldl (addPoint L) m ps"
  by (induction ps arbitrary: m) (simp_all add: addPoint_setPercent)

lemma setPercent_twice: "setPercent L sm (setPercent L sm item) = setPercent L sm item"
  by (simp add: setPercent_def Let_def)

lemma percent_twice:
  "updatePercentValues L (updatePercentValues L ss opts) opts = updatePercentValues L ss opts"
proof (cases "percentValues opts")
  case False
  then show ?thesis by (simp add: updatePercentValues_def)
next
  case True
  have sm: "sumOfCorrespondingPoints L (updatePercentValues L ss opts) = sumOfCorrespondingPoints L ss"
    using True by (simp add: sums_points points_percent fold_addPoint_setPercent)
  have "updatePercentValues L (updatePercentValues L ss opts) opts =
        map (\<lambda>series.
              let sd = map (\<lambda>(k, item). (k, setPercent L (sumOfCorrespondingPoints L ss) item))
                         (sourceData series)
              in series\<lparr>sourceData := sd, series_y := map (\<lambda>(k, item). item_yPercent item) sd\<rparr>)
          (updatePercentValues L ss opts)"
    using True unfolding updatePercentValues_def [of L "updatePercentValues L ss opts"] sm
    by (simp add: Let_def)
  also have "\<dots> = updatePercentValues L ss opts"
    using True by (simp add: updatePercentValues_def Let_def split_def comp_def setPercent_twice)
  finally show ?thesis .
qed

lemma stage_twice:
  "unifyStage L opts (updatePercentValues L (unifyStage L opts (updatePercentValues L vs opts)) opts)
   = unifyStage L opts (updatePercentValues L vs opts)"
proof (cases "runsUnification opts")
  case False
  then show ?thesis by (simp add: unifyStage_def percent_twice)
next
  case True
  let ?P = "\<lambda>ss. updatePercentValues L ss opts"
  let ?W = "unifyStage L opts (?P vs)"
  have "map clearXYE (?P ?W) = map clearXYE (?P (map clearXYE ?W))"
    by (simp only: percent_clearXYE)
  also have "\<dots> = map clearXYE (?P (map clearXYE (?P vs)))"
    by (simp only: clearXYE_unifyStage)
  also have "\<dots> = map clearXYE (?P (?P vs))" by (simp only: percent_clearXYE)
  also have "\<dots> = map clearXYE (?P vs)" by (simp only: percent_twice)
  finally have "unifyStage L opts (map clearXYE (?P ?W)) = unifyStage L opts (map clearXYE (?P vs))"
    by (simp only:)
  then show ?thesis by (simp only: unifyStage_clearXYE [OF True])
qed

lemma pipeline_twice: "pipeline L opts (pipeline L opts vs) = pipeline L opts vs"
proof -
  let ?T = "\<lambda>ss. updateSeriesText L ss opts"
  let ?S = "\<lambda>ss. unifyStage L opts (updatePercentValues L ss opts)"
  have tt: "?T (?T ss) = ?T ss" for ss :: "'a series list"
  proof -
    have "?T (?T ss) = ?T (map clearText (?T ss))" by (simp only: text_clearText)
    also have "\<dots> = ?T (map clearText ss)" by (simp only: clearText_text)
    also have "\<dots> = ?T ss" by (simp only: text_clearText)
    finally show ?thesis .
  qed
  have ts: "?T (?S (?T (?S vs))) = ?T (?S vs)"
  proof -
    have "?T (?S (?T (?S vs))) = ?T (map clearText (?S (?T (?S vs))))"
      by (simp only: text_clearText)
    also have "\<dots> = ?T (?S (map clearText (?T (?S vs))))"
      by (simp only: unifyStage_clearText percent_clearText)
    also have "\<dots> = ?T (?S (map clearText (?S vs)))" by (simp only: clearText_text)
    also have "\<dots> = ?T (map clearText (?S (?S vs)))"
      by (simp only: unifyStage_clearText percent_clearText)
    also have "\<dots> = ?T (?S (?S vs))" by (simp only: text_clearText)
    also have "\<dots> = ?T (?S vs)" by (simp only: stage_twice)
    finally show ?thesis .
  qed
  show ?thesis
    unfolding pipeline_stages using tt ts by simp
qed

text \<open>
  C4. The transform is idempotent: applied to its own result, it returns that result,
  for every series list and all options. So all arrays of all series (x, y, errorY,
  text, hover, labels), and the points, are the same after one run and after two.
\<close>

theorem updateData_idempotent:
  "updateData L (updateData L sl opts) opts = updateData L sl opts"
proof -
  let ?out = "updateData L sl opts"
  have "updateData L ?out opts = writeBack ?out (pipeline L opts (filter series_visible ?out))"
    by (rule updateData_pipeline)
  also have "\<dots> = writeBack ?out (filter series_visible ?out)"
    by (simp only: visible_updateData pipeline_twice)
  also have "\<dots> = ?out" by (rule writeBack_filter)
  finally show ?thesis .
qed

end
